(* ===== verification/Prelude.thy ===== *)
theory Prelude
  imports Main "HOL-Library.Word"
begin

text \<open>
  The shared layer of the development: the machine types the Rust sources use, little- and
  big-endian codecs, fixed-width helper arithmetic, and the state-and-error monad in which every
  stateful function of the application is written, with its weakest-precondition calculus.

  A computation of type \<open>('s, 'e, 'a) sm\<close> is a function from a state to a result and a state.
  The state survives an error, as it does in Rust when a method taking \<open>&mut self\<close> returns
  \<open>Err\<close> after having written some fields.  A computation ends in one of four ways: a value, an
  error of the source's own error type (\<open>Fail\<close>), a panic (\<open>Panic\<close>: an out-of-range slice,
  an \<open>expect\<close> on \<open>None\<close>, a failed \<open>assert!\<close>), or not at all (\<open>Diverge\<close>: the fuel of a
  modelled loop ran out).  Panics and divergence are values here so that their absence is
  something to prove.
\<close>

unbundle bit_operations_syntax

section \<open>Machine types\<close>

type_synonym u8 = "8 word"
type_synonym u16 = "16 word"
type_synonym u32 = "32 word"
type_synonym u64 = "64 word"
type_synonym bytes = "u8 list"

named_theorems wp_simps \<open>equations that push wp through the program constructs\<close>
named_theorems codec_simps \<open>facts about the byte codecs\<close>

text \<open>\<open>usize\<close> is 32 bits wide on every supported device.\<close>

definition USIZE_MAX :: nat where
  "USIZE_MAX = 4294967295"

definition usize_saturating_add :: "nat \<Rightarrow> nat \<Rightarrow> nat" where
  "usize_saturating_add a b = min (a + b) USIZE_MAX"

definition U64_MAX :: nat where
  "U64_MAX = 18446744073709551615"

definition u64_saturating_add :: "u64 \<Rightarrow> u64 \<Rightarrow> u64" where
  "u64_saturating_add a b = (if unat a + unat b \<le> U64_MAX then a + b else word_of_nat U64_MAX)"

definition u64_checked_add :: "u64 \<Rightarrow> u64 \<Rightarrow> u64 option" where
  "u64_checked_add a b = (if unat a + unat b \<le> U64_MAX then Some (a + b) else None)"

definition u64_checked_sub :: "u64 \<Rightarrow> u64 \<Rightarrow> u64 option" where
  "u64_checked_sub a b = (if unat b \<le> unat a then Some (a - b) else None)"

text \<open>\<open>i64::try_from\<close> on a wider signed value.\<close>

definition i64_try_from :: "int \<Rightarrow> int option" where
  "i64_try_from x = (if - (2 ^ 63) \<le> x \<and> x < 2 ^ 63 then Some x else None)"

definition u64_try_from :: "int \<Rightarrow> u64 option" where
  "u64_try_from x = (if 0 \<le> x \<and> x < 2 ^ 64 then Some (word_of_int x) else None)"

lemma unat_u64_le_max: "unat (x :: u64) \<le> U64_MAX"
proof -
  have "unat x < 2 ^ 64" using unsigned_less [of x] by simp
  then show ?thesis by (simp add: U64_MAX_def)
qed

lemma unat_u64_saturating_add:
  "unat (u64_saturating_add a b) = min (unat a + unat b) U64_MAX"
  by (auto simp: u64_saturating_add_def U64_MAX_def unat_word_ariths unat_of_nat min_def)

lemma u64_checked_add_SomeD:
  "u64_checked_add a b = Some c \<Longrightarrow> unat c = unat a + unat b"
  by (auto simp: u64_checked_add_def U64_MAX_def unat_word_ariths split: if_splits)

lemma u64_checked_sub_SomeD:
  "u64_checked_sub a b = Some c \<Longrightarrow> unat b \<le> unat a \<and> unat c = unat a - unat b"
  by (auto simp: u64_checked_sub_def unat_sub_if_size split: if_splits)

lemma i64_try_from_SomeD: "i64_try_from x = Some y \<Longrightarrow> y = x \<and> - (2 ^ 63) \<le> x \<and> x < 2 ^ 63"
  by (auto simp: i64_try_from_def split: if_splits)

lemma u64_try_from_SomeD: "u64_try_from x = Some y \<Longrightarrow> 0 \<le> x \<and> int (unat y) = x"
proof -
  assume a: "u64_try_from x = Some y"
  then have y: "y = word_of_int x" and r: "0 \<le> x" "x < 2 ^ 64"
    by (simp_all add: u64_try_from_def split: if_splits)
  then have "uint y = x" by (simp add: y uint_word_of_int take_bit_int_eq_self)
  with r show ?thesis by (simp flip: uint_nat)
qed

lemma usize_saturating_add_1 [simp]:
  "n < USIZE_MAX \<Longrightarrow> usize_saturating_add n 1 = Suc n"
  by (simp add: usize_saturating_add_def)

section \<open>Byte codecs\<close>

fun le_of_nat :: "nat \<Rightarrow> nat \<Rightarrow> bytes" where
  "le_of_nat 0 x = []"
| "le_of_nat (Suc n) x = word_of_nat (x mod 256) # le_of_nat n (x div 256)"

fun nat_of_le :: "bytes \<Rightarrow> nat" where
  "nat_of_le [] = 0"
| "nat_of_le (b # bs) = unat b + 256 * nat_of_le bs"

definition nat_of_be :: "bytes \<Rightarrow> nat" where
  "nat_of_be bs = nat_of_le (rev bs)"

definition be_of_nat :: "nat \<Rightarrow> nat \<Rightarrow> bytes" where
  "be_of_nat n x = rev (le_of_nat n x)"

definition u32_to_le_bytes :: "u32 \<Rightarrow> bytes" where
  "u32_to_le_bytes x = le_of_nat 4 (unat x)"

definition u32_from_le_bytes :: "bytes \<Rightarrow> u32" where
  "u32_from_le_bytes bs = word_of_nat (nat_of_le bs)"

definition u32_from_be_bytes :: "bytes \<Rightarrow> u32" where
  "u32_from_be_bytes bs = word_of_nat (nat_of_be bs)"

definition u32_to_be_bytes :: "u32 \<Rightarrow> bytes" where
  "u32_to_be_bytes x = be_of_nat 4 (unat x)"

definition u64_to_le_bytes :: "u64 \<Rightarrow> bytes" where
  "u64_to_le_bytes x = le_of_nat 8 (unat x)"

definition u64_from_le_bytes :: "bytes \<Rightarrow> u64" where
  "u64_from_le_bytes bs = word_of_nat (nat_of_le bs)"

definition u64_from_be_bytes :: "bytes \<Rightarrow> u64" where
  "u64_from_be_bytes bs = word_of_nat (nat_of_be bs)"

text \<open>\<open>i64::to_le_bytes\<close>: the two's complement representation.\<close>

definition i64_to_le_bytes :: "int \<Rightarrow> bytes" where
  "i64_to_le_bytes x = le_of_nat 8 (nat (x mod 2 ^ 64))"

definition u16_to_be_bytes :: "nat \<Rightarrow> bytes" where
  "u16_to_be_bytes x = be_of_nat 2 x"

lemma length_le_of_nat [simp, codec_simps]: "length (le_of_nat n x) = n"
  by (induction n arbitrary: x) auto

lemma length_be_of_nat [simp, codec_simps]: "length (be_of_nat n x) = n"
  by (simp add: be_of_nat_def)

lemma nat_of_le_bound: "nat_of_le bs < 256 ^ length bs"
proof (induction bs)
  case Nil
  then show ?case by simp
next
  case (Cons b bs)
  have "unat b < 256" using unsigned_less [of b] by simp
  with Cons show ?case by simp
qed

lemma nat_of_le_le_of_nat [codec_simps]: "nat_of_le (le_of_nat n x) = x mod 256 ^ n"
proof (induction n arbitrary: x)
  case 0
  then show ?case by simp
next
  case (Suc n)
  have "unat (word_of_nat (x mod 256) :: u8) = x mod 256"
    by (simp add: unat_of_nat)
  then show ?case
    by (simp add: Suc mod_mult2_eq)
qed

lemma le_of_nat_nat_of_le [codec_simps]: "length bs = n \<Longrightarrow> le_of_nat n (nat_of_le bs) = bs"
proof (induction bs arbitrary: n)
  case Nil
  then show ?case by simp
next
  case (Cons b bs)
  have b: "unat b < 256" using unsigned_less [of b] by simp
  from Cons.prems obtain m where n: "n = Suc m" and m: "length bs = m" by auto
  have "(unat b + 256 * nat_of_le bs) mod 256 = unat b"
    and "(unat b + 256 * nat_of_le bs) div 256 = nat_of_le bs"
    using b by auto
  with Cons.IH [OF m] show ?case by (simp add: n)
qed

lemma nat_of_le_append: "nat_of_le (xs @ ys) = nat_of_le xs + 256 ^ length xs * nat_of_le ys"
  by (induction xs) (auto simp: algebra_simps)

lemma u32_le_roundtrip [codec_simps]: "u32_from_le_bytes (u32_to_le_bytes x) = x"
proof -
  have "unat x < 2 ^ 32" using unsigned_less [of x] by simp
  then show ?thesis
    by (simp add: u32_from_le_bytes_def u32_to_le_bytes_def nat_of_le_le_of_nat)
qed

lemma u32_be_roundtrip [codec_simps]: "u32_from_be_bytes (u32_to_be_bytes x) = x"
proof -
  have "unat x < 2 ^ 32" using unsigned_less [of x] by simp
  then show ?thesis
    by (simp add: u32_from_be_bytes_def u32_to_be_bytes_def nat_of_be_def be_of_nat_def
        nat_of_le_le_of_nat)
qed

lemma u64_le_roundtrip [codec_simps]: "u64_from_le_bytes (u64_to_le_bytes x) = x"
proof -
  have "unat x < 2 ^ 64" using unsigned_less [of x] by simp
  then show ?thesis
    by (simp add: u64_from_le_bytes_def u64_to_le_bytes_def nat_of_le_le_of_nat)
qed

lemma u32_be_bytes_roundtrip [codec_simps]:
  assumes "length bs = 4"
  shows "u32_to_be_bytes (u32_from_be_bytes bs) = bs"
proof -
  have "nat_of_le (rev bs) < 256 ^ 4"
    using nat_of_le_bound [of "rev bs"] assms by simp
  then have "unat (u32_from_be_bytes bs) = nat_of_le (rev bs)"
    by (simp add: u32_from_be_bytes_def nat_of_be_def unat_of_nat)
  then show ?thesis
    using le_of_nat_nat_of_le [of "rev bs" 4] assms
    by (simp add: u32_to_be_bytes_def be_of_nat_def)
qed

lemma length_u32_codecs [simp]:
  "length (u32_to_le_bytes x) = 4" "length (u32_to_be_bytes x) = 4"
  "length (u64_to_le_bytes y) = 8" "length (i64_to_le_bytes z) = 8"
  by (simp_all add: u32_to_le_bytes_def u32_to_be_bytes_def u64_to_le_bytes_def
      i64_to_le_bytes_def)

section \<open>Pure results\<close>

datatype 'e fault = Fail 'e | Panic | Diverge

text \<open>A pure fallible computation: \<open>Inl\<close> a fault, \<open>Inr\<close> the value.  \<open>rbind\<close> is Rust's \<open>?\<close>.\<close>

type_synonym ('e, 'a) res = "'e fault + 'a"

definition rbind :: "('e, 'a) res \<Rightarrow> ('a \<Rightarrow> ('e, 'b) res) \<Rightarrow> ('e, 'b) res" where
  "rbind r k = (case r of Inl e \<Rightarrow> Inl e | Inr a \<Rightarrow> k a)"

definition err :: "'e \<Rightarrow> ('e, 'a) res" where
  "err e = Inl (Fail e)"

definition ensure_r :: "bool \<Rightarrow> 'e \<Rightarrow> ('e, unit) res" where
  "ensure_r b e = (if b then Inr () else err e)"

text \<open>\<open>ok_or\<close> on an option.\<close>

definition some_or_r :: "'a option \<Rightarrow> 'e \<Rightarrow> ('e, 'a) res" where
  "some_or_r x e = (case x of None \<Rightarrow> err e | Some a \<Rightarrow> Inr a)"

definition map_err_r :: "('e \<Rightarrow> 'f) \<Rightarrow> ('e, 'a) res \<Rightarrow> ('f, 'a) res" where
  "map_err_r f r = (case r of
      Inr a \<Rightarrow> Inr a | Inl (Fail e) \<Rightarrow> Inl (Fail (f e)) | Inl Panic \<Rightarrow> Inl Panic
    | Inl Diverge \<Rightarrow> Inl Diverge)"

lemma rbind_simps [simp]:
  "rbind (Inl e) k = Inl e" "rbind (Inr a) k = k a" "rbind (err x) k = err x"
  by (simp_all add: rbind_def err_def)

lemma rbind_eq_Inr [simp]: "rbind r k = Inr b \<longleftrightarrow> (\<exists>a. r = Inr a \<and> k a = Inr b)"
  by (cases r) (auto simp: rbind_def)

lemma rbind_eq_Inl: "rbind r k = Inl e \<longleftrightarrow> r = Inl e \<or> (\<exists>a. r = Inr a \<and> k a = Inl e)"
  by (cases r) (auto simp: rbind_def)

lemma err_neq_Inr [simp]: "err e \<noteq> Inr a" "Inr a \<noteq> err e"
  by (simp_all add: err_def)

lemma ensure_r_Inr [simp]: "ensure_r b e = Inr u \<longleftrightarrow> b"
  by (simp add: ensure_r_def)

lemma ensure_r_simps [simp]: "ensure_r True e = Inr ()" "ensure_r False e = err e"
  by (simp_all add: ensure_r_def)

lemma some_or_r_Inr [simp]: "some_or_r x e = Inr a \<longleftrightarrow> x = Some a"
  by (cases x) (auto simp: some_or_r_def)

lemma some_or_r_simps [simp]: "some_or_r (Some a) e = Inr a" "some_or_r None e = err e"
  by (simp_all add: some_or_r_def)

lemma map_err_r_Inr [simp]: "map_err_r f r = Inr a \<longleftrightarrow> r = Inr a"
  by (auto simp: map_err_r_def split: sum.splits fault.splits)

lemma map_err_r_simps [simp]:
  "map_err_r f (Inr a) = Inr a" "map_err_r f (err e) = err (f e)"
  by (simp_all add: map_err_r_def err_def)

section \<open>The state-and-error monad\<close>

type_synonym ('s, 'e, 'a) sm = "'s \<Rightarrow> ('e fault + 'a) \<times> 's"

definition ret :: "'a \<Rightarrow> ('s, 'e, 'a) sm" where
  "ret a = (\<lambda>s. (Inr a, s))"

definition throw :: "'e \<Rightarrow> ('s, 'e, 'a) sm" where
  "throw e = (\<lambda>s. (Inl (Fail e), s))"

definition panic :: "('s, 'e, 'a) sm" where
  "panic = (\<lambda>s. (Inl Panic, s))"

definition diverge :: "('s, 'e, 'a) sm" where
  "diverge = (\<lambda>s. (Inl Diverge, s))"

definition bnd :: "('s, 'e, 'a) sm \<Rightarrow> ('a \<Rightarrow> ('s, 'e, 'b) sm) \<Rightarrow> ('s, 'e, 'b) sm" where
  "bnd m k = (\<lambda>s. case m s of (Inl e, s') \<Rightarrow> (Inl e, s') | (Inr a, s') \<Rightarrow> k a s')"

definition gets :: "('s \<Rightarrow> 'a) \<Rightarrow> ('s, 'e, 'a) sm" where
  "gets f = (\<lambda>s. (Inr (f s), s))"

definition modify :: "('s \<Rightarrow> 's) \<Rightarrow> ('s, 'e, unit) sm" where
  "modify f = (\<lambda>s. (Inr (), f s))"

text \<open>\<open>if !b { return Err(e); }\<close>\<close>

definition ensure :: "bool \<Rightarrow> 'e \<Rightarrow> ('s, 'e, unit) sm" where
  "ensure b e = (if b then ret () else throw e)"

text \<open>An early \<open>return\<close>-free sequence of statements.\<close>

fun seqs :: "('s, 'e, unit) sm list \<Rightarrow> ('s, 'e, unit) sm" where
  "seqs [] = ret ()"
| "seqs [m] = m"
| "seqs (m # ms) = bnd m (\<lambda>_. seqs ms)"

definition when_do :: "bool \<Rightarrow> ('s, 'e, unit) sm \<Rightarrow> ('s, 'e, unit) sm" where
  "when_do b m = (if b then m else ret ())"

text \<open>\<open>ok_or\<close> on an option.\<close>

definition some_or :: "'a option \<Rightarrow> 'e \<Rightarrow> ('s, 'e, 'a) sm" where
  "some_or x e = (case x of None \<Rightarrow> throw e | Some a \<Rightarrow> ret a)"

text \<open>A pure fallible function used as a statement.\<close>

definition lift_r :: "'e fault + 'a \<Rightarrow> ('s, 'e, 'a) sm" where
  "lift_r r = (\<lambda>s. (r, s))"

text \<open>\<open>map_err\<close> on a statement.\<close>

definition map_err :: "('e \<Rightarrow> 'f) \<Rightarrow> ('s, 'e, 'a) sm \<Rightarrow> ('s, 'f, 'a) sm" where
  "map_err f m = (\<lambda>s. case m s of
      (Inr a, s') \<Rightarrow> (Inr a, s')
    | (Inl (Fail e), s') \<Rightarrow> (Inl (Fail (f e)), s')
    | (Inl Panic, s') \<Rightarrow> (Inl Panic, s')
    | (Inl Diverge, s') \<Rightarrow> (Inl Diverge, s'))"

text \<open>Running a handler on the error value, which may itself change the state and then fails:
  \<open>if let Err(e) = m { return Err(h(e)); }\<close>.\<close>

definition catch_err :: "('s, 'e, 'a) sm \<Rightarrow> ('e \<Rightarrow> ('s, 'f, 'a) sm) \<Rightarrow> ('s, 'f, 'a) sm" where
  "catch_err m h = (\<lambda>s. case m s of
      (Inr a, s') \<Rightarrow> (Inr a, s')
    | (Inl (Fail e), s') \<Rightarrow> h e s'
    | (Inl Panic, s') \<Rightarrow> (Inl Panic, s')
    | (Inl Diverge, s') \<Rightarrow> (Inl Diverge, s'))"

text \<open>Rust slicing \<open>&xs[a..b]\<close>, which panics out of range.\<close>

definition slice :: "nat \<Rightarrow> nat \<Rightarrow> 'a list \<Rightarrow> 'e fault + 'a list" where
  "slice a b xs = (if a \<le> b \<and> b \<le> length xs then Inr (take (b - a) (drop a xs)) else Inl Panic)"

text \<open>Rust indexing \<open>xs[i]\<close>.\<close>

definition index :: "'a list \<Rightarrow> nat \<Rightarrow> 'e fault + 'a" where
  "index xs i = (if i < length xs then Inr (xs ! i) else Inl Panic)"

definition vec_get :: "'a list \<Rightarrow> nat \<Rightarrow> 'a option" where
  "vec_get xs i = (if i < length xs then Some (xs ! i) else None)"

lemma vec_get_SomeD: "vec_get xs i = Some x \<Longrightarrow> i < length xs \<and> x = xs ! i"
  by (auto simp: vec_get_def split: if_splits)

text \<open>A \<open>while\<close> loop over a guard on the state.\<close>

fun while_sm :: "nat \<Rightarrow> ('s \<Rightarrow> bool) \<Rightarrow> ('s, 'e, unit) sm \<Rightarrow> ('s, 'e, unit) sm" where
  "while_sm 0 b m = (\<lambda>s. if b s then (Inl Diverge, s) else (Inr (), s))"
| "while_sm (Suc n) b m =
     (\<lambda>s. if b s then bnd m (\<lambda>_. while_sm n b m) s else (Inr (), s))"

section \<open>Weakest preconditions\<close>

definition wp :: "('s, 'e, 'a) sm \<Rightarrow> ('a \<Rightarrow> 's \<Rightarrow> bool) \<Rightarrow> ('e fault \<Rightarrow> 's \<Rightarrow> bool) \<Rightarrow> 's \<Rightarrow> bool"
  where "wp m Q R s = (case m s of (Inr a, s') \<Rightarrow> Q a s' | (Inl e, s') \<Rightarrow> R e s')"

lemma wpI:
  assumes "\<And>a s'. m s = (Inr a, s') \<Longrightarrow> Q a s'"
    and "\<And>e s'. m s = (Inl e, s') \<Longrightarrow> R e s'"
  shows "wp m Q R s"
  using assms by (auto simp: wp_def split: sum.splits prod.splits)

lemma wp_InrD: "wp m Q R s \<Longrightarrow> m s = (Inr a, s') \<Longrightarrow> Q a s'"
  by (simp add: wp_def)

lemma wp_InlD: "wp m Q R s \<Longrightarrow> m s = (Inl e, s') \<Longrightarrow> R e s'"
  by (simp add: wp_def)

lemma wp_mono:
  assumes "wp m Q R s"
    and "\<And>a s'. Q a s' \<Longrightarrow> Q' a s'" and "\<And>e s'. R e s' \<Longrightarrow> R' e s'"
  shows "wp m Q' R' s"
  using assms by (auto simp: wp_def split: sum.splits prod.splits)

lemma wp_conj:
  "wp m (\<lambda>a s. Q a s \<and> Q' a s) (\<lambda>e s. R e s \<and> R' e s) s \<longleftrightarrow> wp m Q R s \<and> wp m Q' R' s"
  by (auto simp: wp_def split: sum.splits prod.splits)

lemma wp_triv [simp]: "wp m (\<lambda>_ _. True) (\<lambda>_ _. True) s"
  by (auto simp: wp_def split: sum.splits prod.splits)

lemma wp_ret [wp_simps]: "wp (ret a) Q R s = Q a s"
  by (simp add: wp_def ret_def)

lemma wp_throw [wp_simps]: "wp (throw e) Q R s = R (Fail e) s"
  by (simp add: wp_def throw_def)

lemma wp_panic [wp_simps]: "wp panic Q R s = R Panic s"
  by (simp add: wp_def panic_def)

lemma wp_diverge [wp_simps]: "wp diverge Q R s = R Diverge s"
  by (simp add: wp_def diverge_def)

lemma wp_bnd [wp_simps]: "wp (bnd m k) Q R s = wp m (\<lambda>a s'. wp (k a) Q R s') R s"
  by (simp add: wp_def bnd_def split: sum.splits prod.splits)

lemma wp_gets [wp_simps]: "wp (gets f) Q R s = Q (f s) s"
  by (simp add: wp_def gets_def)

lemma wp_modify [wp_simps]: "wp (modify f) Q R s = Q () (f s)"
  by (simp add: wp_def modify_def)

lemma wp_ensure [wp_simps]: "wp (ensure b e) Q R s = (if b then Q () s else R (Fail e) s)"
  by (simp add: ensure_def wp_simps)

lemma wp_when_do [wp_simps]: "wp (when_do b m) Q R s = (if b then wp m Q R s else Q () s)"
  by (simp add: when_do_def wp_simps)

lemma wp_if [wp_simps]: "wp (if b then m else k) Q R s = (if b then wp m Q R s else wp k Q R s)"
  by simp

lemma wp_some_or [wp_simps]:
  "wp (some_or x e) Q R s = (case x of None \<Rightarrow> R (Fail e) s | Some a \<Rightarrow> Q a s)"
  by (simp add: some_or_def wp_simps split: option.splits)

lemma wp_lift_r [wp_simps]:
  "wp (lift_r r) Q R s = (case r of Inl e \<Rightarrow> R e s | Inr a \<Rightarrow> Q a s)"
  by (simp add: wp_def lift_r_def split: sum.splits)

lemma wp_case_option [wp_simps]:
  "wp (case x of None \<Rightarrow> m | Some a \<Rightarrow> k a) Q R s =
     (case x of None \<Rightarrow> wp m Q R s | Some a \<Rightarrow> wp (k a) Q R s)"
  by (simp split: option.splits)

lemma wp_case_sum [wp_simps]:
  "wp (case x of Inl a \<Rightarrow> m a | Inr b \<Rightarrow> k b) Q R s =
     (case x of Inl a \<Rightarrow> wp (m a) Q R s | Inr b \<Rightarrow> wp (k b) Q R s)"
  by (simp split: sum.splits)

lemma wp_case_prod [wp_simps]:
  "wp (case x of (a, b) \<Rightarrow> m a b) Q R s = (case x of (a, b) \<Rightarrow> wp (m a b) Q R s)"
  by (simp split: prod.splits)

lemma wp_Let [wp_simps]: "wp (Let x f) Q R s = (let a = x in wp (f a) Q R s)"
  by (simp add: Let_def)

lemma wp_map_err [wp_simps]:
  "wp (map_err f m) Q R s =
     wp m Q (\<lambda>e s'. case e of Fail x \<Rightarrow> R (Fail (f x)) s' | Panic \<Rightarrow> R Panic s'
                           | Diverge \<Rightarrow> R Diverge s') s"
  by (simp add: wp_def map_err_def split: sum.splits prod.splits fault.splits)

lemma wp_catch_err [wp_simps]:
  "wp (catch_err m h) Q R s =
     wp m Q (\<lambda>e s'. case e of Fail x \<Rightarrow> wp (h x) Q R s' | Panic \<Rightarrow> R Panic s'
                           | Diverge \<Rightarrow> R Diverge s') s"
  by (simp add: wp_def catch_err_def split: sum.splits prod.splits fault.splits)

lemma wp_seqs_Nil [wp_simps]: "wp (seqs []) Q R s = Q () s"
  by (simp add: wp_simps)

lemma wp_seqs_Cons [wp_simps]: "wp (seqs (m # ms)) Q R s = wp m (\<lambda>_. wp (seqs ms) Q R) R s"
proof (cases ms)
  case Nil
  then show ?thesis by (auto simp: wp_def ret_def split: sum.splits prod.splits)
next
  case (Cons a list)
  then show ?thesis by (simp add: wp_simps)
qed

declare seqs.simps [simp del]

text \<open>Symbolic execution: with \<open>wp_cong\<close> the simplifier works on the state at hand only, and the
  branches become implications, in program order.\<close>

named_theorems vc_simps \<open>branches as implications\<close>

lemma wp_cong: "s = s' \<Longrightarrow> wp m Q R s = wp m Q R s'"
  by simp

lemma if_vc [vc_simps]: "(if b then P else Q) \<longleftrightarrow> (b \<longrightarrow> P) \<and> (\<not> b \<longrightarrow> Q)"
  by simp

lemma case_option_vc [vc_simps]:
  "(case x of None \<Rightarrow> P | Some a \<Rightarrow> Q a) \<longleftrightarrow> (x = None \<longrightarrow> P) \<and> (\<forall>a. x = Some a \<longrightarrow> Q a)"
  by (cases x) simp_all

lemma case_sum_vc [vc_simps]:
  "(case x of Inl a \<Rightarrow> P a | Inr b \<Rightarrow> Q b) \<longleftrightarrow> (\<forall>a. x = Inl a \<longrightarrow> P a) \<and> (\<forall>b. x = Inr b \<longrightarrow> Q b)"
  by (cases x) simp_all

lemma case_prod_vc [vc_simps]:
  "(case x of (a, b) \<Rightarrow> P a b) \<longleftrightarrow> (\<forall>a b. x = (a, b) \<longrightarrow> P a b)"
  by (cases x) simp

section \<open>Loops that consume input\<close>

text \<open>
  The interface every packet parser of the application offers its dispatch loop: a guard that
  says whether input is left, a measure of what is left, an invariant of the parser state, and a
  step that keeps the invariant and uses up input whenever it succeeds.  What the client proves
  once from this contract is that the loop returns within the fuel the measure gives, never
  panics, and keeps the invariant.
\<close>

locale packet_loop =
  fixes guard :: "'s \<Rightarrow> bool"
    and left :: "'s \<Rightarrow> nat"
    and step :: "('s, 'e, unit) sm"
    and inv :: "'s \<Rightarrow> bool"
    and errs :: "'e \<Rightarrow> 's \<Rightarrow> bool"
  assumes guard_left: "guard s \<longleftrightarrow> 0 < left s"
    and step_wp: "inv s \<Longrightarrow> guard s \<Longrightarrow>
      wp step (\<lambda>_ s'. inv s' \<and> left s' < left s)
        (\<lambda>e s'. case e of Fail x \<Rightarrow> errs x s' | Panic \<Rightarrow> False | Diverge \<Rightarrow> False) s"
begin

lemma loop_wp:
  "inv s \<Longrightarrow> left s \<le> n \<Longrightarrow>
    wp (while_sm n guard step) (\<lambda>_ s'. inv s' \<and> \<not> guard s')
      (\<lambda>e s'. case e of Fail x \<Rightarrow> errs x s' | Panic \<Rightarrow> False | Diverge \<Rightarrow> False) s"
proof (induction n arbitrary: s)
  case 0
  then show ?case by (simp add: wp_def guard_left)
next
  case (Suc n)
  let ?R = "\<lambda>e s'. case e of Fail x \<Rightarrow> errs x s' | Panic \<Rightarrow> False | Diverge \<Rightarrow> False"
  show ?case
  proof (cases "guard s")
    case False
    with Suc.prems show ?thesis by (simp add: wp_def)
  next
    case True
    have "wp step (\<lambda>_ s'. inv s' \<and> left s' < left s) ?R s"
      using Suc.prems(1) True by (rule step_wp)
    then have "wp step (\<lambda>_ s'. wp (while_sm n guard step) (\<lambda>_ s'. inv s' \<and> \<not> guard s') ?R s') ?R s"
      by (rule wp_mono) (use Suc.prems(2) in \<open>auto intro!: Suc.IH\<close>)
    moreover have "wp (while_sm (Suc n) guard step) Q R s = wp (bnd step (\<lambda>_. while_sm n guard step)) Q R s"
      for Q :: "unit \<Rightarrow> 's \<Rightarrow> bool" and R
      using True by (simp add: wp_def)
    ultimately show ?thesis by (simp only: wp_bnd)
  qed
qed

end

end
