(* ===== verification/Status.thy ===== *)
theory Status
  imports Prelude
begin

text \<open>
  The status words of the application (\<open>AppSW\<close> of \<open>src/src/main.rs\<close>), the error types of the
  transaction parsers (\<open>src/src/parser/error.rs\<close>) and of the crypto crate
  (\<open>src/ledger_zcash_crypto/src/lib.rs\<close>), and the protocol constants of
  \<open>src/src/consts.rs\<close> in the configuration the application is released with (no \<open>testnet\<close>,
  \<open>capacity_probe\<close> or \<open>heap_probe\<close> feature).
\<close>

section \<open>Status words\<close>

datatype app_sw =
    PinRemainingAttempts | ExecutionError | WrongApduLength | CommandIncompatibleFileStructure
  | SecurityStatusNotSatisfied | IncorrectData | NotEnoughMemorySpace | ReferencedDataNotFound
  | FileAlreadyExists | SwapWithoutTrustedInputs | WrongP1P2 | InsNotSupported | ClaNotSupported
  | MemoryProblem | NoEfSelected | InvalidOffset | FileNotFound | InconsistentFile
  | AlgorithmNotSupported | InvalidKcv | CodeNotInitialized | AccessConditionNotFulfilled
  | ContradictionSecretCodeStatus | ContradictionInvalidation | CodeBlocked | MaxValueReached
  | GpAuthFailed | Licensing | Halted | Deny | ConditionsOfUseNotSatisfied | TechnicalProblem
  | VersionParsingFail | TxParsingFail | RngFailure | BadState | Ok

section \<open>Errors of the crypto crate\<close>

datatype crypto_error =
    Cx | Hash_Error | MalformedPallasBase | MalformedPallasPoint | MalformedPallasScalar
  | InvalidKeyDiscarded | InvalidDiversifyHashPoint | UnsupportedSinsemillaDomain | OutOfMemory
  | Base58EncodeFailed

fun map_ledger_crypto_error :: "crypto_error \<Rightarrow> app_sw" where
  "map_ledger_crypto_error InvalidKeyDiscarded = Deny"
| "map_ledger_crypto_error OutOfMemory = NotEnoughMemorySpace"
| "map_ledger_crypto_error _ = TechnicalProblem"

section \<open>Errors of the parsers\<close>

text \<open>\<open>ParserSourceError\<close>.  The payloads of the library errors, which the sources only print, are
  dropped, as are the file and line of \<open>ParserError\<close> and the log message of a swap error.\<close>

datatype swap_error_common_code =
  ErrorGeneric | ErrorWrongAmount | ErrorWrongDestination | ErrorWrongFees

datatype swap_app_error_code =
    SwapDefault | AmountCastFail | DestinationDecodeFail | FailedToSerializeAddress
  | FailedToDeriveAddress | UnexpectedExternalOutputCount | BufferOverflow
  | UnsupportedDestinationExtraId

datatype parser_error =
    Io | Hash_Err | Hmac | Balance | Custom string | Sw app_sw
  | Swap_Error (common_code: swap_error_common_code) (app_code: swap_app_error_code)
  | UserDenied

section \<open>Protocol constants\<close>

definition MAX_SCRIPT_SIZE :: nat where "MAX_SCRIPT_SIZE = 1024 * 2"
definition MAX_PCZT_SCRIPT_SIZE :: nat where "MAX_PCZT_SCRIPT_SIZE = 252"
definition MAX_OUTPUTS_NUMBER :: nat where "MAX_OUTPUTS_NUMBER = 8"
definition SIGHASH_ALL :: u8 where "SIGHASH_ALL = 0x01"
definition UNHARDENED_MASK :: u32 where "UNHARDENED_MASK = 0x7FFFFFFF"
definition ZIP32_PATH_LEN :: nat where "ZIP32_PATH_LEN = 3"
definition ZIP32_PURPOSE :: u32 where "ZIP32_PURPOSE = 32"
definition ZCASH_BIP44_COIN_TYPE :: u32 where "ZCASH_BIP44_COIN_TYPE = 133"
definition MAX_PCZT_TRANSPARENT_INPUTS_NUMBER :: nat where
  "MAX_PCZT_TRANSPARENT_INPUTS_NUMBER = 32"
definition MAX_PCZT_TRANSPARENT_OUTPUTS_NUMBER :: nat where
  "MAX_PCZT_TRANSPARENT_OUTPUTS_NUMBER = 10"
definition MAX_PCZT_ORCHARD_ACTIONS_NUMBER :: nat where
  "MAX_PCZT_ORCHARD_ACTIONS_NUMBER = 32"
definition MAX_PCZT_IRONWOOD_ACTIONS_NUMBER :: nat where
  "MAX_PCZT_IRONWOOD_ACTIONS_NUMBER = 32"
definition MAX_PCZT_SHIELDED_DISPLAYED_OUTPUTS_NUMBER :: nat where
  "MAX_PCZT_SHIELDED_DISPLAYED_OUTPUTS_NUMBER = 4"

definition P2_PCZT_CONTINUE :: u8 where "P2_PCZT_CONTINUE = 0x00"
definition P2_PCZT_FINISHED :: u8 where "P2_PCZT_FINISHED = 0x01"

definition OVERWINTERED_FLAG :: u32 where "OVERWINTERED_FLAG = 0x80000000"
definition V6_TX_VERSION :: u32 where "V6_TX_VERSION = 6"
definition V6_VERSION_GROUP_ID :: u32 where "V6_VERSION_GROUP_ID = 0xD884B698"

end
