(* ===== verification/Montgomery.thy ===== *)
theory Montgomery
  imports Status
begin

text \<open>
  The software Montgomery conversion of \<open>src/ledger_zcash_crypto/src/montgomery.rs\<close>: 256-bit
  schoolbook multiplication on four 64-bit limbs, the four-row Montgomery reduction and the final
  conditional subtraction, on machine words.  The lemmas relate the limbs to the numbers they
  represent: the product is exact, the reduction returns the canonical representative, and the
  conversion returns \<open>x * 2^256 mod p\<close> in both Pallas fields.
\<close>

unbundle bit_operations_syntax

type_synonym u128 = "128 word"

section \<open>Double-word primitives\<close>

definition lo64 :: "u128 \<Rightarrow> u64" where "lo64 r = ucast r"
definition hi64 :: "u128 \<Rightarrow> u64" where "hi64 r = ucast (drop_bit 64 r)"

definition adc_u64 :: "u64 \<Rightarrow> u64 \<Rightarrow> u64 \<Rightarrow> u64 \<times> u64" where
  "adc_u64 a b carry =
     (let r = ucast a + ucast b + ucast carry :: u128 in (lo64 r, hi64 r))"

definition sbb_u64 :: "u64 \<Rightarrow> u64 \<Rightarrow> u64 \<Rightarrow> u64 \<times> u64" where
  "sbb_u64 a b borrow =
     (let r = ucast a - (ucast b + ucast (drop_bit 63 borrow)) :: u128 in (lo64 r, hi64 r))"

definition mac_u64 :: "u64 \<Rightarrow> u64 \<Rightarrow> u64 \<Rightarrow> u64 \<Rightarrow> u64 \<times> u64" where
  "mac_u64 a b c carry =
     (let r = ucast a + ucast b * ucast c + ucast carry :: u128 in (lo64 r, hi64 r))"

section \<open>Multiplication\<close>

text \<open>The inner loop over the limbs of \<open>b\<close>, writing the row at position \<open>k\<close>.\<close>

fun mul_row :: "u64 \<Rightarrow> u64 list \<Rightarrow> nat \<Rightarrow> u64 list \<Rightarrow> u64 \<Rightarrow> u64 list \<times> u64" where
  "mul_row a [] k out carry = (out, carry)"
| "mul_row a (b # bs) k out carry =
     (let tmp = ucast a * ucast b + ucast (out ! k) + ucast carry :: u128
      in mul_row a bs (Suc k) (out[k := lo64 tmp]) (hi64 tmp))"

text \<open>The carry loop; \<open>None\<close> is the out-of-range index the Rust array access would panic on.\<close>

function mul_carry :: "nat \<Rightarrow> u64 list \<Rightarrow> u64 \<Rightarrow> u64 list option" where
  "mul_carry k out carry =
     (if carry = 0 then Some out
      else if k < length out then
        (let tmp = ucast (out ! k) + ucast carry :: u128
         in mul_carry (Suc k) (out[k := lo64 tmp]) (hi64 tmp))
      else None)"
  by pat_completeness auto
termination
  by (relation "measure (\<lambda>(k, out, _). length out - k)") auto

fun mul_rows :: "nat \<Rightarrow> u64 list \<Rightarrow> u64 list \<Rightarrow> u64 list \<Rightarrow> u64 list option" where
  "mul_rows i [] bs out = Some out"
| "mul_rows i (a # as) bs out =
     (case mul_row a bs i out 0 of (out', carry) \<Rightarrow>
        (case mul_carry (i + length bs) out' carry of
           None \<Rightarrow> None
         | Some out'' \<Rightarrow> mul_rows (Suc i) as bs out''))"

definition mul_u64x4 :: "u64 list \<Rightarrow> u64 list \<Rightarrow> u64 list option" where
  "mul_u64x4 a b = mul_rows 0 a b (replicate 8 0)"

section \<open>Reduction\<close>

text \<open>One row of the reduction on the limbs \<open>r0..r4\<close> with the carry of the row before: the new
  limbs \<open>r1..r4\<close> and the carry into the next limb.\<close>

definition montgomery_row :: "u64 \<Rightarrow> u64 \<Rightarrow> u64 \<Rightarrow> u64 \<Rightarrow> u64 \<Rightarrow> u64 \<Rightarrow> u64 list \<Rightarrow> u64
    \<Rightarrow> u64 \<times> u64 \<times> u64 \<times> u64 \<times> u64" where
  "montgomery_row r0 r1 r2 r3 r4 carry2 modulus minv =
     (let k = r0 * minv;
          (_, carry) = mac_u64 r0 k (modulus ! 0) 0;
          (r1, carry) = mac_u64 r1 k (modulus ! 1) carry;
          (r2, carry) = mac_u64 r2 k (modulus ! 2) carry;
          (r3, carry) = mac_u64 r3 k (modulus ! 3) carry;
          (r4, carry2) = adc_u64 r4 carry2 carry
      in (r1, r2, r3, r4, carry2))"

definition subtract_modulus_if_needed :: "u64 list \<Rightarrow> u64 list \<Rightarrow> u64 list" where
  "subtract_modulus_if_needed limbs modulus =
     (let (d0, borrow) = sbb_u64 (limbs ! 0) (modulus ! 0) 0;
          (d1, borrow) = sbb_u64 (limbs ! 1) (modulus ! 1) borrow;
          (d2, borrow) = sbb_u64 (limbs ! 2) (modulus ! 2) borrow;
          (d3, borrow) = sbb_u64 (limbs ! 3) (modulus ! 3) borrow;
          (d0, carry) = adc_u64 d0 (modulus ! 0 AND borrow) 0;
          (d1, carry) = adc_u64 d1 (modulus ! 1 AND borrow) carry;
          (d2, carry) = adc_u64 d2 (modulus ! 2 AND borrow) carry;
          (d3, _) = adc_u64 d3 (modulus ! 3 AND borrow) carry
      in [d0, d1, d2, d3])"

definition montgomery_reduce_u64x8 :: "u64 list \<Rightarrow> u64 list \<Rightarrow> u64 \<Rightarrow> u64 list" where
  "montgomery_reduce_u64x8 limbs modulus minv =
     (let (r1, r2, r3, r4, carry2) =
            montgomery_row (limbs ! 0) (limbs ! 1) (limbs ! 2) (limbs ! 3) (limbs ! 4) 0 modulus minv;
          (r2, r3, r4, r5, carry2) = montgomery_row r1 r2 r3 r4 (limbs ! 5) carry2 modulus minv;
          (r3, r4, r5, r6, carry2) = montgomery_row r2 r3 r4 r5 (limbs ! 6) carry2 modulus minv;
          (r4, r5, r6, r7, _) = montgomery_row r3 r4 r5 r6 (limbs ! 7) carry2 modulus minv
      in subtract_modulus_if_needed [r4, r5, r6, r7] modulus)"

section \<open>The two Pallas fields\<close>

datatype curve_domain_param = Field | Order

definition PALLAS_BASE_MODULUS_U64X4 :: "u64 list" where
  "PALLAS_BASE_MODULUS_U64X4 =
     [0x992d30ed00000001, 0x224698fc094cf91b, 0x0000000000000000, 0x4000000000000000]"
definition PALLAS_BASE_R2_U64X4 :: "u64 list" where
  "PALLAS_BASE_R2_U64X4 =
     [0x8c78ecb30000000f, 0xd7d30dbd8b0de0e7, 0x7797a99bc3c95d18, 0x096d41af7b9cb714]"
definition PALLAS_BASE_INV :: u64 where "PALLAS_BASE_INV = 0x992d30ecffffffff"
definition PALLAS_SCALAR_MODULUS_U64X4 :: "u64 list" where
  "PALLAS_SCALAR_MODULUS_U64X4 =
     [0x8c46eb2100000001, 0x224698fc0994a8dd, 0x0000000000000000, 0x4000000000000000]"
definition PALLAS_SCALAR_R2_U64X4 :: "u64 list" where
  "PALLAS_SCALAR_R2_U64X4 =
     [0xfc9678ff0000000f, 0x67bb433d891a16e3, 0x7fae231004ccf590, 0x096d41af7ccfdaa9]"
definition PALLAS_SCALAR_INV :: u64 where "PALLAS_SCALAR_INV = 0x8c46eb20ffffffff"

fun pallas_montgomery_params :: "curve_domain_param \<Rightarrow> u64 list \<times> u64 list \<times> u64" where
  "pallas_montgomery_params Field =
     (PALLAS_BASE_MODULUS_U64X4, PALLAS_BASE_R2_U64X4, PALLAS_BASE_INV)"
| "pallas_montgomery_params Order =
     (PALLAS_SCALAR_MODULUS_U64X4, PALLAS_SCALAR_R2_U64X4, PALLAS_SCALAR_INV)"

definition repr_to_u64x4 :: "bytes \<Rightarrow> u64 list" where
  "repr_to_u64x4 repr =
     [u64_from_le_bytes (take 8 repr), u64_from_le_bytes (take 8 (drop 8 repr)),
      u64_from_le_bytes (take 8 (drop 16 repr)), u64_from_le_bytes (take 8 (drop 24 repr))]"

text \<open>\<open>canonical\<close> stands for \<open>canonical_pallas_element_bytes_be\<close>, the comparison with the field
  modulus that runs on the device's big-number coprocessor, and may fail there.\<close>

type_synonym canonical_check =
  "bytes \<Rightarrow> curve_domain_param \<Rightarrow> crypto_error \<Rightarrow> (crypto_error, bytes) res"

definition repr_to_montgomery_u64x4 ::
  "canonical_check \<Rightarrow> bytes \<Rightarrow> curve_domain_param \<Rightarrow> crypto_error \<Rightarrow> (crypto_error, u64 list) res" where
  "repr_to_montgomery_u64x4 canonical repr modulus_param malformed_error =
     rbind (canonical repr modulus_param malformed_error) (\<lambda>_.
       case pallas_montgomery_params modulus_param of (modulus, r2, minv) \<Rightarrow>
         (case mul_u64x4 (repr_to_u64x4 repr) r2 of
            None \<Rightarrow> Inl Panic
          | Some wide \<Rightarrow> Inr (montgomery_reduce_u64x8 wide modulus minv)))"

section \<open>Values of limbs\<close>

fun limbs_val :: "u64 list \<Rightarrow> nat" where
  "limbs_val [] = 0"
| "limbs_val (x # xs) = unat x + 2 ^ 64 * limbs_val xs"

lemma unat_u64_lt: "unat (x :: u64) < 2 ^ 64"
  using unsigned_less [of x] by simp

lemma split_u128: "unat (lo64 r) + 2 ^ 64 * unat (hi64 r) = unat r"
proof -
  have r: "unat r < 2 ^ 128" using unsigned_less [of r] by simp
  have "unat (lo64 r) = unat r mod 2 ^ 64"
    by (simp add: lo64_def unsigned_ucast_eq take_bit_eq_mod)
  moreover have "unat (hi64 r) = unat r div 2 ^ 64 mod 2 ^ 64"
    by (simp add: hi64_def unsigned_ucast_eq take_bit_eq_mod unat_drop_bit_eq
        drop_bit_eq_div [where ?'a = nat])
  moreover have "unat r div 2 ^ 64 < 2 ^ 64" using r by (simp add: less_mult_imp_div_less)
  ultimately show ?thesis by simp
qed

lemma unat_ucast_u128: "unat (ucast (x :: u64) :: u128) = unat x"
  by (simp add: unsigned_ucast_eq take_bit_nat_eq_self_iff order_less_trans [OF unat_u64_lt])

lemma mac_bound:
  assumes "a < 2 ^ 64" "b < 2 ^ 64" "c < 2 ^ 64" "d < (2 :: nat) ^ 64"
  shows "a + b * c + d < 2 ^ 128"
proof -
  have "b * c \<le> (2 ^ 64 - 1) * (2 ^ 64 - 1)" using assms(2,3) by (intro mult_le_mono) auto
  then show ?thesis using assms(1,4) by simp
qed

lemma mac_u64_val:
  "mac_u64 a b c carry = (l, h) \<Longrightarrow> unat l + 2 ^ 64 * unat h = unat a + unat b * unat c + unat carry"
proof -
  assume m: "mac_u64 a b c carry = (l, h)"
  let ?r = "ucast a + ucast b * ucast c + ucast carry :: u128"
  have "unat a + unat b * unat c + unat carry < 2 ^ 128"
    by (intro mac_bound unat_u64_lt)
  then have "unat ?r = unat a + unat b * unat c + unat carry"
    by (simp add: unat_word_ariths unat_ucast_u128 mod_simps)
  moreover from m have "l = lo64 ?r" "h = hi64 ?r" by (simp_all add: mac_u64_def Let_def)
  ultimately show ?thesis using split_u128 [of ?r] by simp
qed

lemma adc_u64_val:
  "adc_u64 a b carry = (l, h) \<Longrightarrow> unat l + 2 ^ 64 * unat h = unat a + unat b + unat carry"
proof -
  assume m: "adc_u64 a b carry = (l, h)"
  then have "mac_u64 a b 1 carry = (l, h)" by (simp add: adc_u64_def mac_u64_def Let_def)
  from mac_u64_val [OF this] show ?thesis by simp
qed

section \<open>The product is exact\<close>

lemma limbs_val_update:
  "k < length xs \<Longrightarrow>
     limbs_val (xs[k := y]) + 2 ^ (64 * k) * unat (xs ! k) = limbs_val xs + 2 ^ (64 * k) * unat y"
proof (induction xs arbitrary: k)
  case Nil
  then show ?case by simp
next
  case (Cons x xs)
  show ?case
  proof (cases k)
    case 0
    then show ?thesis by simp
  next
    case (Suc j)
    with Cons.prems have "j < length xs" by simp
    from Cons.IH [OF this]
    have "2 ^ 64 * (limbs_val (xs[j := y]) + 2 ^ (64 * j) * unat (xs ! j)) =
      2 ^ 64 * (limbs_val xs + 2 ^ (64 * j) * unat y)" by simp
    then show ?thesis
      by (simp add: Suc distrib_left power_add algebra_simps)
  qed
qed

lemma limbs_val_bound: "limbs_val xs < 2 ^ (64 * length xs)"
proof (induction xs)
  case (Cons x xs)
  have "limbs_val xs + 1 \<le> 2 ^ (64 * length xs)" using Cons by simp
  then have "2 ^ 64 * (limbs_val xs + 1) \<le> 2 ^ 64 * 2 ^ (64 * length xs)" by (rule mult_le_mono2)
  then show ?case using unat_u64_lt [of x] by (simp add: power_add algebra_simps)
qed simp

lemma limb_step:
  fixes l h a t :: nat
  assumes "k < length out" and "unat l' + 2 ^ 64 * h = t + unat (out ! k)"
  shows "limbs_val (out[k := l']) + 2 ^ (64 * Suc k) * h = limbs_val out + 2 ^ (64 * k) * t"
proof -
  have "2 ^ (64 * k) * (unat l' + 2 ^ 64 * h) = 2 ^ (64 * k) * (t + unat (out ! k))"
    using assms(2) by simp
  with limbs_val_update [OF assms(1), of l'] show ?thesis
    by (simp add: algebra_simps power_add)
qed

lemma row_arith:
  fixes X L v P P' W a b B h c :: nat
  assumes "X = L + P' * (a * B + h)" "L + P' * h = v + P * (a * b + c)" "P' = P * W"
  shows "X = v + P * (a * (b + W * B) + c)"
proof -
  have "X = (L + P' * h) + P' * (a * B)" using assms(1) by (simp add: distrib_left)
  also have "\<dots> = v + P * (a * b + c) + P' * (a * B)" by (simp only: assms(2))
  also have "\<dots> = v + P * (a * b + c) + P * W * (a * B)" by (simp only: assms(3))
  finally show ?thesis by (simp add: algebra_simps)
qed

lemma bound_arith:
  fixes v I N W x :: nat
  assumes "v < I * N" "x + N \<le> W * N"
  shows "v + I * x < I * (W * N)"
proof -
  have "I * x + I * N \<le> I * (W * N)"
    using mult_le_mono2 [OF assms(2), of I] by (simp add: distrib_left)
  with assms(1) show ?thesis by linarith
qed

lemma mul_row_val:
  "mul_row a bs k out carry = (out', carry') \<Longrightarrow> k + length bs \<le> length out \<Longrightarrow>
     length out' = length out
     \<and> limbs_val out' + 2 ^ (64 * (k + length bs)) * unat carry'
       = limbs_val out + 2 ^ (64 * k) * (unat a * limbs_val bs + unat carry)"
proof (induction bs arbitrary: k out carry)
  case Nil
  then show ?case by simp
next
  case (Cons b bs)
  let ?t = "ucast a * ucast b + ucast (out ! k) + ucast carry :: u128"
  have k: "k < length out" using Cons.prems(2) by simp
  have "mac_u64 (out ! k) a b carry = (lo64 ?t, hi64 ?t)"
    by (simp add: mac_u64_def Let_def add.commute)
  from mac_u64_val [OF this]
  have "unat (lo64 ?t) + 2 ^ 64 * unat (hi64 ?t) = (unat a * unat b + unat carry) + unat (out ! k)"
    by simp
  from limb_step [OF k this]
  have s: "limbs_val (out[k := lo64 ?t]) + 2 ^ (64 * Suc k) * unat (hi64 ?t)
    = limbs_val out + 2 ^ (64 * k) * (unat a * unat b + unat carry)" .
  from Cons.prems have "mul_row a bs (Suc k) (out[k := lo64 ?t]) (hi64 ?t) = (out', carry')"
    and "Suc k + length bs \<le> length (out[k := lo64 ?t])"
    by (simp_all add: Let_def)
  from Cons.IH [OF this]
  have ih: "length out' = length out"
    "limbs_val out' + 2 ^ (64 * (Suc k + length bs)) * unat carry'
     = limbs_val (out[k := lo64 ?t]) + 2 ^ (64 * Suc k) * (unat a * limbs_val bs + unat (hi64 ?t))"
    by simp_all
  have P: "(2 :: nat) ^ (64 * Suc k) = 2 ^ (64 * k) * 2 ^ 64" by (simp add: power_add)
  from row_arith [OF ih(2) s P] ih(1) show ?case by simp
qed

lemma mul_carry_val:
  "limbs_val out + 2 ^ (64 * k) * unat carry < 2 ^ (64 * length out) \<Longrightarrow>
     \<exists>out'. mul_carry k out carry = Some out' \<and> length out' = length out
       \<and> limbs_val out' = limbs_val out + 2 ^ (64 * k) * unat carry"
proof (induction k out carry rule: mul_carry.induct)
  case (1 k out carry)
  show ?case
  proof (cases "carry = 0")
    case True
    then show ?thesis by simp
  next
    case False
    then have c: "1 \<le> unat carry" by (simp add: unat_gt_0 Suc_le_eq)
    have k: "k < length out"
    proof (rule ccontr)
      assume "\<not> k < length out"
      then have "(2 :: nat) ^ (64 * length out) \<le> 2 ^ (64 * k)" by (intro power_increasing) auto
      also have "\<dots> \<le> 2 ^ (64 * k) * unat carry" using c by simp
      finally show False using 1(2) by simp
    qed
    let ?t = "ucast (out ! k) + ucast carry :: u128"
    have "adc_u64 (out ! k) carry 0 = (lo64 ?t, hi64 ?t)" by (simp add: adc_u64_def Let_def)
    from adc_u64_val [OF this]
    have "unat (lo64 ?t) + 2 ^ 64 * unat (hi64 ?t) = unat carry + unat (out ! k)" by simp
    from limb_step [OF k this]
    have s: "limbs_val (out[k := lo64 ?t]) + 2 ^ (64 * Suc k) * unat (hi64 ?t)
      = limbs_val out + 2 ^ (64 * k) * unat carry" .
    with 1(2) have "limbs_val (out[k := lo64 ?t]) + 2 ^ (64 * Suc k) * unat (hi64 ?t)
      < 2 ^ (64 * length (out[k := lo64 ?t]))" by simp
    from 1(1) [OF False k refl this] obtain out' where
      "mul_carry (Suc k) (out[k := lo64 ?t]) (hi64 ?t) = Some out'"
      "length out' = length out"
      "limbs_val out' = limbs_val out + 2 ^ (64 * k) * unat carry"
      using s by auto
    with False k show ?thesis by (simp add: Let_def)
  qed
qed

declare mul_carry.simps [simp del]

lemma mul_rows_val:
  "i + length as + length bs \<le> length out \<Longrightarrow>
   limbs_val out < 2 ^ (64 * (i + length bs)) \<Longrightarrow>
     \<exists>out'. mul_rows i as bs out = Some out' \<and> length out' = length out
       \<and> limbs_val out' = limbs_val out + 2 ^ (64 * i) * (limbs_val as * limbs_val bs)"
proof (induction as arbitrary: i out)
  case Nil
  then show ?case by simp
next
  case (Cons a as)
  obtain o1 c1 where row: "mul_row a bs i out 0 = (o1, c1)" by (cases "mul_row a bs i out 0")
  from mul_row_val [OF row] Cons.prems(1)
  have len1: "length o1 = length out"
    and v1: "limbs_val o1 + 2 ^ (64 * (i + length bs)) * unat c1
      = limbs_val out + 2 ^ (64 * i) * (unat a * limbs_val bs)" by simp_all
  let ?v = "limbs_val out + 2 ^ (64 * i) * (unat a * limbs_val bs)"
  have "unat a * limbs_val bs + 2 ^ (64 * length bs) \<le> 2 ^ 64 * 2 ^ (64 * length bs)"
  proof -
    have "unat a * limbs_val bs \<le> (2 ^ 64 - 1) * 2 ^ (64 * length bs)"
      using unat_u64_lt [of a] limbs_val_bound [of bs] by (intro mult_le_mono) auto
    then show ?thesis by (simp add: diff_mult_distrib)
  qed
  moreover from Cons.prems(2) have "limbs_val out < 2 ^ (64 * i) * 2 ^ (64 * length bs)"
    by (simp add: power_add distrib_left)
  ultimately have "?v < 2 ^ (64 * i) * (2 ^ 64 * 2 ^ (64 * length bs))" by (intro bound_arith)
  then have b: "?v < 2 ^ (64 * (Suc i + length bs))" by (simp add: power_add distrib_left)
  also have "(2 :: nat) ^ (64 * (Suc i + length bs)) \<le> 2 ^ (64 * length o1)"
    using Cons.prems(1) len1 by (intro power_increasing) auto
  finally have "limbs_val o1 + 2 ^ (64 * (i + length bs)) * unat c1 < 2 ^ (64 * length o1)"
    using v1 by simp
  from mul_carry_val [OF this] obtain o2 where
    c: "mul_carry (i + length bs) o1 c1 = Some o2" "length o2 = length out" "limbs_val o2 = ?v"
    using len1 v1 by auto
  have "Suc i + length as + length bs \<le> length o2" using Cons.prems(1) c(2) by simp
  from Cons.IH [OF this] b c(3) obtain o3 where
    "mul_rows (Suc i) as bs o2 = Some o3" "length o3 = length out"
    "limbs_val o3 = ?v + 2 ^ (64 * Suc i) * (limbs_val as * limbs_val bs)"
    using c(2) by auto
  then show ?case by (simp add: row c(1) power_add algebra_simps)
qed

lemma limbs_val_replicate_0: "limbs_val (replicate n 0) = 0"
  by (induction n) auto

lemma mul_u64x4_val:
  assumes "length a = 4" "length b = 4"
  shows "\<exists>out. mul_u64x4 a b = Some out \<and> length out = 8
    \<and> limbs_val out = limbs_val a * limbs_val b"
  using mul_rows_val [of 0 a b "replicate 8 0"] assms
  by (simp add: mul_u64x4_def limbs_val_replicate_0)

section \<open>The reduction is exact\<close>

text \<open>\<open>minv\<close> is minus the inverse of the low limb modulo \<open>2^64\<close>.\<close>

definition neg_inverse :: "u64 \<Rightarrow> u64 \<Rightarrow> bool" where
  "neg_inverse m0 minv \<longleftrightarrow> m0 * minv = - 1"

lemma cancels_low_limb:
  assumes "neg_inverse m0 minv" and "mac_u64 r0 (r0 * minv) m0 0 = (l, h)"
  shows "l = 0"
proof -
  have "(word_of_nat (unat l + 2 ^ 64 * unat h) :: u64)
      = word_of_nat (unat r0 + unat (r0 * minv) * unat m0 + unat (0 :: u64))"
    using mac_u64_val [OF assms(2)] by simp
  moreover have "(18446744073709551616 :: u64) = 0"
  proof -
    have "(2 :: u64) ^ 64 = 0" by (subst exp_eq_zero_iff) simp
    then show ?thesis by simp
  qed
  ultimately have "l = r0 + r0 * minv * m0" by simp
  also have "r0 * minv * m0 = r0 * (m0 * minv)" by (simp add: mult_ac)
  also have "\<dots> = - r0" using assms(1) by (simp add: neg_inverse_def)
  finally show ?thesis by simp
qed

lemma montgomery_row_val:
  assumes "neg_inverse m0 minv"
    and "montgomery_row r0 r1 r2 r3 r4 c2 [m0, m1, m2, m3] minv = (s1, s2, s3, s4, c')"
  shows "limbs_val [r0, r1, r2, r3, r4] + 2 ^ 256 * unat c2
      + unat (r0 * minv) * limbs_val [m0, m1, m2, m3]
    = 2 ^ 64 * (limbs_val [s1, s2, s3, s4] + 2 ^ 256 * unat c')"
proof -
  let ?k = "r0 * minv"
  obtain l0 h0 where a0: "mac_u64 r0 ?k m0 0 = (l0, h0)" by (cases "mac_u64 r0 ?k m0 0")
  obtain l1 h1 where a1: "mac_u64 r1 ?k m1 h0 = (l1, h1)" by (cases "mac_u64 r1 ?k m1 h0")
  obtain l2 h2 where a2: "mac_u64 r2 ?k m2 h1 = (l2, h2)" by (cases "mac_u64 r2 ?k m2 h1")
  obtain l3 h3 where a3: "mac_u64 r3 ?k m3 h2 = (l3, h3)" by (cases "mac_u64 r3 ?k m3 h2")
  obtain l4 h4 where a4: "adc_u64 r4 c2 h3 = (l4, h4)" by (cases "adc_u64 r4 c2 h3")
  from assms(2) have e: "s1 = l1" "s2 = l2" "s3 = l3" "s4 = l4" "c' = h4"
    by (simp_all add: montgomery_row_def Let_def a0 a1 a2 a3 a4 numeral_eq_Suc)
  have z: "l0 = 0" using assms(1) a0 by (rule cancels_low_limb)
  note v = mac_u64_val [OF a0] mac_u64_val [OF a1] mac_u64_val [OF a2] mac_u64_val [OF a3]
    adc_u64_val [OF a4]
  show ?thesis using v by (simp add: e z distrib_left)
qed

lemma high_limb_zero:
  fixes d x B :: nat
  assumes "d + B * x < B"
  shows "x = 0"
proof (rule ccontr)
  assume "x \<noteq> 0"
  then have "B \<le> B * x" by simp
  with assms show False by linarith
qed

lemma high_limb_full:
  fixes d x t a B :: nat
  assumes "d + B * x + t = B * B + a" "d < B" "x < B" "t \<le> B"
  shows "x = B - 1"
proof (rule ccontr)
  assume "x \<noteq> B - 1"
  with assms(3) have "x + 2 \<le> B" by linarith
  then have "B * (x + 2) \<le> B * B" by (rule mult_le_mono2)
  then have "B * x + 2 * B \<le> B * B" by (simp add: distrib_left mult.commute)
  with assms show False by linarith
qed

lemma carry_cancel:
  fixes x y c B :: nat
  assumes "x + B * c = y + B" "x < B" "y < B"
  shows "x = y"
proof (cases c)
  case 0
  with assms show ?thesis by simp
next
  case (Suc n)
  then have e: "x + B * n = y" using assms(1) by simp
  with assms(3) have "n = 0" by (intro high_limb_zero [of x B]) simp
  with e show ?thesis by simp
qed

lemma sbb_u64_val:
  assumes "borrow = 0 \<or> borrow = - 1" and "sbb_u64 a b borrow = (d, b')"
  shows "(b' = 0 \<or> b' = - 1)
    \<and> unat d + unat b + of_bool (borrow \<noteq> 0) = unat a + 2 ^ 64 * of_bool (b' \<noteq> 0)"
proof -
  define bb :: nat where "bb = of_bool (borrow \<noteq> 0)"
  have bw: "unat (drop_bit 63 borrow) = bb"
    using assms(1) by (auto simp: bb_def)
  let ?s = "ucast b + ucast (drop_bit 63 borrow) :: u128"
  let ?r = "ucast a - ?s :: u128"
  have dr: "d = lo64 ?r" "b' = hi64 ?r" using assms(2) by (simp_all add: sbb_u64_def Let_def)
  have a: "unat a < 2 ^ 64" and b: "unat b < 2 ^ 64" by (rule unat_u64_lt)+
  have b1: "bb \<le> 1" by (simp add: bb_def)
  have s: "unat ?s = unat b + bb"
    using b b1 by (simp add: unat_word_ariths unat_ucast_u128 bw)
  have sp: "unat d + 2 ^ 64 * unat b' = unat ?r" using split_u128 [of ?r] dr by simp
  have r: "unat ?r = (if unat b + bb \<le> unat a then unat a - (unat b + bb)
                      else unat a + 2 ^ 128 - (unat b + bb))"
    using s by (simp add: unat_sub_if_size unat_ucast_u128 word_le_nat_alt size_word_def)
  have dl: "unat d < 2 ^ 64" and bl: "unat b' < 2 ^ 64" by (rule unat_u64_lt)+
  show ?thesis
  proof (cases "unat b + bb \<le> unat a")
    case True
    have "unat b' = 0"
      by (rule high_limb_zero [of "unat d" "2 ^ 64"]) (use True sp r a in simp)
    then have "b' = 0" by (simp only: unat_0_iff)
    with sp r True show ?thesis by (simp add: bb_def)
  next
    case False
    with sp r have e: "unat d + 2 ^ 64 * unat b' + (unat b + bb) = 2 ^ 64 * 2 ^ 64 + unat a"
      using a b b1 by simp
    have "unat b + bb \<le> 2 ^ 64" using b b1 by linarith
    with e dl bl have "unat b' = 2 ^ 64 - 1" by (rule high_limb_full)
    moreover have m1: "unat (- 1 :: u64) = 2 ^ 64 - 1"
      by (simp add: unsigned_minus_1_eq_mask mask_eq_exp_minus_1)
    ultimately have "b' = - 1" by (simp only: word_unat_eq_iff)
    with e m1 show ?thesis by (simp add: bb_def)
  qed
qed

lemma word_and_minus_one: "(x :: u64) AND - 1 = x" "(x :: u64) AND 0 = 0"
  by simp_all

lemma subtract_val:
  assumes "limbs_val [l0, l1, l2, l3] < 2 * limbs_val [m0, m1, m2, m3]"
  shows "limbs_val (subtract_modulus_if_needed [l0, l1, l2, l3] [m0, m1, m2, m3]) =
     (if limbs_val [m0, m1, m2, m3] \<le> limbs_val [l0, l1, l2, l3]
      then limbs_val [l0, l1, l2, l3] - limbs_val [m0, m1, m2, m3]
      else limbs_val [l0, l1, l2, l3])"
    and "length (subtract_modulus_if_needed [l0, l1, l2, l3] [m0, m1, m2, m3]) = 4"
proof -
  let ?L = "limbs_val [l0, l1, l2, l3]" and ?M = "limbs_val [m0, m1, m2, m3]"
  obtain d0 b0 where s0: "sbb_u64 l0 m0 0 = (d0, b0)" by (cases "sbb_u64 l0 m0 0")
  obtain d1 b1 where s1: "sbb_u64 l1 m1 b0 = (d1, b1)" by (cases "sbb_u64 l1 m1 b0")
  obtain d2 b2 where s2: "sbb_u64 l2 m2 b1 = (d2, b2)" by (cases "sbb_u64 l2 m2 b1")
  obtain d3 b3 where s3: "sbb_u64 l3 m3 b2 = (d3, b3)" by (cases "sbb_u64 l3 m3 b2")
  obtain e0 c0 where a0: "adc_u64 d0 (m0 AND b3) 0 = (e0, c0)" by (cases "adc_u64 d0 (m0 AND b3) 0")
  obtain e1 c1 where a1: "adc_u64 d1 (m1 AND b3) c0 = (e1, c1)" by (cases "adc_u64 d1 (m1 AND b3) c0")
  obtain e2 c2 where a2: "adc_u64 d2 (m2 AND b3) c1 = (e2, c2)" by (cases "adc_u64 d2 (m2 AND b3) c1")
  obtain e3 c3 where a3: "adc_u64 d3 (m3 AND b3) c2 = (e3, c3)" by (cases "adc_u64 d3 (m3 AND b3) c2")
  have res: "subtract_modulus_if_needed [l0, l1, l2, l3] [m0, m1, m2, m3] = [e0, e1, e2, e3]"
    by (simp add: subtract_modulus_if_needed_def Let_def s0 s1 s2 s3 a0 a1 a2 a3 numeral_eq_Suc)
  note v0 = sbb_u64_val [OF _ s0] note v1 = sbb_u64_val [OF _ s1]
  note v2 = sbb_u64_val [OF _ s2] note v3 = sbb_u64_val [OF _ s3]
  have bs: "b0 = 0 \<or> b0 = - 1" "b1 = 0 \<or> b1 = - 1" "b2 = 0 \<or> b2 = - 1" "b3 = 0 \<or> b3 = - 1"
    using v0 v1 v2 v3 by auto
  have D: "limbs_val [d0, d1, d2, d3] + ?M = ?L + 2 ^ 256 * of_bool (b3 \<noteq> 0)"
    using v0 v1 [OF bs(1)] v2 [OF bs(2)] v3 [OF bs(3)] by simp
  have dl: "limbs_val [d0, d1, d2, d3] < 2 ^ 256" and el: "limbs_val [e0, e1, e2, e3] < 2 ^ 256"
    using limbs_val_bound [of "[d0, d1, d2, d3]"] limbs_val_bound [of "[e0, e1, e2, e3]"] by simp_all
  have A: "limbs_val [e0, e1, e2, e3] + 2 ^ 256 * unat c3
      = limbs_val [d0, d1, d2, d3] + limbs_val [m0 AND b3, m1 AND b3, m2 AND b3, m3 AND b3]"
    using adc_u64_val [OF a0] adc_u64_val [OF a1] adc_u64_val [OF a2] adc_u64_val [OF a3] by simp
  show "limbs_val (subtract_modulus_if_needed [l0, l1, l2, l3] [m0, m1, m2, m3]) =
     (if ?M \<le> ?L then ?L - ?M else ?L)"
  proof (cases "b3 = 0")
    case True
    with D have "limbs_val [d0, d1, d2, d3] + ?M = ?L" by simp
    moreover have "limbs_val [e0, e1, e2, e3] + 2 ^ 256 * unat c3 = limbs_val [d0, d1, d2, d3]"
      using A True by simp
    then have "limbs_val [e0, e1, e2, e3] = limbs_val [d0, d1, d2, d3]"
      using dl by (cases "unat c3 = 0") auto
    ultimately have "limbs_val [e0, e1, e2, e3] = ?L - ?M" and le: "?M \<le> ?L" by linarith+
    then show ?thesis unfolding res by (simp only: if_True le)
  next
    case False
    with bs(4) have m: "b3 = - 1" by simp
    with D have L: "limbs_val [d0, d1, d2, d3] + ?M = ?L + 2 ^ 256" by simp
    with dl have nle: "\<not> ?M \<le> ?L" by linarith
    have s: "limbs_val [e0, e1, e2, e3] + 2 ^ 256 * unat c3 = ?L + 2 ^ 256"
      using A L m by simp
    have "?L < 2 ^ 256" using limbs_val_bound [of "[l0, l1, l2, l3]"] by simp
    from carry_cancel [OF s el this] have "limbs_val [e0, e1, e2, e3] = ?L" .
    then show ?thesis unfolding res by (simp only: nle if_False)
  qed
  show "length (subtract_modulus_if_needed [l0, l1, l2, l3] [m0, m1, m2, m3]) = 4"
    by (simp add: res)
qed

lemma list_len_4: "length xs = 4 \<longleftrightarrow> (\<exists>a b c d. xs = [a, b, c, d])"
  by (auto simp: numeral_eq_Suc length_Suc_conv)

lemma list_len_8: "length xs = 8 \<longleftrightarrow> (\<exists>a b c d e f g h. xs = [a, b, c, d, e, f, g, h])"
  by (auto simp: numeral_eq_Suc length_Suc_conv)

lemma reduce_rows:
  assumes inv: "neg_inverse m0 minv" and M: "M = limbs_val [m0, m1, m2, m3]"
    and T: "T = limbs_val [r0, r1, r2, r3, r4, r5, r6, r7]"
    and r: "montgomery_row r0 r1 r2 r3 r4 0 [m0, m1, m2, m3] minv = (a1, a2, a3, a4, ca)"
      "montgomery_row a1 a2 a3 a4 r5 ca [m0, m1, m2, m3] minv = (b2, b3, b4, b5, cb)"
      "montgomery_row b2 b3 b4 b5 r6 cb [m0, m1, m2, m3] minv = (d3, d4, d5, d6, cd)"
      "montgomery_row d3 d4 d5 d6 r7 cd [m0, m1, m2, m3] minv = (e4, e5, e6, e7, ce)"
  shows "\<exists>K < 2 ^ 256. T + K * M = 2 ^ 256 * (limbs_val [e4, e5, e6, e7] + 2 ^ 256 * unat ce)"
proof -
  note v = montgomery_row_val [OF inv r(1), folded M] montgomery_row_val [OF inv r(2), folded M]
    montgomery_row_val [OF inv r(3), folded M] montgomery_row_val [OF inv r(4), folded M]
  let ?k = "[r0 * minv, a1 * minv, b2 * minv, d3 * minv]"
  have "T + limbs_val ?k * M = 2 ^ 256 * (limbs_val [e4, e5, e6, e7] + 2 ^ 256 * unat ce)"
    using v unfolding T by (simp add: distrib_right distrib_left)
  moreover have "limbs_val ?k < 2 ^ 256" using limbs_val_bound [of ?k] by simp
  ultimately show ?thesis by blast
qed

lemma montgomery_reduce_val:
  assumes inv: "neg_inverse (modulus ! 0) minv" and len: "length limbs = 8" "length modulus = 4"
    and small: "limbs_val limbs < limbs_val modulus * 2 ^ 256" "2 * limbs_val modulus \<le> 2 ^ 256"
  shows "limbs_val (montgomery_reduce_u64x8 limbs modulus minv) < limbs_val modulus"
    and "length (montgomery_reduce_u64x8 limbs modulus minv) = 4"
    and "2 ^ 256 * limbs_val (montgomery_reduce_u64x8 limbs modulus minv) mod limbs_val modulus
      = limbs_val limbs mod limbs_val modulus"
proof -
  obtain r0 r1 r2 r3 r4 r5 r6 r7 where l: "limbs = [r0, r1, r2, r3, r4, r5, r6, r7]"
    using len(1) by (auto simp: list_len_8)
  obtain m0 m1 m2 m3 where m: "modulus = [m0, m1, m2, m3]" using len(2) by (auto simp: list_len_4)
  let ?m = "[m0, m1, m2, m3]"
  obtain a1 a2 a3 a4 ca where ra: "montgomery_row r0 r1 r2 r3 r4 0 ?m minv = (a1, a2, a3, a4, ca)"
    by (cases "montgomery_row r0 r1 r2 r3 r4 0 ?m minv")
  obtain b2 b3 b4 b5 cb where rb: "montgomery_row a1 a2 a3 a4 r5 ca ?m minv = (b2, b3, b4, b5, cb)"
    by (cases "montgomery_row a1 a2 a3 a4 r5 ca ?m minv")
  obtain d3 d4 d5 d6 cd where rd: "montgomery_row b2 b3 b4 b5 r6 cb ?m minv = (d3, d4, d5, d6, cd)"
    by (cases "montgomery_row b2 b3 b4 b5 r6 cb ?m minv")
  obtain e4 e5 e6 e7 ce where re: "montgomery_row d3 d4 d5 d6 r7 cd ?m minv = (e4, e5, e6, e7, ce)"
    by (cases "montgomery_row d3 d4 d5 d6 r7 cd ?m minv")
  define M where "M = limbs_val ?m"
  define V where "V = limbs_val [e4, e5, e6, e7]"
  have i: "neg_inverse m0 minv" using inv m by simp
  obtain K where K: "K < 2 ^ 256" "limbs_val limbs + K * M = 2 ^ 256 * (V + 2 ^ 256 * unat ce)"
    using reduce_rows [OF i M_def refl ra rb rd re] l V_def by auto
  have M: "limbs_val modulus = M" by (simp add: M_def m)
  have "K * M \<le> 2 ^ 256 * M" using K(1) by (intro mult_le_mono1) simp
  moreover have "limbs_val limbs < 2 ^ 256 * M" using small(1) M by (simp add: mult.commute)
  ultimately have "2 ^ 256 * (V + 2 ^ 256 * unat ce) < 2 ^ 256 * (2 * M)"
    using K(2) by linarith
  then have V2: "V + 2 ^ 256 * unat ce < 2 * M" by simp
  have "unat ce = 0" by (rule high_limb_zero [of V "2 ^ 256"]) (use V2 small(2) M in linarith)
  with V2 K(2) have V: "V < 2 * M" and T: "limbs_val limbs + K * M = 2 ^ 256 * V" by simp_all
  have res: "montgomery_reduce_u64x8 limbs modulus minv = subtract_modulus_if_needed [e4, e5, e6, e7] ?m"
    by (simp add: montgomery_reduce_u64x8_def Let_def l m ra rb rd re numeral_eq_Suc)
  have sv: "limbs_val (subtract_modulus_if_needed [e4, e5, e6, e7] ?m) = (if M \<le> V then V - M else V)"
    using V unfolding V_def M_def by (rule subtract_val(1))
  show "limbs_val (montgomery_reduce_u64x8 limbs modulus minv) < limbs_val modulus"
    unfolding res sv M using V by (simp split: if_splits) linarith
  show "length (montgomery_reduce_u64x8 limbs modulus minv) = 4"
    unfolding res using V unfolding V_def M_def by (rule subtract_val(2))
  have "2 ^ 256 * (if M \<le> V then V - M else V) mod M = 2 ^ 256 * V mod M"
  proof (cases "M \<le> V")
    case True
    then obtain w where "V = w + M" by (metis add.commute le_Suc_ex)
    then show ?thesis by (simp add: distrib_left)
  qed simp
  also have "\<dots> = limbs_val limbs mod M" unfolding T [symmetric] by simp
  finally show "2 ^ 256 * limbs_val (montgomery_reduce_u64x8 limbs modulus minv) mod limbs_val modulus
      = limbs_val limbs mod limbs_val modulus"
    unfolding res sv M .
qed

section \<open>The conversion\<close>

lemma params_ok:
  assumes "pallas_montgomery_params f = (modulus, r2, minv)"
  shows "neg_inverse (modulus ! 0) minv" "length modulus = 4" "length r2 = 4"
    "limbs_val r2 < limbs_val modulus" "2 * limbs_val modulus \<le> 2 ^ 256" "odd (limbs_val modulus)"
    "limbs_val r2 mod limbs_val modulus = 2 ^ 512 mod limbs_val modulus"
proof -
  note c = PALLAS_BASE_MODULUS_U64X4_def PALLAS_BASE_R2_U64X4_def PALLAS_BASE_INV_def
    PALLAS_SCALAR_MODULUS_U64X4_def PALLAS_SCALAR_R2_U64X4_def PALLAS_SCALAR_INV_def
  have n: "neg_inverse 0x992d30ed00000001 0x992d30ecffffffff"
    "neg_inverse 0x8c46eb2100000001 0x8c46eb20ffffffff"
    by (simp_all add: neg_inverse_def)
  show "neg_inverse (modulus ! 0) minv" using assms n by (cases f) (auto simp: c)
  show "length modulus = 4" using assms by (cases f) (auto simp: c)
  show "length r2 = 4" using assms by (cases f) (auto simp: c)
  show "limbs_val r2 < limbs_val modulus" using assms by (cases f) (auto simp: c)
  show "2 * limbs_val modulus \<le> 2 ^ 256" using assms by (cases f) (auto simp: c)
  show "odd (limbs_val modulus)" using assms by (cases f) (auto simp: c)
  show "limbs_val r2 mod limbs_val modulus = 2 ^ 512 mod limbs_val modulus"
  proof (cases f)
    case Field
    have "2 ^ 512 = limbs_val r2 + 0x3fffffffffffffffffffffffffffffffddb96703f6b306e466d2cf12ffffffff1
        * limbs_val modulus" using assms Field by (auto simp: c)
    then show ?thesis by (simp only: mod_mult_self1)
  next
    case Order
    have "2 ^ 512 = limbs_val r2 + 0x3fffffffffffffffffffffffffffffffddb96703f66b572273b914deffffffff1
        * limbs_val modulus" using assms Order by (auto simp: c)
    then show ?thesis by (simp only: mod_mult_self1)
  qed
qed

lemma repr_to_u64x4_val:
  assumes "length repr = 32"
  shows "limbs_val (repr_to_u64x4 repr) = nat_of_le repr"
proof -
  have chunk: "unat (u64_from_le_bytes (take 8 bs)) = nat_of_le (take 8 bs)" for bs
  proof -
    have "nat_of_le (take 8 bs) < 256 ^ length (take 8 bs)" by (rule nat_of_le_bound)
    also have "(256 :: nat) ^ length (take 8 bs) \<le> 256 ^ 8" by (intro power_increasing) auto
    finally show ?thesis by (simp add: u64_from_le_bytes_def unat_of_nat)
  qed
  have app: "nat_of_le bs = nat_of_le (take 8 bs) + 2 ^ 64 * nat_of_le (drop 8 bs)" if "8 \<le> length bs" for bs
    using nat_of_le_append [of "take 8 bs" "drop 8 bs"] that by simp
  have t: "take 8 (drop 24 repr) = drop 24 repr" using assms by simp
  show ?thesis
    using app [of repr] app [of "drop 8 repr"] app [of "drop 16 repr"] assms
      chunk [of "drop 24 repr", unfolded t]
    by (simp add: repr_to_u64x4_def chunk)
qed

lemma montgomery_form:
  fixes x r p R q :: nat
  assumes "R * r mod p = (x * q) mod p" "q mod p = R * R mod p" "coprime R p" "r < p"
  shows "r = x * R mod p"
proof -
  have "(x * q) mod p = (x * (R * R)) mod p" using assms(2) by (metis mod_mult_right_eq)
  with assms(1) have "R * r mod p = R * (x * R) mod p" by (simp add: mult_ac)
  then have "int (R * r) mod int p = int (R * (x * R)) mod int p" by (metis of_nat_mod)
  then have "int p dvd int (R * r) - int (R * (x * R))" by (simp only: mod_eq_dvd_iff)
  then have "int p dvd int R * (int r - int (x * R))" by (simp add: right_diff_distrib)
  moreover have "coprime (int p) (int R)" using assms(3) by (simp add: coprime_commute)
  ultimately have "int p dvd int r - int (x * R)" by (simp only: coprime_dvd_mult_right_iff)
  then have "int r mod int p = int (x * R) mod int p" by (simp only: mod_eq_dvd_iff)
  then have "r mod p = x * R mod p" by (metis of_nat_eq_iff of_nat_mod)
  with assms(4) show ?thesis by simp
qed

lemma repr_to_montgomery_val:
  assumes len: "length repr = 32"
    and canon: "canonical repr f e = Inr be"
    and params: "pallas_montgomery_params f = (modulus, r2, minv)"
    and lt: "nat_of_le repr < limbs_val modulus"
  shows "\<exists>limbs. repr_to_montgomery_u64x4 canonical repr f e = Inr limbs
    \<and> length limbs = 4 \<and> limbs_val limbs = nat_of_le repr * 2 ^ 256 mod limbs_val modulus"
proof -
  let ?p = "limbs_val modulus"
  note ok = params_ok [OF params]
  have "length (repr_to_u64x4 repr) = 4" by (simp add: repr_to_u64x4_def)
  from mul_u64x4_val [OF this ok(3)] obtain wide where
    w: "mul_u64x4 (repr_to_u64x4 repr) r2 = Some wide" "length wide = 8"
      "limbs_val wide = nat_of_le repr * limbs_val r2"
    by (auto simp: repr_to_u64x4_val [OF len])
  have "nat_of_le repr * limbs_val r2 < ?p * ?p" using lt ok(4) by (intro mult_strict_mono) auto
  also have "\<dots> \<le> ?p * 2 ^ 256" using ok(5) by (intro mult_le_mono2) linarith
  finally have small: "limbs_val wide < ?p * 2 ^ 256" using w(3) by simp
  note red = montgomery_reduce_val [OF ok(1) w(2) ok(2) small ok(5)]
  have "coprime (2 ^ 256 :: nat) ?p" using ok(6)
    by (intro coprime_power_left_iff [THEN iffD2]) (simp del: limbs_val.simps)
  moreover have "limbs_val r2 mod ?p = 2 ^ 256 * 2 ^ 256 mod ?p" using ok(7) by simp
  ultimately have "limbs_val (montgomery_reduce_u64x8 wide modulus minv) = nat_of_le repr * 2 ^ 256 mod ?p"
    by (intro montgomery_form [OF red(3) [unfolded w(3)] _ _ red(1)])
  then show ?thesis
    using red(2) by (simp add: repr_to_montgomery_u64x4_def canon params w(1))
qed

section \<open>Properties\<close>

text \<open>C19: The 256-bit product is exact: on four-limb operands the multiplication neither overflows its
  eight limbs nor indexes outside them, and the limbs of the result are the product.\<close>

theorem mul_u64x4_exact:
  assumes "length a = 4" "length b = 4"
  shows "\<exists>out. mul_u64x4 a b = Some out \<and> length out = 8
    \<and> limbs_val out = limbs_val a * limbs_val b"
  using assms by (rule mul_u64x4_val)

lemma mul_u64x4_exact_witness:
  "\<exists>out. mul_u64x4 [1, 2, 3, 4] [5, 6, 7, 8] = Some out \<and> length out = 8
    \<and> limbs_val out = limbs_val [1, 2, 3, 4] * limbs_val [5, 6, 7, 8]"
  by (rule mul_u64x4_exact) simp_all

text \<open>C20: The Montgomery conversion is correct in both Pallas fields: a canonical little-endian
  encoding is turned, without a panic, into the limbs of its product with \<open>2^256\<close> modulo the
  field's modulus, fully reduced.\<close>

theorem repr_to_montgomery_exact:
  assumes "length repr = 32" and "canonical repr f e = Inr be"
    and "nat_of_le repr < limbs_val (fst (pallas_montgomery_params f))"
  shows "\<exists>limbs. repr_to_montgomery_u64x4 canonical repr f e = Inr limbs \<and> length limbs = 4
    \<and> limbs_val limbs = nat_of_le repr * 2 ^ 256 mod limbs_val (fst (pallas_montgomery_params f))"
proof -
  obtain modulus r2 minv where params: "pallas_montgomery_params f = (modulus, r2, minv)"
    by (cases "pallas_montgomery_params f")
  have "\<exists>limbs. repr_to_montgomery_u64x4 canonical repr f e = Inr limbs \<and> length limbs = 4
    \<and> limbs_val limbs = nat_of_le repr * 2 ^ 256 mod limbs_val modulus"
    by (rule repr_to_montgomery_val [where be = be]) (use assms params in simp_all)
  then show ?thesis by (simp add: params)
qed

lemma nat_of_le_replicate_0: "nat_of_le (replicate n 0) = 0"
  by (induction n) auto

lemma repr_to_montgomery_exact_witness:
  "\<exists>limbs. repr_to_montgomery_u64x4 (\<lambda>bs _ _. Inr (rev bs)) (42 # replicate 31 0) Order
       MalformedPallasScalar = Inr limbs \<and> length limbs = 4
    \<and> limbs_val limbs = nat_of_le (42 # replicate 31 0) * 2 ^ 256
        mod limbs_val (fst (pallas_montgomery_params Order))"
proof (rule repr_to_montgomery_exact)
  show "nat_of_le (42 # replicate 31 0) < limbs_val (fst (pallas_montgomery_params Order))"
    by (simp add: PALLAS_SCALAR_MODULUS_U64X4_def nat_of_le_replicate_0)
qed simp_all

end
