(* ===== verification/Bip32.thy ===== *)
theory Bip32
  imports Status
begin

text \<open>
  Derivation paths: \<open>src/src/utils/bip32_path.rs\<close> (the wire format of a path) and the path policy
  of \<open>src/src/utils.rs\<close> (\<open>derivation_account\<close>, \<open>check_bip44_compliance\<close>), with the constant
  time comparison and the response encoder of the same file.  The lemmas show that decoding inverts
  encoding and accepts nothing else, and give the set of paths each check mode accepts.
\<close>

unbundle bit_operations_syntax

section \<open>Paths and their wire format\<close>

definition MAX_ZCASH_BIP32_PATH :: nat where "MAX_ZCASH_BIP32_PATH = 10"
definition BIP32_BYTES_PER_SEGMENT :: nat where "BIP32_BYTES_PER_SEGMENT = 4"

record bip32_path =
  path :: "u32 list"
  path_len :: u8

definition bip32_default :: bip32_path where
  "bip32_default = \<lparr> path = replicate 10 0, path_len = 0 \<rparr>"

definition as_slice :: "bip32_path \<Rightarrow> u32 list" where
  "as_slice p = take (unat (path_len p)) (path p)"

text \<open>The type invariant: \<open>path\<close> is an array of ten components and \<open>path_len\<close> stays within it,
  so that the slice of \<open>as_slice\<close> is in range.\<close>

definition path_wf :: "bip32_path \<Rightarrow> bool" where
  "path_wf p \<longleftrightarrow> length (path p) = MAX_ZCASH_BIP32_PATH \<and> unat (path_len p) \<le> MAX_ZCASH_BIP32_PATH"

fun chunks4 :: "bytes \<Rightarrow> bytes list" where
  "chunks4 (a # b # c # d # r) = [a, b, c, d] # chunks4 r"
| "chunks4 _ = []"

text \<open>The loop that writes the decoded components over the zeroed array.\<close>

fun write_components :: "nat \<Rightarrow> bytes list \<Rightarrow> u32 list \<Rightarrow> u32 list" where
  "write_components i [] arr = arr"
| "write_components i (c # cs) arr = write_components (Suc i) cs (arr[i := u32_from_be_bytes c])"

definition from_dpath :: "nat \<Rightarrow> bytes \<Rightarrow> (app_sw, bip32_path) res" where
  "from_dpath dpath_len dpath =
     (if length dpath < dpath_len * BIP32_BYTES_PER_SEGMENT \<or> dpath_len > MAX_ZCASH_BIP32_PATH
      then err WrongApduLength
      else rbind (slice 0 (dpath_len * BIP32_BYTES_PER_SEGMENT) dpath) (\<lambda>d.
        Inr \<lparr> path = write_components 0 (chunks4 d) (replicate MAX_ZCASH_BIP32_PATH 0),
              path_len = word_of_nat dpath_len \<rparr>))"

definition from_prefixed_bytes :: "bytes \<Rightarrow> (app_sw, bip32_path \<times> bytes) res" where
  "from_prefixed_bytes data =
     (if data = [] then err WrongApduLength
      else
        let plen = unat (data ! 0);
            encoded_len = 1 + plen * BIP32_BYTES_PER_SEGMENT
        in if length data < encoded_len \<or> plen > MAX_ZCASH_BIP32_PATH then err WrongApduLength
           else rbind (slice 1 encoded_len data) (\<lambda>body.
                rbind (from_dpath plen body) (\<lambda>p.
                rbind (slice encoded_len (length data) data) (\<lambda>rest.
                Inr (p, rest)))))"

definition bip32_try_from_bytes :: "bytes \<Rightarrow> (app_sw, bip32_path) res" where
  "bip32_try_from_bytes data =
     rbind (from_prefixed_bytes data) (\<lambda>(p, remaining).
     if remaining \<noteq> [] then err WrongApduLength else Inr p)"

definition bip32_try_from_u32s :: "u32 list \<Rightarrow> (app_sw, bip32_path) res" where
  "bip32_try_from_u32s data =
     (if length data > MAX_ZCASH_BIP32_PATH then err WrongApduLength
      else Inr \<lparr> path = data @ drop (length data) (replicate MAX_ZCASH_BIP32_PATH 0),
                 path_len = word_of_nat (length data) \<rparr>)"

text \<open>What a host sends for a path: the component count, then the components big-endian.\<close>

definition encode_path :: "u32 list \<Rightarrow> bytes" where
  "encode_path cs = word_of_nat (length cs) # concat (map u32_to_be_bytes cs)"

section \<open>Decoding inverts encoding\<close>

lemma slice_Inr: "a \<le> b \<Longrightarrow> b \<le> length xs \<Longrightarrow> slice a b xs = Inr (take (b - a) (drop a xs))"
  by (simp add: slice_def)

lemma chunks4_concat: "(\<And>c. c \<in> set cs \<Longrightarrow> length c = 4) \<Longrightarrow> chunks4 (concat cs) = cs"
proof (induction cs)
  case Nil
  then show ?case by simp
next
  case (Cons c cs)
  from Cons.prems have "length c = 4" by simp
  then obtain w x y z where "c = [w, x, y, z]"
    by (auto simp: numeral_eq_Suc length_Suc_conv)
  with Cons show ?case by simp
qed

lemma chunks4_inverse:
  "length d = n * 4 \<Longrightarrow> concat (chunks4 d) = d \<and> length (chunks4 d) = n
     \<and> (\<forall>c \<in> set (chunks4 d). length c = 4)"
proof (induction n arbitrary: d)
  case 0
  then show ?case by simp
next
  case (Suc n)
  then have "4 \<le> length d" by simp
  then obtain w x y z r where d: "d = w # x # y # z # r"
    by (auto simp: numeral_eq_Suc Suc_le_length_iff)
  with Suc.prems have "length r = n * 4" by simp
  with Suc.IH d show ?case by auto
qed

lemma write_components_eq:
  "i + length cs \<le> length arr \<Longrightarrow>
     write_components i cs arr = take i arr @ map u32_from_be_bytes cs @ drop (i + length cs) arr"
proof (induction cs arbitrary: i arr)
  case Nil
  then show ?case by simp
next
  case (Cons c cs)
  then show ?case
    by (simp add: take_Suc_conv_app_nth)
qed

lemma length_encode_body: "length (concat (map u32_to_be_bytes cs)) = 4 * length cs"
  by (induction cs) auto

lemma unat_small_u8: "n \<le> MAX_ZCASH_BIP32_PATH \<Longrightarrow> unat (word_of_nat n :: u8) = n"
  by (simp add: MAX_ZCASH_BIP32_PATH_def unat_of_nat)

lemma from_dpath_encoded:
  assumes "length cs \<le> MAX_ZCASH_BIP32_PATH"
  shows "from_dpath (length cs) (concat (map u32_to_be_bytes cs)) =
     Inr \<lparr> path = cs @ replicate (MAX_ZCASH_BIP32_PATH - length cs) 0,
           path_len = word_of_nat (length cs) \<rparr>"
proof -
  have "chunks4 (concat (map u32_to_be_bytes cs)) = map u32_to_be_bytes cs"
    by (rule chunks4_concat) auto
  with assms show ?thesis
    by (simp add: from_dpath_def BIP32_BYTES_PER_SEGMENT_def slice_Inr length_encode_body
        mult.commute write_components_eq u32_be_roundtrip comp_def)
qed

lemma from_prefixed_bytes_encoded:
  assumes "length cs \<le> MAX_ZCASH_BIP32_PATH"
  shows "from_prefixed_bytes (encode_path cs @ rest) =
     Inr (\<lparr> path = cs @ replicate (MAX_ZCASH_BIP32_PATH - length cs) 0,
            path_len = word_of_nat (length cs) \<rparr>, rest)"
  using assms from_dpath_encoded [OF assms] length_encode_body [of cs]
  by (simp add: from_prefixed_bytes_def encode_path_def unat_small_u8 slice_Inr
      BIP32_BYTES_PER_SEGMENT_def mult.commute Let_def)

lemma as_slice_decoded:
  assumes "length cs \<le> MAX_ZCASH_BIP32_PATH"
  shows "as_slice \<lparr> path = cs @ replicate (MAX_ZCASH_BIP32_PATH - length cs) 0,
                    path_len = word_of_nat (length cs) \<rparr> = cs"
  using assms by (simp add: as_slice_def unat_small_u8)

text \<open>Every byte string the decoder accepts is the encoding of the path it returns, followed by
  what it leaves unread.\<close>

lemma from_dpath_wf: "from_dpath n d = Inr p \<Longrightarrow> path_wf p"
proof -
  assume "from_dpath n d = Inr p"
  then have n: "n \<le> MAX_ZCASH_BIP32_PATH" and d: "n * 4 \<le> length d"
    and p: "p = \<lparr> path = write_components 0 (chunks4 (take (n * 4) d)) (replicate MAX_ZCASH_BIP32_PATH 0),
                  path_len = word_of_nat n \<rparr>"
    by (auto simp: from_dpath_def BIP32_BYTES_PER_SEGMENT_def slice_def split: if_splits)
  from d have "length (take (n * 4) d) = n * 4" by simp
  from chunks4_inverse [OF this] have "length (chunks4 (take (n * 4) d)) = n" by blast
  with n show ?thesis
    by (simp add: p path_wf_def unat_small_u8 write_components_eq)
qed

lemma from_prefixed_bytes_inverse:
  assumes "from_prefixed_bytes data = Inr (p, rest)"
  shows "path_wf p \<and> data = encode_path (as_slice p) @ rest"
proof -
  from assms obtain b body where data: "data = b # body"
    by (cases data) (auto simp: from_prefixed_bytes_def)
  define n where "n = unat b"
  let ?d = "take (n * 4) body"
  from assms data have n: "n \<le> MAX_ZCASH_BIP32_PATH" and len: "n * 4 \<le> length body"
    and fd: "from_dpath n ?d = Inr p" and rest: "rest = drop (n * 4) body"
    by (auto simp: from_prefixed_bytes_def Let_def n_def BIP32_BYTES_PER_SEGMENT_def slice_def
        split: if_splits)
  from len have "length ?d = n * 4" by simp
  from chunks4_inverse [OF this]
  have ch: "concat (chunks4 ?d) = ?d" "length (chunks4 ?d) = n" "\<forall>c \<in> set (chunks4 ?d). length c = 4"
    by blast+
  from fd len n have p: "p = \<lparr> path = map u32_from_be_bytes (chunks4 ?d) @ replicate (10 - n) 0,
                               path_len = word_of_nat n \<rparr>"
    by (auto simp: from_dpath_def BIP32_BYTES_PER_SEGMENT_def slice_def MAX_ZCASH_BIP32_PATH_def
        write_components_eq ch(2) split: if_splits)
  with n ch(2) have "as_slice p = map u32_from_be_bytes (chunks4 ?d)"
    by (simp add: as_slice_def unat_small_u8)
  moreover from ch(3) have "map (u32_to_be_bytes \<circ> u32_from_be_bytes) (chunks4 ?d) = chunks4 ?d"
    by (intro map_idI) (simp add: u32_be_bytes_roundtrip)
  moreover have "word_of_nat n = b" by (simp add: n_def)
  ultimately have "data = encode_path (as_slice p) @ rest"
    by (simp add: encode_path_def ch data rest)
  with from_dpath_wf [OF fd] show ?thesis by simp
qed

text \<open>The path codec: every path of at most ten components survives the trip through its wire
  format, and a byte string is accepted as a whole path exactly when it is such an encoding, in
  which case the decoded components are the encoded ones.\<close>

lemma bip32_try_from_bytes_char:
  "bip32_try_from_bytes data = Inr p \<longleftrightarrow>
     path_wf p \<and> data = encode_path (as_slice p)
     \<and> path p = as_slice p @ replicate (MAX_ZCASH_BIP32_PATH - length (as_slice p)) 0"
proof
  assume "bip32_try_from_bytes data = Inr p"
  then have fp: "from_prefixed_bytes data = Inr (p, [])"
    by (auto simp: bip32_try_from_bytes_def split: if_splits prod.splits)
  from from_prefixed_bytes_inverse [OF fp]
  have wf: "path_wf p" and data: "data = encode_path (as_slice p)" by auto
  from wf have len: "length (as_slice p) \<le> MAX_ZCASH_BIP32_PATH"
    by (simp add: path_wf_def as_slice_def)
  from fp from_prefixed_bytes_encoded [OF len, of "[]"] data
  have "p = \<lparr> path = as_slice p @ replicate (MAX_ZCASH_BIP32_PATH - length (as_slice p)) 0,
              path_len = word_of_nat (length (as_slice p)) \<rparr>" by simp
  then have "path p = as_slice p @ replicate (MAX_ZCASH_BIP32_PATH - length (as_slice p)) 0"
    by (metis bip32_path.select_convs(1))
  with wf data show "path_wf p \<and> data = encode_path (as_slice p)
     \<and> path p = as_slice p @ replicate (MAX_ZCASH_BIP32_PATH - length (as_slice p)) 0" by simp
next
  assume a: "path_wf p \<and> data = encode_path (as_slice p)
     \<and> path p = as_slice p @ replicate (MAX_ZCASH_BIP32_PATH - length (as_slice p)) 0"
  then have len: "length (as_slice p) = unat (path_len p)" "length (as_slice p) \<le> MAX_ZCASH_BIP32_PATH"
    by (auto simp: path_wf_def as_slice_def)
  with a have "p = \<lparr> path = as_slice p @ replicate (MAX_ZCASH_BIP32_PATH - length (as_slice p)) 0,
                     path_len = word_of_nat (length (as_slice p)) \<rparr>"
    by (cases p) simp
  with from_prefixed_bytes_encoded [OF len(2), of "[]"] a
  show "bip32_try_from_bytes data = Inr p"
    by (simp add: bip32_try_from_bytes_def)
qed

section \<open>Path policy\<close>

definition HARDENED :: u32 where "HARDENED = 0x80000000"
definition APP_DECLARED_PURPOSES :: "u32 list" where "APP_DECLARED_PURPOSES = [44, 32]"
definition BIP44_PURPOSE :: u32 where "BIP44_PURPOSE = 44"
definition BIP44_PATH_LEN :: nat where "BIP44_PATH_LEN = 5"
definition BIP44_ACCOUNT_OFFSET :: nat where "BIP44_ACCOUNT_OFFSET = 2"
definition MAX_BIP44_ACCOUNT_RECOMMENDED :: u32 where "MAX_BIP44_ACCOUNT_RECOMMENDED = 100"
definition MAX_BIP44_ADDRESS_INDEX_RECOMMENDED :: u32 where
  "MAX_BIP44_ADDRESS_INDEX_RECOMMENDED = 50000"

definition derivation_account :: "bip32_path \<Rightarrow> u32 option" where
  "derivation_account p =
     (let pa = as_slice p in
      if length pa \<noteq> BIP44_PATH_LEN \<and> length pa \<noteq> ZIP32_PATH_LEN then None
      else Some (pa ! BIP44_ACCOUNT_OFFSET))"

datatype bip44_check_mode =
  Full (is_change_path: bool) | OnlyCoinType | Zip32Only | PrefixOnly

definition check_bip44_compliance :: "bip32_path \<Rightarrow> bip44_check_mode \<Rightarrow> bool" where
  "check_bip44_compliance p mode =
    (let pa = as_slice p;
         is_zip32_shape = length pa = ZIP32_PATH_LEN \<and> pa ! 0 AND UNHARDENED_MASK = ZIP32_PURPOSE;
         rest =
           (if is_zip32_shape then
              if pa ! 0 \<noteq> ZIP32_PURPOSE OR HARDENED then False
              else if pa ! 1 \<noteq> ZCASH_BIP44_COIN_TYPE OR HARDENED then False
              else if pa ! BIP44_ACCOUNT_OFFSET AND HARDENED = 0 then False
              else True
            else if length pa \<noteq> BIP44_PATH_LEN then False
            else if pa ! 0 \<noteq> BIP44_PURPOSE OR HARDENED then False
            else if pa ! 1 \<noteq> ZCASH_BIP44_COIN_TYPE OR HARDENED then False
            else (case mode of
                Full is_change \<Rightarrow>
                  if pa ! BIP44_ACCOUNT_OFFSET AND HARDENED = 0 then False
                  else if pa ! BIP44_ACCOUNT_OFFSET AND UNHARDENED_MASK
                          > MAX_BIP44_ACCOUNT_RECOMMENDED then False
                  else if pa ! 3 \<noteq> (if is_change then 1 else 0) then False
                  else if pa ! 4 > MAX_BIP44_ADDRESS_INDEX_RECOMMENDED then False
                  else True
              | _ \<Rightarrow> True))
     in case mode of
          PrefixOnly \<Rightarrow>
            if length pa < 2 then False
            else if pa ! 0 AND UNHARDENED_MASK \<notin> set APP_DECLARED_PURPOSES
                    \<or> pa ! 0 AND HARDENED = 0 then False
            else if pa ! 1 \<noteq> ZCASH_BIP44_COIN_TYPE OR HARDENED then False
            else True
        | Zip32Only \<Rightarrow> if \<not> is_zip32_shape then False else rest
        | Full _ \<Rightarrow> if is_zip32_shape then False else rest
        | OnlyCoinType \<Rightarrow> rest)"

text \<open>The component \<open>n'\<close> of the usual path notation.\<close>

definition hardened :: "u32 \<Rightarrow> u32" where
  "hardened n = n OR 0x80000000"

lemma sign_bit_bits_int: "bit (0x80000000 :: int) n \<longleftrightarrow> n = 31"
proof -
  have "(0x80000000 :: int) = 2 ^ 31" by simp
  then show ?thesis by (simp only: bit_exp_iff) auto
qed

lemma and_sign_bit: "(x :: u32) AND 0x80000000 = (if bit x 31 then 0x80000000 else 0)"
  by (rule bit_word_eqI) (auto simp: bit_and_iff sign_bit_bits_int)

lemma and_low_mask: "(x :: u32) AND 0x7FFFFFFF = take_bit 31 x"
proof -
  have "(0x7FFFFFFF :: u32) = mask 31" by (simp add: mask_eq_exp_minus_1)
  then show ?thesis by (simp only: take_bit_eq_mask)
qed

lemma hardened_bits: "bit (hardened x) n \<longleftrightarrow> bit x n \<or> n = 31"
  by (auto simp: hardened_def bit_or_iff sign_bit_bits_int)

lemma sign_bit_split: "bit (x :: u32) 31 \<Longrightarrow> hardened (take_bit 31 x) = x"
  by (rule bit_word_eqI) (auto simp: hardened_bits bit_simps le_less less_Suc_eq)

lemma take_bit_hardened: "take_bit 31 (hardened x) = take_bit 31 (x :: u32)"
  by (rule bit_word_eqI) (auto simp: hardened_bits bit_simps)

lemma hardened_prefix_iff:
  assumes "take_bit 31 n = n"
  shows "take_bit 31 x = n \<and> bit x 31 \<longleftrightarrow> x = hardened n"
  using assms sign_bit_split [of x] take_bit_hardened [of n] hardened_bits [of n 31] by auto

lemma list_len_3: "length xs = 3 \<longleftrightarrow> (\<exists>a b c. xs = [a, b, c])"
  by (auto simp: numeral_eq_Suc length_Suc_conv)

lemma list_len_5: "length xs = 5 \<longleftrightarrow> (\<exists>a b c d e. xs = [a, b, c, d, e])"
  by (auto simp: numeral_eq_Suc length_Suc_conv)

lemma list_len_ge_2: "\<not> length xs < 2 \<longleftrightarrow> (\<exists>a b r. xs = a # b # r)"
  by (auto simp: numeral_eq_Suc not_less Suc_le_length_iff)

lemmas path_consts = UNHARDENED_MASK_def HARDENED_def ZIP32_PURPOSE_def ZIP32_PATH_LEN_def
  BIP44_PURPOSE_def BIP44_PATH_LEN_def BIP44_ACCOUNT_OFFSET_def ZCASH_BIP44_COIN_TYPE_def
  APP_DECLARED_PURPOSES_def MAX_BIP44_ACCOUNT_RECOMMENDED_def
  MAX_BIP44_ADDRESS_INDEX_RECOMMENDED_def

lemma hardened_numerals:
  "hardened 32 = 0x80000020" "hardened 44 = 0x8000002C" "hardened 133 = 0x80000085"
  by (simp_all add: hardened_def)

lemma zip32_branch:
  "check_bip44_compliance p Zip32Only \<longleftrightarrow>
     (\<exists>account. as_slice p = [hardened 32, hardened 133, account] \<and> bit account 31)"
  by (auto simp: check_bip44_compliance_def Let_def path_consts list_len_3 and_sign_bit
      hardened_numerals)

lemma full_branch:
  "check_bip44_compliance p (Full is_change) \<longleftrightarrow>
     (\<exists>account index. as_slice p = [hardened 44, hardened 133, hardened account,
          (if is_change then 1 else 0), index] \<and> account \<le> 100 \<and> index \<le> 50000)"
  (is "?L \<longleftrightarrow> ?R")
proof
  assume ?L
  then have len: "length (as_slice p) = 5"
    by (auto simp: check_bip44_compliance_def Let_def path_consts split: if_splits)
  then obtain a b c d e where s: "as_slice p = [a, b, c, d, e]"
    by (auto simp: list_len_5)
  from \<open>?L\<close> have r: "a = hardened 44" "b = hardened 133" "bit c 31" "take_bit 31 c \<le> 100"
    "d = (if is_change then 1 else 0)" "e \<le> 50000"
    by (auto simp: check_bip44_compliance_def Let_def path_consts s and_sign_bit and_low_mask
        hardened_numerals not_less split: if_splits)
  from sign_bit_split [OF r(3)] have "c = hardened (take_bit 31 c)" by simp
  with r s have "as_slice p = [hardened 44, hardened 133, hardened (take_bit 31 c),
       (if is_change then 1 else 0), e] \<and> take_bit 31 c \<le> 100 \<and> e \<le> 50000" by simp
  then show ?R by blast
next
  assume ?R
  then obtain account index where s: "as_slice p = [hardened 44, hardened 133, hardened account,
       (if is_change then 1 else 0), index]" and b: "account \<le> 100" "index \<le> 50000"
    by blast
  have "take_bit 31 account = account"
  proof (rule unsigned_word_eqI [where ?'a = nat])
    from b(1) have "unat account \<le> 100" by (simp add: word_le_nat_alt)
    then show "unat (take_bit 31 account) = unat account"
      by (simp add: unsigned_take_bit_eq take_bit_nat_eq_self)
  qed
  moreover have "bit (hardened account) 31" by (simp add: hardened_bits)
  ultimately show ?L
    using b by (simp add: check_bip44_compliance_def Let_def path_consts s and_sign_bit and_low_mask
        hardened_numerals take_bit_hardened not_less)
qed

lemma prefix_branch:
  "check_bip44_compliance p PrefixOnly \<longleftrightarrow>
     (\<exists>purpose rest. as_slice p = purpose # hardened 133 # rest
         \<and> (purpose = hardened 44 \<or> purpose = hardened 32))"
proof -
  have "take_bit 31 (44 :: u32) = 44" "take_bit 31 (32 :: u32) = 32" by simp_all
  note h = this [THEN hardened_prefix_iff]
  have "check_bip44_compliance p PrefixOnly \<longleftrightarrow>
     (\<exists>a b r. as_slice p = a # b # r \<and> (take_bit 31 a = 44 \<and> bit a 31 \<or> take_bit 31 a = 32 \<and> bit a 31)
        \<and> b = hardened 133)"
    by (cases "\<not> length (as_slice p) < 2")
       (auto simp: list_len_ge_2 check_bip44_compliance_def Let_def path_consts and_sign_bit
         and_low_mask hardened_numerals)
  then show ?thesis unfolding h by blast
qed

lemma only_coin_type_branch:
  "check_bip44_compliance p OnlyCoinType \<longleftrightarrow>
     check_bip44_compliance p Zip32Only
     \<or> (\<exists>account change index.
          as_slice p = [hardened 44, hardened 133, account, change, index])"
  by (auto simp: check_bip44_compliance_def Let_def path_consts list_len_3 list_len_5 and_sign_bit
      hardened_numerals)

section \<open>Comparison and responses\<close>

fun memcmp_loop :: "bytes \<Rightarrow> bytes \<Rightarrow> u8 \<Rightarrow> u8" where
  "memcmp_loop (x # xs) (y # ys) error = memcmp_loop xs ys (error OR (x XOR y))"
| "memcmp_loop _ _ error = error"

definition secure_memcmp :: "bytes \<Rightarrow> bytes \<Rightarrow> bool" where
  "secure_memcmp buf1 buf2 =
     (if length buf1 \<noteq> length buf2 then False else memcmp_loop buf1 buf2 0 = 0)"

lemma memcmp_loop_zero:
  "length xs = length ys \<Longrightarrow> memcmp_loop xs ys e = 0 \<longleftrightarrow> e = 0 \<and> xs = ys"
proof (induction xs ys arbitrary: e rule: list_induct2)
  case Nil
  then show ?case by simp
next
  case (Cons x xs y ys)
  have "x XOR y = 0 \<longleftrightarrow> x = y" by (simp add: bit_eq_iff bit_xor_iff)
  moreover have "e OR (x XOR y) = 0 \<longleftrightarrow> e = 0 \<and> x XOR y = 0" by (rule or_eq_0_iff)
  ultimately show ?case by (simp add: Cons)
qed

definition read_u32 :: "bytes \<Rightarrow> bool \<Rightarrow> bool \<Rightarrow> (app_sw, u32) res" where
  "read_u32 buffer big skip_sign =
     (if length buffer < 4 then err IncorrectData
      else let word = (if big then u32_from_be_bytes (take 4 buffer)
                       else u32_from_le_bytes (take 4 buffer))
           in Inr (if skip_sign then word AND 0x7FFFFFFF else word))"

definition encode_string_response :: "bytes \<Rightarrow> (app_sw, bytes) res" where
  "encode_string_response value_bytes =
     (if length value_bytes > 65535 then err TechnicalProblem
      else Inr (u16_to_be_bytes (length value_bytes) @ value_bytes))"

section \<open>Properties\<close>

text \<open>C14: The wire format of derivation paths is exact.  A byte string is accepted as a path exactly
  when it is the encoding of a list of at most ten components, the decoded path then holds these
  components in its first slots and zeros in the others, and every such list is accepted.\<close>

theorem bip32_wire_format:
  "bip32_try_from_bytes data = Inr p \<longleftrightarrow>
     (\<exists>cs. length cs \<le> 10 \<and> data = encode_path cs \<and> as_slice p = cs \<and> path_wf p
        \<and> path p = cs @ replicate (10 - length cs) 0)"
proof -
  have "path_wf p \<Longrightarrow> length (as_slice p) \<le> 10"
    by (simp add: path_wf_def as_slice_def MAX_ZCASH_BIP32_PATH_def)
  then show ?thesis
    by (auto simp: bip32_try_from_bytes_char MAX_ZCASH_BIP32_PATH_def)
qed

text \<open>C15: The four policies of \<open>check_bip44_compliance\<close>, each as the exact set of paths it accepts:
  the full BIP-44 check accepts \<open>m/44'/133'/a'/c/i\<close> with account at most 100, the requested change
  level and index at most 50000; the ZIP-32 check accepts \<open>m/32'/133'/a'\<close> with a hardened account;
  the coin-type check accepts either tree; the prefix check accepts any depth below \<open>44'/133'\<close> or
  \<open>32'/133'\<close>.  In particular no unhardened prefix passes any of them.\<close>

theorem check_bip44_compliance_exact:
  "check_bip44_compliance p mode \<longleftrightarrow>
    (case mode of
       Full is_change \<Rightarrow> \<exists>account index.
         as_slice p = [hardened 44, hardened 133, hardened account, (if is_change then 1 else 0), index]
         \<and> account \<le> 100 \<and> index \<le> 50000
     | Zip32Only \<Rightarrow> \<exists>account.
         as_slice p = [hardened 32, hardened 133, account] \<and> bit account 31
     | OnlyCoinType \<Rightarrow>
         (\<exists>account. as_slice p = [hardened 32, hardened 133, account] \<and> bit account 31)
         \<or> (\<exists>account change index. as_slice p = [hardened 44, hardened 133, account, change, index])
     | PrefixOnly \<Rightarrow> \<exists>purpose rest. as_slice p = purpose # hardened 133 # rest
         \<and> (purpose = hardened 44 \<or> purpose = hardened 32))"
proof (cases mode)
  case (Full c)
  then show ?thesis using full_branch [of p c] by simp
next
  case OnlyCoinType
  then show ?thesis using only_coin_type_branch [of p] zip32_branch [of p] by simp
next
  case Zip32Only
  then show ?thesis using zip32_branch [of p] by simp
next
  case PrefixOnly
  then show ?thesis using prefix_branch [of p] by simp
qed

text \<open>C16: The constant-time comparison decides equality.\<close>

theorem secure_memcmp_eq: "secure_memcmp xs ys \<longleftrightarrow> xs = ys"
  by (auto simp: secure_memcmp_def memcmp_loop_zero)

end
