(* ===== verification/Device.thy ===== *)
theory Device
  imports Status
begin

text \<open>
  Everything the application calls but does not contain: the Zcash crates (\<open>zcash_encoding\<close>,
  \<open>zcash_protocol\<close>, \<open>zcash_transparent\<close>, \<open>zcash_primitives\<close>, \<open>zcash_address\<close>, \<open>bs58\<close>), the
  Ledger SDK (hashes, secp256k1, ZIP-32 derivation, random numbers, the review screen, the
  allocator), and the elliptic-curve layer of \<open>ledger_zcash_crypto\<close> with the vendored \<open>orchard\<close>
  crate.  All of it is one record \<open>env\<close> of functions, an argument of every definition that uses
  it, with the documented behaviour the proofs need stated once in \<open>codec_laws\<close>.

  The theory also models the two small adapters the application puts on top of it: the personalised
  BLAKE2b hasher of \<open>utils/blake2b_256_pers.rs\<close> and the packet reader of \<open>parser/reader.rs\<close>.
\<close>

section \<open>Values of external types\<close>

text \<open>\<open>zcash_primitives::transaction::TxVersion\<close>: the two versions the application accepts, and
  every other one.\<close>

datatype tx_version_t = TxV4 | TxV5 | TxOtherVersion

datatype bundle_version = Orchard_insecure_v1 | Orchard_v3

datatype network_type = Main_net | Test_net

datatype orchard_scope = External | Internal

text \<open>A BLAKE2b-256 context: personalization, the bytes absorbed so far, and whether the context was
  finalized already (what a context does after that is left to the device).\<close>

record blake2b_256 =
  b_perso :: bytes
  b_data :: bytes
  b_final :: bool

definition blake_default :: blake2b_256 where
  "blake_default = \<lparr> b_perso = [], b_data = [], b_final = False \<rparr>"

record deciphered_orchard_output =
  do_value :: u64
  do_raw_address :: bytes
  do_memo :: "bytes option"

record orchard_compact_action =
  oc_nullifier :: bytes
  oc_cmx :: bytes
  oc_ephemeral_key :: bytes
  oc_enc_ciphertext_prefix :: bytes

record orchard_action_ciphertext =
  oa_compact :: orchard_compact_action
  oa_rk :: bytes
  oa_cv_net :: bytes
  oa_enc_ciphertext :: bytes
  oa_out_ciphertext :: bytes

text \<open>What the review screen is asked to draw: the subtitle and the fields as name and value.\<close>

record review_screen =
  rs_subtitle :: string
  rs_fields :: "(string \<times> string) list"

section \<open>The environment\<close>

text \<open>Readers return the value with the number of bytes consumed.\<close>

record codec_env =
  compact_size_read :: "bytes \<Rightarrow> (nat \<times> nat) option"
  compact_size_write :: "nat \<Rightarrow> bytes"
  zatoshis_from_nonnegative_i64_le_bytes :: "bytes \<Rightarrow> u64 option"
  outpoint_read :: "bytes \<Rightarrow> ((bytes \<times> u32) \<times> nat) option"
  outpoint_write :: "bytes \<times> u32 \<Rightarrow> bytes"
  branch_id_known :: "u32 \<Rightarrow> bool"
  tx_version_write :: "tx_version_t \<Rightarrow> bytes"
  orchard_read_flags :: "bundle_version \<Rightarrow> bytes \<Rightarrow> (bytes \<times> nat) option"
  orchard_flags_to_byte :: "bundle_version \<Rightarrow> bytes \<Rightarrow> u8 option"
  V5_TX_VERSION :: u32
  V5_VERSION_GROUP_ID :: u32
  bs58_encode :: "bytes \<Rightarrow> string option"
  unified_address_encode :: "bytes \<Rightarrow> network_type \<Rightarrow> string option"

text \<open>Hashing: the digest of a context, and whether the device carries out a call (the SDK reports
  a failure of the cryptographic library as an error).\<close>

record hash_env = codec_env +
  blake2b_256_digest :: "blake2b_256 \<Rightarrow> bytes"
  blake2b_init_ok :: "bytes \<Rightarrow> bool"
  blake2b_update_ok :: "blake2b_256 \<Rightarrow> bytes \<Rightarrow> bool"
  blake2b_final_ok :: "blake2b_256 \<Rightarrow> bool"
  sha256_hash :: "bytes \<Rightarrow> bytes option"
  ripemd160_hash :: "bytes \<Rightarrow> bytes option"

text \<open>Keys and signatures.  Opaque keys are represented by their byte encodings.  Deriving the
  secp256k1 key of a path gives the uncompressed public key and the chain code, where the SDK
  returns them; signing gives the DER signature and the parity information.\<close>

record key_env = hash_env +
  secp256k1_public_key :: "u32 list \<Rightarrow> bytes option"
  secp256k1_chain_code :: "u32 list \<Rightarrow> bytes option"
  secp256k1_deterministic_sign :: "u32 list \<Rightarrow> bytes \<Rightarrow> (bytes \<times> u32) option"
  zip32_orchard_derive :: "nat \<Rightarrow> u32 list \<Rightarrow> bytes option"
  orchard_sk_from_bytes_ledger :: "bytes \<Rightarrow> (crypto_error, bytes) res"
  orchard_fvk_of_sk :: "bytes \<Rightarrow> (crypto_error, bytes) res"
  orchard_ask_of_sk :: "bytes \<Rightarrow> (crypto_error, bytes) res"
  fvk_to_ivk_ledger :: "bytes \<Rightarrow> orchard_scope \<Rightarrow> (crypto_error, bytes) res"
  fvk_to_ovk_ledger :: "bytes \<Rightarrow> orchard_scope \<Rightarrow> (crypto_error, bytes) res"
  pallas_scalar_from_repr :: "bytes \<Rightarrow> (crypto_error, bytes) res"
  randomized_verification_key_bytes :: "bytes \<Rightarrow> bytes \<Rightarrow> (crypto_error, bytes) res"
  randomize_ledger :: "bytes \<Rightarrow> bytes \<Rightarrow> (crypto_error, bytes) res"
  sign_ledger :: "bytes \<Rightarrow> bytes \<Rightarrow> bytes \<Rightarrow> (crypto_error, bytes) res"

text \<open>Notes of the shielded pools.\<close>

record note_env = key_env +
  decipher_compact_value ::
    "bytes \<Rightarrow> orchard_compact_action \<Rightarrow> u8 \<Rightarrow> (crypto_error, deciphered_orchard_output option) res"
  decipher_value_with_ovk ::
    "bytes \<Rightarrow> orchard_action_ciphertext \<Rightarrow> u8 \<Rightarrow> (crypto_error, deciphered_orchard_output option) res"
  orchard_note_commitment_bytes :: "bytes \<Rightarrow> u64 \<Rightarrow> bytes \<Rightarrow> bytes \<Rightarrow> (crypto_error, bytes) res"
  orchard_note_commitment_v3_bytes :: "bytes \<Rightarrow> u64 \<Rightarrow> bytes \<Rightarrow> bytes \<Rightarrow> (crypto_error, bytes) res"
  orchard_value_commitment_bytes :: "int \<Rightarrow> bytes \<Rightarrow> (crypto_error, bytes) res"
  orchard_spend_nullifier_bytes ::
    "bytes \<Rightarrow> bytes \<Rightarrow> u64 \<Rightarrow> bytes \<Rightarrow> bytes \<Rightarrow> (crypto_error, bytes) res"
  orchard_spend_nullifier_bytes_v3 ::
    "bytes \<Rightarrow> bytes \<Rightarrow> u64 \<Rightarrow> bytes \<Rightarrow> bytes \<Rightarrow> (crypto_error, bytes) res"
  diversify_hash_ledger :: "bytes \<Rightarrow> (crypto_error, bytes) res"
  orchard_pk_d :: "bytes \<Rightarrow> bytes \<Rightarrow> (crypto_error, bytes) res"

text \<open>The nondeterministic services, indexed by the number of service calls made before: the
  allocator's answer to a reservation, the random generator, and the user's decision on a
  review.\<close>

record env = note_env +
  try_reserve_ok :: "nat \<Rightarrow> nat \<Rightarrow> bool"
  cx_get_random_bytes :: "nat \<Rightarrow> nat \<Rightarrow> bytes option"
  review_show :: "nat \<Rightarrow> review_screen \<Rightarrow> bool"

section \<open>Documented behaviour the proofs rely on\<close>

definition MAX_MONEY :: nat where "MAX_MONEY = 2100000000000000"

text \<open>CompactSize reading consumes between one and nine of the available bytes; a
  \<open>Zatoshis\<close> is the little-endian value and at most \<open>MAX_MONEY\<close>; an outpoint is 36 bytes and is
  written the way it was read; the flags of a bundle are one byte.\<close>

definition codec_laws :: "'z codec_env_scheme \<Rightarrow> bool" where
  "codec_laws E \<longleftrightarrow>
     (\<forall>bs v n. compact_size_read E bs = Some (v, n) \<longrightarrow> 1 \<le> n \<and> n \<le> length bs \<and> n \<le> 9)
   \<and> (\<forall>bs v. zatoshis_from_nonnegative_i64_le_bytes E bs = Some v
        \<longrightarrow> unat v = nat_of_le bs \<and> unat v \<le> MAX_MONEY)
   \<and> (\<forall>bs x n. outpoint_read E bs = Some (x, n)
        \<longrightarrow> n = 36 \<and> 36 \<le> length bs \<and> outpoint_write E x = take 36 bs)
   \<and> (\<forall>v bs x n. orchard_read_flags E v bs = Some (x, n) \<longrightarrow> n = 1 \<and> 1 \<le> length bs)"

lemma compact_size_readD:
  "codec_laws E \<Longrightarrow> compact_size_read E bs = Some (v, n) \<Longrightarrow> 1 \<le> n \<and> n \<le> length bs"
  unfolding codec_laws_def by blast

lemma zatoshisD:
  "codec_laws E \<Longrightarrow> zatoshis_from_nonnegative_i64_le_bytes E bs = Some v \<Longrightarrow>
     unat v = nat_of_le bs \<and> unat v \<le> MAX_MONEY"
  unfolding codec_laws_def by blast

lemma outpoint_readD:
  "codec_laws E \<Longrightarrow> outpoint_read E bs = Some (x, n) \<Longrightarrow>
     n = 36 \<and> 36 \<le> length bs \<and> outpoint_write E x = take 36 bs"
  unfolding codec_laws_def by blast

lemma orchard_read_flagsD:
  "codec_laws E \<Longrightarrow> orchard_read_flags E v bs = Some (x, n) \<Longrightarrow> n = 1 \<and> 1 \<le> length bs"
  unfolding codec_laws_def by blast

section \<open>The hasher\<close>

definition init_with_perso :: "'z hash_env_scheme \<Rightarrow> bytes \<Rightarrow> (parser_error, blake2b_256) res" where
  "init_with_perso E perso =
     (if length perso \<noteq> 16 then Inl Panic
      else if blake2b_init_ok E perso
      then Inr \<lparr> b_perso = perso, b_data = [], b_final = False \<rparr>
      else err Hash_Err)"

definition blake_update :: "'z hash_env_scheme \<Rightarrow> blake2b_256 \<Rightarrow> bytes \<Rightarrow> (parser_error, blake2b_256) res"
  where
  "blake_update E h bs =
     (if blake2b_update_ok E h bs then Inr (h\<lparr> b_data := b_data h @ bs \<rparr>) else err Hash_Err)"

text \<open>The same through \<open>Blake2b256IoWriter\<close>, which reports the failure as an I/O error.\<close>

definition blake_write :: "'z hash_env_scheme \<Rightarrow> blake2b_256 \<Rightarrow> bytes \<Rightarrow> (parser_error, blake2b_256) res"
  where
  "blake_write E h bs =
     (if blake2b_update_ok E h bs then Inr (h\<lparr> b_data := b_data h @ bs \<rparr>) else err Io)"

definition blake_finalize :: "'z hash_env_scheme \<Rightarrow> blake2b_256 \<Rightarrow> (parser_error, bytes \<times> blake2b_256) res"
  where
  "blake_finalize E h =
     (if blake2b_final_ok E h then Inr (blake2b_256_digest E h, h\<lparr> b_final := True \<rparr>)
      else err Hash_Err)"

text \<open>A run of \<open>update\<close> calls, and the whole life of a local hasher.\<close>

fun blake_updates :: "'z hash_env_scheme \<Rightarrow> blake2b_256 \<Rightarrow> bytes list \<Rightarrow> (parser_error, blake2b_256) res"
  where
  "blake_updates E h [] = Inr h"
| "blake_updates E h (c # cs) = rbind (blake_update E h c) (\<lambda>h'. blake_updates E h' cs)"

definition blake_hash :: "'z hash_env_scheme \<Rightarrow> bytes \<Rightarrow> bytes list \<Rightarrow> (parser_error, bytes) res" where
  "blake_hash E perso chunks =
     rbind (init_with_perso E perso) (\<lambda>h.
     rbind (blake_updates E h chunks) (\<lambda>h'.
     rbind (blake_finalize E h') (\<lambda>(d, _). Inr d)))"

text \<open>The digest of a message under a personalization, as the transaction digests are specified.\<close>

definition blake_of :: "'z hash_env_scheme \<Rightarrow> bytes \<Rightarrow> bytes \<Rightarrow> bytes" where
  "blake_of E perso msg = blake2b_256_digest E \<lparr> b_perso = perso, b_data = msg, b_final = False \<rparr>"

lemma blake_updates_Inr:
  "blake_updates E h cs = Inr h' \<Longrightarrow> h' = h\<lparr> b_data := b_data h @ concat cs \<rparr>"
  by (induction cs arbitrary: h) (fastforce simp: blake_update_def split: if_splits)+

lemma blake_hash_Inr: "blake_hash E perso cs = Inr d \<Longrightarrow> d = blake_of E perso (concat cs)"
  by (auto simp: blake_hash_def init_with_perso_def blake_finalize_def blake_of_def
      dest!: blake_updates_Inr split: if_splits)

lemma blake_update_no_panic: "blake_update E h bs \<noteq> Inl Panic" "blake_update E h bs \<noteq> Inl Diverge"
  by (simp_all add: blake_update_def err_def)

lemma blake_updates_faults:
  "blake_updates E h cs \<noteq> Inl Panic \<and> blake_updates E h cs \<noteq> Inl Diverge"
  by (induction cs arbitrary: h) (auto simp: rbind_eq_Inl blake_update_def err_def)

lemma blake_hash_faults:
  "length perso = 16 \<Longrightarrow> blake_hash E perso cs \<noteq> Inl Panic \<and> blake_hash E perso cs \<noteq> Inl Diverge"
  using blake_updates_faults [of E _ cs]
  by (auto simp: blake_hash_def rbind_eq_Inl init_with_perso_def blake_finalize_def err_def
      split: if_splits)

section \<open>The packet reader\<close>

text \<open>\<open>ByteReader\<close>: the packet and the position in it.  The state of the application extends this
  record, the reader being a local variable of the function that parses a packet.\<close>

record reader_state =
  rd_buf :: bytes
  rd_pos :: nat

definition remaining_len :: "'z reader_state_scheme \<Rightarrow> nat" where
  "remaining_len s = length (rd_buf s) - rd_pos s"

definition remaining_slice :: "'z reader_state_scheme \<Rightarrow> bytes" where
  "remaining_slice s = drop (rd_pos s) (rd_buf s)"

definition reader_ok :: "'z reader_state_scheme \<Rightarrow> bool" where
  "reader_ok s \<longleftrightarrow> rd_pos s \<le> length (rd_buf s)"

definition reader_new :: "bytes \<Rightarrow> ('z reader_state_scheme, 'e, unit) sm" where
  "reader_new data = modify (\<lambda>s. s\<lparr> rd_buf := data, rd_pos := 0 \<rparr>)"

definition advance :: "nat \<Rightarrow> ('z reader_state_scheme, parser_error, unit) sm" where
  "advance n = bnd (gets remaining_len) (\<lambda>remaining.
     if n > remaining then throw Io
     else modify (\<lambda>s. s\<lparr> rd_pos := rd_pos s + n \<rparr>))"

text \<open>\<open>Read::read\<close> on a buffer of \<open>n\<close> bytes: the bytes it fills in.\<close>

definition reader_read :: "nat \<Rightarrow> ('z reader_state_scheme, parser_error, bytes) sm" where
  "reader_read n = bnd (gets remaining_len) (\<lambda>remaining.
     let to_read = min remaining n in
     bnd (gets (\<lambda>s. take to_read (remaining_slice s))) (\<lambda>bs.
     bnd (modify (\<lambda>s. s\<lparr> rd_pos := rd_pos s + to_read \<rparr>)) (\<lambda>_. ret bs)))"

text \<open>\<open>Read::read_exact\<close>: reading until the buffer is full, or an unexpected end of the packet.\<close>

definition read_exact :: "nat \<Rightarrow> ('z reader_state_scheme, parser_error, bytes) sm" where
  "read_exact n = bnd (reader_read n) (\<lambda>bs. if length bs = n then ret bs else throw Io)"

definition read_u8 :: "('z reader_state_scheme, parser_error, u8) sm" where
  "read_u8 = bnd (read_exact 1) (\<lambda>buf. lift_r (index buf 0))"

definition read_u32_le :: "('z reader_state_scheme, parser_error, u32) sm" where
  "read_u32_le = bnd (read_exact 4) (\<lambda>buf. ret (u32_from_le_bytes buf))"

definition read_u64_le :: "('z reader_state_scheme, parser_error, u64) sm" where
  "read_u64_le = bnd (read_exact 8) (\<lambda>buf. ret (u64_from_le_bytes buf))"

text \<open>Readers of the external crates, run on the rest of the packet.\<close>

definition read_ext :: "(bytes \<Rightarrow> ('a \<times> nat) option) \<Rightarrow> ('z reader_state_scheme, parser_error, 'a) sm"
  where
  "read_ext f = bnd (gets (\<lambda>s. f (remaining_slice s))) (\<lambda>r.
     case r of None \<Rightarrow> throw Io
     | Some (v, n) \<Rightarrow> bnd (modify (\<lambda>s. s\<lparr> rd_pos := rd_pos s + n \<rparr>)) (\<lambda>_. ret v))"

lemma length_remaining_slice [simp]: "length (remaining_slice s) = remaining_len s"
  by (simp add: remaining_slice_def remaining_len_def)

lemma reader_upd_simps [simp]:
  "remaining_len (s\<lparr> rd_buf := d, rd_pos := 0 \<rparr>) = length d"
  "remaining_slice (s\<lparr> rd_buf := d, rd_pos := 0 \<rparr>) = d"
  "reader_ok (s\<lparr> rd_buf := d, rd_pos := 0 \<rparr>)"
  by (simp_all add: remaining_len_def remaining_slice_def reader_ok_def)

lemma wp_reader_new [wp_simps]:
  "wp (reader_new d) Q R s = Q () (s\<lparr> rd_buf := d, rd_pos := 0 \<rparr>)"
  by (simp add: reader_new_def wp_simps)

lemma wp_advance [wp_simps]:
  "wp (advance n) Q R s =
     (if n > remaining_len s then R (Fail Io) s else Q () (s\<lparr> rd_pos := rd_pos s + n \<rparr>))"
  by (simp add: advance_def wp_simps)

lemma wp_reader_read [wp_simps]:
  "wp (reader_read n) Q R s =
     Q (take n (remaining_slice s)) (s\<lparr> rd_pos := rd_pos s + min (remaining_len s) n \<rparr>)"
proof -
  have "take (min (remaining_len s) n) (remaining_slice s) = take n (remaining_slice s)"
    by (simp add: min_def flip: length_remaining_slice)
  then show ?thesis by (simp add: reader_read_def wp_simps Let_def)
qed

lemma wp_read_exact [wp_simps]:
  "wp (read_exact n) Q R s =
     (if n \<le> remaining_len s then Q (take n (remaining_slice s)) (s\<lparr> rd_pos := rd_pos s + n \<rparr>)
      else R (Fail Io) (s\<lparr> rd_pos := rd_pos s + remaining_len s \<rparr>))"
  by (auto simp: read_exact_def wp_simps min_def)

lemma wp_read_u8 [wp_simps]:
  "wp read_u8 Q R s =
     (if 1 \<le> remaining_len s then Q (remaining_slice s ! 0) (s\<lparr> rd_pos := rd_pos s + 1 \<rparr>)
      else R (Fail Io) (s\<lparr> rd_pos := rd_pos s + remaining_len s \<rparr>))"
proof (cases "1 \<le> remaining_len s")
  case True
  then have "remaining_slice s \<noteq> []" using length_remaining_slice [of s] by fastforce
  with True show ?thesis by (simp add: read_u8_def wp_simps index_def)
qed (simp add: read_u8_def wp_simps)

lemma wp_read_u32_le [wp_simps]:
  "wp read_u32_le Q R s =
     (if 4 \<le> remaining_len s
      then Q (u32_from_le_bytes (take 4 (remaining_slice s))) (s\<lparr> rd_pos := rd_pos s + 4 \<rparr>)
      else R (Fail Io) (s\<lparr> rd_pos := rd_pos s + remaining_len s \<rparr>))"
  by (simp add: read_u32_le_def wp_simps)

lemma wp_read_u64_le [wp_simps]:
  "wp read_u64_le Q R s =
     (if 8 \<le> remaining_len s
      then Q (u64_from_le_bytes (take 8 (remaining_slice s))) (s\<lparr> rd_pos := rd_pos s + 8 \<rparr>)
      else R (Fail Io) (s\<lparr> rd_pos := rd_pos s + remaining_len s \<rparr>))"
  by (simp add: read_u64_le_def wp_simps)

lemma wp_read_ext [wp_simps]:
  "wp (read_ext f) Q R s =
     (case f (remaining_slice s) of None \<Rightarrow> R (Fail Io) s
      | Some x \<Rightarrow> Q (fst x) (s\<lparr> rd_pos := rd_pos s + snd x \<rparr>))"
  by (simp add: read_ext_def wp_simps split: option.splits prod.splits)

lemma remaining_len_pos [simp]:
  "remaining_len (s\<lparr> rd_pos := p \<rparr>) = length (rd_buf s) - p"
  by (simp add: remaining_len_def)

end
