(* ===== verification/Scripts.thy ===== *)
theory Scripts
  imports Device
begin

text \<open>
  Transparent scripts and addresses: the script classifier of
  \<open>src/ledger_zcash_crypto/src/transparent_script.rs\<close>, the address payload of
  \<open>src/src/utils/base58_address.rs\<close> and the Base58Check encoder of
  \<open>src/ledger_zcash_crypto/src/transparent_address.rs\<close>.  The lemmas characterise the accepted
  shapes, show that the classifier and the address encoder agree on them, and that the payload
  shown to the user determines the script.
\<close>

section \<open>Script shapes\<close>

definition OP_RETURN_OPCODE :: u8 where "OP_RETURN_OPCODE = 0x6A"
definition REGULAR_OUTPUT_SCRIPT_LEN :: nat where "REGULAR_OUTPUT_SCRIPT_LEN = 25"
definition REGULAR_OUTPUT_PREFIX :: bytes where "REGULAR_OUTPUT_PREFIX = [0x76, 0xA9, 0x14]"
definition REGULAR_OUTPUT_POSTFIX :: bytes where "REGULAR_OUTPUT_POSTFIX = [0x88, 0xAC]"
definition P2SH_OUTPUT_SCRIPT_LEN :: nat where "P2SH_OUTPUT_SCRIPT_LEN = 23"
definition P2SH_OUTPUT_PREFIX :: bytes where "P2SH_OUTPUT_PREFIX = [0xA9, 0x14]"
definition P2SH_OUTPUT_POSTFIX :: u8 where "P2SH_OUTPUT_POSTFIX = 0x87"
definition TRANSPARENT_ADDRESS_OFFSET :: nat where "TRANSPARENT_ADDRESS_OFFSET = 3"
definition TRANSPARENT_ADDRESS_HASH_LEN :: nat where "TRANSPARENT_ADDRESS_HASH_LEN = 20"

definition output_script_is_op_return :: "bytes \<Rightarrow> bool" where
  "output_script_is_op_return script_pubkey =
     (if script_pubkey = [] then False else script_pubkey ! 0 = OP_RETURN_OPCODE)"

definition output_script_is_regular :: "bytes \<Rightarrow> bool" where
  "output_script_is_regular script_pubkey =
     (if length script_pubkey \<noteq> REGULAR_OUTPUT_SCRIPT_LEN then False
      else if take (length REGULAR_OUTPUT_PREFIX) script_pubkey \<noteq> REGULAR_OUTPUT_PREFIX then False
      else if drop (length script_pubkey - length REGULAR_OUTPUT_POSTFIX) script_pubkey
              \<noteq> REGULAR_OUTPUT_POSTFIX then False
      else True)"

definition output_script_is_p2sh :: "bytes \<Rightarrow> bool" where
  "output_script_is_p2sh script_pubkey =
     (if length script_pubkey \<noteq> P2SH_OUTPUT_SCRIPT_LEN then False
      else if take (length P2SH_OUTPUT_PREFIX) script_pubkey \<noteq> P2SH_OUTPUT_PREFIX then False
      else script_pubkey ! (length script_pubkey - 1) = P2SH_OUTPUT_POSTFIX)"

datatype check_disp_output = CdNone | CdDisplayable | CdChange

definition check_output_displayable :: "bytes \<Rightarrow> u64 \<Rightarrow> bytes option \<Rightarrow> check_disp_output" where
  "check_output_displayable script_pubkey amount change_address =
     (if script_pubkey = [] then CdNone
      else if amount = 0 then CdNone
      else if output_script_is_op_return script_pubkey then CdNone
      else if output_script_is_p2sh script_pubkey then CdDisplayable
      else if \<not> output_script_is_regular script_pubkey then CdNone
      else if (case change_address of None \<Rightarrow> False
               | Some ch \<Rightarrow> take TRANSPARENT_ADDRESS_HASH_LEN
                              (drop TRANSPARENT_ADDRESS_OFFSET script_pubkey) = ch) then CdChange
      else CdDisplayable)"

text \<open>The two standard scripts, as the protocol defines them.\<close>

definition p2pkh_script :: "bytes \<Rightarrow> bytes" where
  "p2pkh_script h = [0x76, 0xA9, 0x14] @ h @ [0x88, 0xAC]"

definition p2sh_script :: "bytes \<Rightarrow> bytes" where
  "p2sh_script h = [0xA9, 0x14] @ h @ [0x87]"

lemmas script_consts = OP_RETURN_OPCODE_def REGULAR_OUTPUT_SCRIPT_LEN_def
  REGULAR_OUTPUT_PREFIX_def REGULAR_OUTPUT_POSTFIX_def P2SH_OUTPUT_SCRIPT_LEN_def
  P2SH_OUTPUT_PREFIX_def P2SH_OUTPUT_POSTFIX_def TRANSPARENT_ADDRESS_OFFSET_def
  TRANSPARENT_ADDRESS_HASH_LEN_def

lemma split_script:
  assumes "length xs = a + b + c"
  shows "xs = take a xs @ take b (drop a xs) @ drop (a + b) xs"
  by (metis append_take_drop_id drop_drop add.commute)

lemma is_regular_iff:
  "output_script_is_regular s \<longleftrightarrow> (\<exists>h. length h = 20 \<and> s = p2pkh_script h)"
proof
  assume r: "output_script_is_regular s"
  then have len: "length s = 25" and pre: "take 3 s = [0x76, 0xA9, 0x14]"
    and post: "drop 23 s = [0x88, 0xAC]"
    by (auto simp: output_script_is_regular_def script_consts numeral_eq_Suc split: if_splits)
  have "s = take 3 s @ take 20 (drop 3 s) @ drop 23 s"
    using split_script [of s 3 20 2] len by simp
  with pre post have "s = p2pkh_script (take 20 (drop 3 s))" by (simp add: p2pkh_script_def)
  with len show "\<exists>h. length h = 20 \<and> s = p2pkh_script h"
    by (intro exI [of _ "take 20 (drop 3 s)"]) simp
next
  assume "\<exists>h. length h = 20 \<and> s = p2pkh_script h"
  then show "output_script_is_regular s"
    by (auto simp: output_script_is_regular_def p2pkh_script_def script_consts)
qed

lemma is_p2sh_iff: "output_script_is_p2sh s \<longleftrightarrow> (\<exists>h. length h = 20 \<and> s = p2sh_script h)"
proof
  assume r: "output_script_is_p2sh s"
  then have len: "length s = 23" and pre: "take 2 s = [0xA9, 0x14]" and post: "s ! 22 = 0x87"
    by (auto simp: output_script_is_p2sh_def script_consts numeral_eq_Suc split: if_splits)
  from len post have "drop 22 s = [0x87]"
    by (simp add: Cons_nth_drop_Suc [of 22 s, symmetric])
  moreover have "s = take 2 s @ take 20 (drop 2 s) @ drop 22 s"
    using split_script [of s 2 20 1] len by simp
  ultimately have "s = p2sh_script (take 20 (drop 2 s))" using pre by (simp add: p2sh_script_def)
  with len show "\<exists>h. length h = 20 \<and> s = p2sh_script h"
    by (intro exI [of _ "take 20 (drop 2 s)"]) simp
next
  assume "\<exists>h. length h = 20 \<and> s = p2sh_script h"
  then show "output_script_is_p2sh s"
    by (auto simp: output_script_is_p2sh_def p2sh_script_def script_consts nth_append)
qed

lemma script_first_byte:
  "\<not> output_script_is_op_return (p2pkh_script h)" "\<not> output_script_is_op_return (p2sh_script h)"
  by (simp_all add: output_script_is_op_return_def p2pkh_script_def p2sh_script_def script_consts)

lemma p2sh_not_regular:
  "length h = 20 \<Longrightarrow> \<not> output_script_is_regular (p2sh_script h)"
  by (simp add: output_script_is_regular_def p2sh_script_def script_consts)

lemma regular_not_p2sh:
  "length h = 20 \<Longrightarrow> \<not> output_script_is_p2sh (p2pkh_script h)"
  by (simp add: output_script_is_p2sh_def p2pkh_script_def script_consts)

lemma check_change_iff:
  "check_output_displayable s amount ch = CdChange \<longleftrightarrow>
     amount \<noteq> 0 \<and> (\<exists>h. length h = 20 \<and> ch = Some h \<and> s = p2pkh_script h)"
proof
  assume c: "check_output_displayable s amount ch = CdChange"
  then have "output_script_is_regular s" "amount \<noteq> 0"
    and ch: "ch = Some (take 20 (drop 3 s))"
    by (auto simp: check_output_displayable_def script_consts split: if_splits option.splits)
  then obtain h where "length h = 20" "s = p2pkh_script h" by (auto simp: is_regular_iff)
  with ch \<open>amount \<noteq> 0\<close> show "amount \<noteq> 0 \<and> (\<exists>h. length h = 20 \<and> ch = Some h \<and> s = p2pkh_script h)"
    by (auto simp: p2pkh_script_def)
next
  assume "amount \<noteq> 0 \<and> (\<exists>h. length h = 20 \<and> ch = Some h \<and> s = p2pkh_script h)"
  then obtain h where a: "amount \<noteq> 0" and h: "length h = 20" and c: "ch = Some h"
    and s: "s = p2pkh_script h" by blast
  have "output_script_is_regular s" using h s is_regular_iff by blast
  moreover have "take 20 (drop 3 s) = h" using h s by (simp add: p2pkh_script_def)
  moreover have "s \<noteq> []" using s by (simp add: p2pkh_script_def)
  ultimately show "check_output_displayable s amount ch = CdChange"
    using a c s script_first_byte(1) [of h] regular_not_p2sh [OF h]
    by (simp add: check_output_displayable_def script_consts)
qed

lemma check_p2sh:
  assumes "length h = 20"
  shows "check_output_displayable (p2sh_script h) amount ch = (if amount = 0 then CdNone else CdDisplayable)"
proof -
  have "output_script_is_p2sh (p2sh_script h)" using assms is_p2sh_iff by blast
  moreover have "p2sh_script h \<noteq> []" by (simp add: p2sh_script_def)
  ultimately show ?thesis
    using script_first_byte(2) by (simp add: check_output_displayable_def)
qed

lemma check_other:
  "\<not> output_script_is_p2sh s \<Longrightarrow> \<not> output_script_is_regular s \<Longrightarrow>
     check_output_displayable s amount ch = CdNone"
  by (simp add: check_output_displayable_def)

lemma check_regular:
  "output_script_is_regular s \<Longrightarrow> amount \<noteq> 0 \<Longrightarrow> check_output_displayable s amount ch \<noteq> CdNone"
  using script_first_byte(1) regular_not_p2sh
  by (auto simp: check_output_displayable_def is_regular_iff p2pkh_script_def)

lemma check_displayable_iff:
  "check_output_displayable s amount ch = CdDisplayable \<longleftrightarrow>
     amount \<noteq> 0 \<and> (\<exists>h. length h = 20 \<and>
        (s = p2sh_script h \<or> s = p2pkh_script h \<and> ch \<noteq> Some h))" (is "?L \<longleftrightarrow> ?R")
proof
  assume L: ?L
  then have a: "amount \<noteq> 0" by (auto simp: check_output_displayable_def split: if_splits)
  from L check_other [of s amount ch] have "output_script_is_p2sh s \<or> output_script_is_regular s"
    by auto
  then obtain h where h: "length h = 20" "s = p2sh_script h \<or> s = p2pkh_script h"
    by (auto simp: is_p2sh_iff is_regular_iff)
  have "\<not> (ch = Some h \<and> s = p2pkh_script h)"
    using L a h(1) check_change_iff [of s amount ch] by auto
  with a h show ?R by auto
next
  assume ?R
  then obtain h where a: "amount \<noteq> 0" and h: "length h = 20"
    and s: "s = p2sh_script h \<or> s = p2pkh_script h \<and> ch \<noteq> Some h" by blast
  show ?L
  proof (cases "s = p2sh_script h")
    case True
    with a check_p2sh [OF h] show ?thesis by simp
  next
    case False
    with s have s': "s = p2pkh_script h" and c: "ch \<noteq> Some h" by auto
    then have "output_script_is_regular s" using h is_regular_iff by blast
    then have "check_output_displayable s amount ch \<noteq> CdNone" using a by (rule check_regular)
    moreover have "check_output_displayable s amount ch \<noteq> CdChange"
      using s' c by (auto simp: check_change_iff p2pkh_script_def)
    ultimately show ?thesis using check_disp_output.exhaust by blast
  qed
qed

section \<open>Addresses\<close>

definition TRANSPARENT_ADDRESS_PREFIX :: bytes where "TRANSPARENT_ADDRESS_PREFIX = [0x1C, 0xB8]"
definition P2SH_ADDRESS_PREFIX :: bytes where "P2SH_ADDRESS_PREFIX = [0x1C, 0xBD]"
definition P2PKH_HASH_LEN :: nat where "P2PKH_HASH_LEN = 20"
definition OUTPUT_SCRIPT_ADDRESS_OFFSET :: nat where "OUTPUT_SCRIPT_ADDRESS_OFFSET = 3"
definition P2SH_OUTPUT_SCRIPT_HASH_OFFSET :: nat where "P2SH_OUTPUT_SCRIPT_HASH_OFFSET = 2"

definition output_script_to_transparent_payload :: "bytes \<Rightarrow> (app_sw, bytes) res" where
  "output_script_to_transparent_payload script =
     (if output_script_is_p2sh script then
        rbind (slice P2SH_OUTPUT_SCRIPT_HASH_OFFSET
                 (P2SH_OUTPUT_SCRIPT_HASH_OFFSET + P2PKH_HASH_LEN) script)
          (\<lambda>h. Inr (P2SH_ADDRESS_PREFIX @ h))
      else if output_script_is_op_return script \<or> \<not> output_script_is_regular script then
        err IncorrectData
      else
        rbind (slice OUTPUT_SCRIPT_ADDRESS_OFFSET (OUTPUT_SCRIPT_ADDRESS_OFFSET + P2PKH_HASH_LEN) script)
          (\<lambda>h. Inr (TRANSPARENT_ADDRESS_PREFIX @ h)))"

definition double_sha256_checksum :: "'z hash_env_scheme \<Rightarrow> bytes \<Rightarrow> (crypto_error, bytes) res" where
  "double_sha256_checksum E input =
     rbind (some_or_r (sha256_hash E input) Hash_Error) (\<lambda>o1.
     rbind (some_or_r (sha256_hash E o1) Hash_Error) (\<lambda>o2.
     slice 0 4 o2))"

definition base58check_transparent_address ::
  "'z hash_env_scheme \<Rightarrow> bytes \<Rightarrow> bytes \<Rightarrow> (crypto_error, string) res" where
  "base58check_transparent_address E prefix hash160 =
     rbind (double_sha256_checksum E (prefix @ hash160)) (\<lambda>checksum.
     some_or_r (bs58_encode E (prefix @ hash160 @ checksum)) Base58EncodeFailed)"

definition from_p2pkh_payload :: "'z hash_env_scheme \<Rightarrow> bytes \<Rightarrow> (app_sw, string) res" where
  "from_p2pkh_payload E payload =
     map_err_r map_ledger_crypto_error
       (base58check_transparent_address E (take 2 payload) (drop 2 payload))"

definition from_output_script :: "'z hash_env_scheme \<Rightarrow> bytes \<Rightarrow> (app_sw, string) res" where
  "from_output_script E script =
     rbind (output_script_to_transparent_payload script) (\<lambda>payload. from_p2pkh_payload E payload)"

definition from_public_key_hash :: "'z hash_env_scheme \<Rightarrow> bytes \<Rightarrow> (app_sw, string) res" where
  "from_public_key_hash E hash160 = from_p2pkh_payload E (TRANSPARENT_ADDRESS_PREFIX @ hash160)"

lemmas address_consts = TRANSPARENT_ADDRESS_PREFIX_def P2SH_ADDRESS_PREFIX_def P2PKH_HASH_LEN_def
  OUTPUT_SCRIPT_ADDRESS_OFFSET_def P2SH_OUTPUT_SCRIPT_HASH_OFFSET_def

lemma payload_of_scripts:
  assumes "length h = 20"
  shows "output_script_to_transparent_payload (p2pkh_script h) = Inr ([0x1C, 0xB8] @ h)"
    and "output_script_to_transparent_payload (p2sh_script h) = Inr ([0x1C, 0xBD] @ h)"
proof -
  have "output_script_is_regular (p2pkh_script h)" "output_script_is_p2sh (p2sh_script h)"
    using assms is_regular_iff is_p2sh_iff by blast+
  then show "output_script_to_transparent_payload (p2pkh_script h) = Inr ([0x1C, 0xB8] @ h)"
    and "output_script_to_transparent_payload (p2sh_script h) = Inr ([0x1C, 0xBD] @ h)"
    using assms regular_not_p2sh [OF assms] script_first_byte
    by (simp_all add: output_script_to_transparent_payload_def address_consts slice_def)
      (simp_all add: p2pkh_script_def p2sh_script_def)
qed

lemma payload_Inr_iff:
  "output_script_to_transparent_payload s = Inr p \<longleftrightarrow>
     (\<exists>h. length h = 20 \<and> (s = p2pkh_script h \<and> p = [0x1C, 0xB8] @ h
                        \<or> s = p2sh_script h \<and> p = [0x1C, 0xBD] @ h))"
proof
  assume a: "output_script_to_transparent_payload s = Inr p"
  then have "output_script_is_p2sh s \<or> output_script_is_regular s"
    by (auto simp: output_script_to_transparent_payload_def split: if_splits)
  then obtain h where "length h = 20" "s = p2pkh_script h \<or> s = p2sh_script h"
    by (auto simp: is_p2sh_iff is_regular_iff)
  with a payload_of_scripts [of h] show "\<exists>h. length h = 20 \<and> (s = p2pkh_script h \<and> p = [0x1C, 0xB8] @ h
                        \<or> s = p2sh_script h \<and> p = [0x1C, 0xBD] @ h)" by auto
qed (auto simp: payload_of_scripts)

lemma displayable_has_payload:
  assumes "check_output_displayable s amount ch \<noteq> CdNone"
  shows "\<exists>p. output_script_to_transparent_payload s = Inr p \<and> length p = 22"
proof -
  have "check_output_displayable s amount ch = CdChange
      \<or> check_output_displayable s amount ch = CdDisplayable"
    using assms check_disp_output.exhaust by blast
  then obtain h where "length h = 20" "s = p2pkh_script h \<or> s = p2sh_script h"
    by (auto simp: check_change_iff check_displayable_iff)
  then show ?thesis by (auto simp: payload_of_scripts)
qed

section \<open>Properties\<close>

text \<open>C17: The output classifier.  An output is hidden as change only when it is a non-zero P2PKH output
  paying exactly the declared change hash, so a P2SH output or an output without a declared change
  hash is never hidden; it is displayed exactly when it is a non-zero P2SH output or a non-zero P2PKH
  output paying another hash; everything else is refused.\<close>

theorem check_output_displayable_exact:
  "check_output_displayable s amount ch =
     (if amount \<noteq> 0 \<and> (\<exists>h. length h = 20 \<and> ch = Some h \<and> s = p2pkh_script h) then CdChange
      else if amount \<noteq> 0 \<and> (\<exists>h. length h = 20 \<and> (s = p2sh_script h \<or> s = p2pkh_script h)) then CdDisplayable
      else CdNone)"
proof (cases "check_output_displayable s amount ch")
  case CdNone
  then have "\<not> (amount \<noteq> 0 \<and> (\<exists>h. length h = 20 \<and> (s = p2sh_script h \<or> s = p2pkh_script h)))"
    using check_displayable_iff [of s amount ch] check_change_iff [of s amount ch] by auto
  with CdNone show ?thesis by auto
next
  case CdDisplayable
  then show ?thesis
    using check_displayable_iff [of s amount ch] check_change_iff [of s amount ch] by auto
next
  case CdChange
  then show ?thesis using check_change_iff [of s amount ch] by auto
qed

text \<open>C18: What is displayed identifies the script: every output the classifier lets through has an
  address payload, and two scripts with the same payload are the same script.\<close>

theorem displayed_address_identifies_script:
  assumes "check_output_displayable s1 amount1 ch1 \<noteq> CdNone"
    and "check_output_displayable s2 amount2 ch2 \<noteq> CdNone"
  shows "\<exists>p1 p2. output_script_to_transparent_payload s1 = Inr p1
    \<and> output_script_to_transparent_payload s2 = Inr p2 \<and> (p1 = p2 \<longleftrightarrow> s1 = s2)"
proof -
  obtain p1 p2 where p: "output_script_to_transparent_payload s1 = Inr p1"
      "output_script_to_transparent_payload s2 = Inr p2"
    using displayable_has_payload assms by blast
  then have "p1 = p2 \<longleftrightarrow> s1 = s2"
    by (auto simp: payload_Inr_iff p2pkh_script_def p2sh_script_def)
  with p show ?thesis by blast
qed

lemma displayed_address_identifies_script_witness:
  "\<exists>p1 p2. output_script_to_transparent_payload (p2pkh_script (replicate 20 7)) = Inr p1
    \<and> output_script_to_transparent_payload (p2sh_script (replicate 20 7)) = Inr p2
    \<and> (p1 = p2 \<longleftrightarrow> p2pkh_script (replicate 20 7) = p2sh_script (replicate 20 7))"
proof (rule displayed_address_identifies_script)
  have "output_script_is_regular (p2pkh_script (replicate 20 7))"
    unfolding is_regular_iff by (rule exI [of _ "replicate 20 7"]) simp
  then show "check_output_displayable (p2pkh_script (replicate 20 7)) 1 None \<noteq> CdNone"
    by (rule check_regular) simp
  show "check_output_displayable (p2sh_script (replicate 20 7)) 1 None \<noteq> CdNone"
    using check_p2sh [of "replicate 20 7" 1 None] by simp
qed

end
