(* ===== verification/Tx.thy ===== *)
theory Tx
  imports Bip32 Scripts
begin

text \<open>
  The data the application keeps between packets, as \<open>src/src/tx.rs\<close>, \<open>src/src/parser/pczt.rs\<close>
  and the legacy parsers declare it, and the operations of \<open>TxContext\<close> and \<open>TxInfo\<close>.  The record
  \<open>world\<close> is the whole machine state the handlers run on: the packet reader, \<open>TxContext\<close>, the
  command and response buffers, the counter of Orchard derivations, the count of service calls (the
  index into the nondeterministic services of the environment) and a log of what the user or the
  Exchange application approved and which signatures were computed.  The log is never read by the
  program.
\<close>

section \<open>Transaction data\<close>

record tx_output_memo =
  memo_label :: string
  memo_value :: string

datatype tx_pool = PoolTransparent | PoolOrchard

record tx_output =
  out_amount :: u64
  out_address :: string
  out_is_change :: bool
  out_memo :: "tx_output_memo option"
  out_pool :: tx_pool

definition memo_text :: "string \<Rightarrow> tx_output_memo" where
  "memo_text v = \<lparr> memo_label = ''memo'', memo_value = v \<rparr>"

definition memo_hash :: "string \<Rightarrow> tx_output_memo" where
  "memo_hash v = \<lparr> memo_label = ''memo hash'', memo_value = v \<rparr>"

datatype transfer_type =
  PublicToPublic | PublicToPrivate | PrivateToPublic | PrivateToPrivate | Mixed

definition classify :: "bool \<Rightarrow> bool \<Rightarrow> tx_output list \<Rightarrow> transfer_type" where
  "classify from_public from_private outputs =
     (let to_public = list_ex (\<lambda>o1. \<not> out_is_change o1 \<and> out_pool o1 = PoolTransparent) outputs;
          to_private = list_ex (\<lambda>o1. \<not> out_is_change o1 \<and> out_pool o1 = PoolOrchard) outputs
      in if (from_public \<and> from_private) \<or> (to_public \<and> to_private) then Mixed
         else if from_private then (if to_private then PrivateToPrivate else PrivateToPublic)
         else (if to_private then PublicToPrivate else PublicToPublic))"

fun subtitle :: "transfer_type \<Rightarrow> string" where
  "subtitle PublicToPublic = ''Public transfer''"
| "subtitle PublicToPrivate = ''Transfer from public to private address''"
| "subtitle PrivateToPublic = ''Transfer from private to public address''"
| "subtitle PrivateToPrivate = ''Private transfer''"
| "subtitle Mixed = ''Mixed pool transfer''"

record orchard_decipher_keys =
  dk_network :: network_type
  dk_internal_ivk :: bytes
  dk_external_ovk :: bytes

record hashers =
  prevouts_hasher :: blake2b_256
  sequence_hasher :: blake2b_256
  outputs_hasher :: blake2b_256
  amounts_hasher :: blake2b_256
  scripts_hasher :: blake2b_256
  orchard_hasher :: blake2b_256
  sapling_hasher :: blake2b_256
  tx_memo_hasher :: blake2b_256
  tx_compact_hasher :: blake2b_256
  tx_non_compact_hasher :: blake2b_256
  v4_tx_hasher :: bytes
  ironwood_hasher :: blake2b_256

definition hashers_default :: hashers where
  "hashers_default = \<lparr>
     prevouts_hasher = blake_default, sequence_hasher = blake_default,
     outputs_hasher = blake_default, amounts_hasher = blake_default,
     scripts_hasher = blake_default, orchard_hasher = blake_default,
     sapling_hasher = blake_default, tx_memo_hasher = blake_default,
     tx_compact_hasher = blake_default, tx_non_compact_hasher = blake_default,
     v4_tx_hasher = [], ironwood_hasher = blake_default \<rparr>"

abbreviation zeros :: "nat \<Rightarrow> bytes" where "zeros n \<equiv> replicate n 0"

text \<open>\<open>branch_id\<close> holds a \<open>BranchId\<close> by its 32-bit value.\<close>

record tx_info =
  tx_version :: "tx_version_t option"
  branch_id :: "u32 option"
  locktime :: u32
  sighash_type :: u8
  expiry_height :: u32
  total_amount :: u64
  fees :: u64
  outputs :: "tx_output list"
  retained_memo_bytes :: nat
  displayed_shielded_outputs :: nat
  is_change_found :: bool
  change_pk_hash :: "bytes option"
  change_account :: "u32 option"
  prevouts_hash :: bytes
  sequence_hash :: bytes
  outputs_hash :: bytes
  amounts_hash :: bytes
  scripts_hash :: bytes
  header_digest :: bytes
  orchard_digest :: bytes
  signature_digest :: bytes
  ironwood_digest :: bytes
  is_v6 :: bool
  info_has_ironwood_bundle :: bool
  branch_id_raw :: u32
  decipher_keys :: "orchard_decipher_keys option"

definition tx_info_default :: tx_info where
  "tx_info_default = \<lparr>
     tx_version = None, branch_id = None, locktime = 0, sighash_type = 0, expiry_height = 0,
     total_amount = 0, fees = 0, outputs = [], retained_memo_bytes = 0,
     displayed_shielded_outputs = 0, is_change_found = False, change_pk_hash = None,
     change_account = None, prevouts_hash = zeros 32, sequence_hash = zeros 32,
     outputs_hash = zeros 32, amounts_hash = zeros 32, scripts_hash = zeros 32,
     header_digest = zeros 32, orchard_digest = zeros 32, signature_digest = zeros 32,
     ironwood_digest = zeros 32, is_v6 = False, info_has_ironwood_bundle = False,
     branch_id_raw = 0, decipher_keys = None \<rparr>"

datatype supported_tx_version = SupV4 | SupV5 | SupV6

definition supported_tx_version :: "tx_info \<Rightarrow> (app_sw, supported_tx_version) res" where
  "supported_tx_version ti =
     (if is_v6 ti then Inr SupV6
      else case tx_version ti of
          None \<Rightarrow> Inl Panic
        | Some TxV4 \<Rightarrow> Inr SupV4
        | Some TxV5 \<Rightarrow> Inr SupV5
        | Some TxOtherVersion \<Rightarrow> Inl Panic)"

definition check_change_returns_to_signing_account ::
  "tx_info \<Rightarrow> bip32_path \<Rightarrow> (app_sw, unit) res" where
  "check_change_returns_to_signing_account ti p =
     (case change_account ti of
        None \<Rightarrow> Inr ()
      | Some acc \<Rightarrow>
          if derivation_account p \<noteq> Some acc then err ConditionsOfUseNotSatisfied else Inr ())"

record trusted_input_info =
  input_idx :: "u32 option"
  is_input_processed :: bool
  ti_amount :: u64
  ti_tx_id :: bytes

definition trusted_input_info_default :: trusted_input_info where
  "trusted_input_info_default =
     \<lparr> input_idx = None, is_input_processed = False, ti_amount = 0, ti_tx_id = zeros 32 \<rparr>"

record tx_signing_state =
  is_tx_parsed_once :: bool
  already_signed_input_count :: nat
  total_input_count :: nat

definition tx_signing_state_default :: tx_signing_state where
  "tx_signing_state_default =
     \<lparr> is_tx_parsed_once = False, already_signed_input_count = 0, total_input_count = 0 \<rparr>"

record pending_vk_response =
  vk_bytes :: bytes
  vk_offset :: nat

section \<open>The PCZT parser's data\<close>

datatype pczt_parser_state =
    WaitHeaderAndGlobal
  | WaitTransparentInputsCount
  | WaitTransparentInput
  | WaitTransparentInputScript
  | ProcessTransparentInputScript nat nat
  | WaitTransparentInputSighashType
  | WaitTransparentInputBip32Derivation
  | TransparentInputsDone
  | WaitTransparentOutput
  | WaitTransparentOutputScript
  | ProcessTransparentOutputScript nat nat
  | WaitTransparentOutputBip32Derivation
  | TransparentOutputsDone
  | WaitOrchardAction
  | WaitOrchardZip32Derivation
  | WaitOrchardOutput
  | WaitOrchardEncCiphertextLen
  | ProcessOrchardEncCiphertext
  | WaitOrchardOutCiphertextLen
  | ProcessOrchardOutCiphertext
  | WaitOrchardOutputMetadata
  | WaitOrchardTrailer
  | OrchardActionsDone
  | WaitIronwoodAction
  | WaitIronwoodZip32Derivation
  | WaitIronwoodOutput
  | WaitIronwoodEncCiphertextLen
  | ProcessIronwoodEncCiphertext
  | WaitIronwoodOutCiphertextLen
  | ProcessIronwoodOutCiphertext
  | WaitIronwoodOutputMetadata
  | WaitIronwoodTrailer
  | IronwoodActionsDone

record transparent_input_record =
  in_prevout :: bytes
  in_sequence :: u32
  in_amount :: bytes
  in_script_pubkey :: bytes
  in_path :: bip32_path
  in_signed :: bool

text \<open>Ironwood's signing records have the same type.\<close>

record action_signing_record =
  sr_alpha :: bytes
  sr_path :: bip32_path
  sr_is_real_spend :: bool
  sr_signed :: bool

record current_action_state =
  ca_flags :: u8
  ca_value_sum_magnitude :: u64
  ca_cv_net :: bytes
  ca_nullifier :: bytes
  ca_rk :: bytes
  ca_spend_value :: u64
  ca_spend_recipient :: bytes
  ca_spend_rho :: bytes
  ca_spend_rseed :: bytes
  ca_rcv :: "bytes option"
  ca_output_rseed :: "bytes option"
  ca_cmx :: bytes
  ca_ephemeral_key :: bytes
  ca_out_ciphertext :: "bytes option"
  ca_output_recipient :: bytes
  ca_output_value :: u64
  ca_enc_ciphertext :: bytes
  ca_alpha :: "bytes option"
  ca_path :: "bip32_path option"
  ca_fvk :: "bytes option"
  ca_note_plaintext_version :: u8

definition NOTE_VERSION_ORCHARD :: u8 where "NOTE_VERSION_ORCHARD = 0x02"
definition NOTE_VERSION_IRONWOOD :: u8 where "NOTE_VERSION_IRONWOOD = 0x03"
definition ORCHARD_RAW_ADDRESS_SIZE :: nat where "ORCHARD_RAW_ADDRESS_SIZE = 43"
definition PREVOUT_SIZE :: nat where "PREVOUT_SIZE = 32 + 4"

definition current_action_new :: current_action_state where
  "current_action_new = \<lparr>
     ca_flags = 0, ca_value_sum_magnitude = 0, ca_cv_net = zeros 32, ca_nullifier = zeros 32,
     ca_rk = zeros 32, ca_spend_value = 0, ca_spend_recipient = zeros ORCHARD_RAW_ADDRESS_SIZE,
     ca_spend_rho = zeros 32, ca_spend_rseed = zeros 32, ca_rcv = None, ca_output_rseed = None,
     ca_cmx = zeros 32, ca_ephemeral_key = zeros 32, ca_out_ciphertext = None,
     ca_output_recipient = zeros ORCHARD_RAW_ADDRESS_SIZE, ca_output_value = 0,
     ca_enc_ciphertext = [], ca_alpha = None, ca_path = None, ca_fvk = None,
     ca_note_plaintext_version = NOTE_VERSION_ORCHARD \<rparr>"

record pczt_transparent_part =
  pz_state :: pczt_parser_state
  transparent_input_count :: nat
  transparent_input_parsed_count :: nat
  transparent_inputs :: "transparent_input_record list"
  transparent_output_count :: nat
  transparent_output_parsed_count :: nat
  outputs_reviewed :: bool
  pczt_finished :: bool
  pczt_version :: u32
  current_input_prevout :: bytes
  current_input_sequence :: u32
  current_input_amount :: bytes
  current_input_script_pubkey :: bytes
  current_output_amount :: u64
  total_output_amount :: u64

record pczt_parser = pczt_transparent_part +
  orchard_action_count :: nat
  orchard_action_parsed_count :: nat
  orchard_signing_records :: "action_signing_record list"
  orchard_signed_action_count :: nat
  orchard_real_spend_count :: nat
  orchard_signature_digest :: "bytes option"
  orchard_value_balance :: int
  orchard_spend_value_sum :: u64
  orchard_output_value_sum :: u64
  current_action :: current_action_state
  orchard_spending_key :: "bytes option"
  orchard_spending_key_path :: "bip32_path option"
  is_v6_tx :: bool
  has_orchard_bundle :: bool
  has_ironwood_bundle :: bool
  ironwood_action_count :: nat
  ironwood_action_parsed_count :: nat
  ironwood_real_spend_count :: nat
  ironwood_signing_records :: "action_signing_record list"
  ironwood_signed_action_count :: nat
  ironwood_signature_digest :: "bytes option"
  ironwood_value_balance :: int
  ironwood_spend_value_sum :: u64
  ironwood_output_value_sum :: u64
  script_bytes :: bytes
  pool_field_bytes :: bytes

definition pczt_parser_new :: pczt_parser where
  "pczt_parser_new = \<lparr>
     pz_state = WaitHeaderAndGlobal, transparent_input_count = 0,
     transparent_input_parsed_count = 0, transparent_inputs = [], transparent_output_count = 0,
     transparent_output_parsed_count = 0, outputs_reviewed = False, pczt_finished = False,
     pczt_version = 0, current_input_prevout = zeros PREVOUT_SIZE, current_input_sequence = 0,
     current_input_amount = zeros 8, current_input_script_pubkey = [],
     current_output_amount = 0, total_output_amount = 0, orchard_action_count = 0,
     orchard_action_parsed_count = 0, orchard_signing_records = [],
     orchard_signed_action_count = 0, orchard_real_spend_count = 0,
     orchard_signature_digest = None, orchard_value_balance = 0, orchard_spend_value_sum = 0,
     orchard_output_value_sum = 0, current_action = current_action_new,
     orchard_spending_key = None, orchard_spending_key_path = None, is_v6_tx = False,
     has_orchard_bundle = False, has_ironwood_bundle = False, ironwood_action_count = 0,
     ironwood_action_parsed_count = 0, ironwood_real_spend_count = 0,
     ironwood_signing_records = [], ironwood_signed_action_count = 0,
     ironwood_signature_digest = None, ironwood_value_balance = 0,
     ironwood_spend_value_sum = 0, ironwood_output_value_sum = 0, script_bytes = [],
     pool_field_bytes = [] \<rparr>"

section \<open>The legacy parsers' data\<close>

datatype legacy_parser_mode = TrustedInput | Signature

datatype action_bundle = BundleOrchard | BundleIronwood

datatype legacy_parser_state =
    LgNone
  | LgWaitInput
  | LgProcessInputScript nat nat
  | LgInputHashingDone
  | LgWaitOutput
  | LgProcessOutputScript nat nat
  | LgOutputHashingDone
  | LgProcessSapling
  | LgProcessSaplingSpends "bytes option"
  | LgProcessSaplingSpendsHashing
  | LgProcessSaplingOutputsCompact
  | LgProcessSaplingOutputsMemo nat nat
  | LgProcessSaplingOutputsNonCompact
  | LgProcessSaplingOutputHashing
  | LgProcessActionsCompact action_bundle
  | LgProcessActionsMemo action_bundle nat nat
  | LgProcessActionsNonCompact action_bundle
  | LgProcessActionsHashing action_bundle
  | LgProcessExtra
  | LgTransactionParsed
  | LgTransactionPresignReady
  | LgTransactionReadyToSign

record legacy_parser =
  lg_mode :: legacy_parser_mode
  lg_state :: legacy_parser_state
  lg_input_count :: nat
  lg_input_parsed_count :: nat
  lg_output_count :: nat
  lg_output_parsed_count :: nat
  lg_sapling_spend_count :: nat
  lg_sapling_spend_parsed_count :: nat
  lg_sapling_output_count :: nat
  lg_sapling_output_parsed_count :: nat
  lg_orchard_action_count :: nat
  lg_ironwood_action_count :: nat
  lg_action_parsed_count :: nat
  lg_sapling_balance :: int
  lg_script_bytes :: bytes

definition legacy_parser_new :: "legacy_parser_mode \<Rightarrow> legacy_parser" where
  "legacy_parser_new mode = \<lparr>
     lg_mode = mode, lg_state = LgNone, lg_input_count = 0, lg_input_parsed_count = 0,
     lg_output_count = 0, lg_output_parsed_count = 0, lg_sapling_spend_count = 0,
     lg_sapling_spend_parsed_count = 0, lg_sapling_output_count = 0,
     lg_sapling_output_parsed_count = 0, lg_orchard_action_count = 0,
     lg_ironwood_action_count = 0, lg_action_parsed_count = 0, lg_sapling_balance = 0,
     lg_script_bytes = [] \<rparr>"

datatype legacy_output_parser_state =
    LoParsingNumberOfOutputs | LoParsingOutput | LoProcessOutputScript nat nat
  | LoOutputProcessingDone

record legacy_output_parser =
  lo_state :: legacy_output_parser_state
  lo_output_count :: nat
  lo_total_output_amount :: u64
  lo_output_parsed_count :: nat
  lo_current_output_amount :: u64
  lo_script_bytes :: bytes

definition legacy_output_parser_new :: legacy_output_parser where
  "legacy_output_parser_new = \<lparr>
     lo_state = LoParsingNumberOfOutputs, lo_output_count = 0, lo_total_output_amount = 0,
     lo_output_parsed_count = 0, lo_current_output_amount = 0, lo_script_bytes = [] \<rparr>"

section \<open>The context\<close>

text \<open>The fields of the SDK's \<open>CreateTxParams\<close> the application reads.\<close>

record create_tx_params =
  sp_amount :: bytes
  sp_fee_amount :: bytes
  sp_dest_address :: bytes
  sp_dest_address_len :: nat
  sp_dest_address_extra_id_len :: nat

record tx_context = reader_state +
  is_extra_header_data_set :: bool
  is_finished_flag :: bool
  tx_signing_state :: tx_signing_state
  tx_info :: tx_info
  trusted_input_info :: trusted_input_info
  hashers :: hashers
  legacy_parser :: legacy_parser
  pczt_parser :: pczt_parser
  legacy_output_parser :: legacy_output_parser
  vk_response :: "pending_vk_response option"
  is_vk_display_finished :: bool
  swap_params :: "create_tx_params option"
  has_released_signature :: bool

text \<open>What the device logs of its decisions and signatures.  A signature of the legacy protocol is
  counted, not indexed: its handler knows only how many it has released.\<close>

datatype key_pool = KeyTransparent | KeyOrchard | KeyIronwood | KeyLegacy

datatype event =
    Reviewed (rev_outputs: "tx_output list") (rev_fees: u64) (rev_transfer: transfer_type)
      (rev_locktime: u32) (rev_expiry: u32) (rev_approved: bool)
  | SwapChecked (sw_outputs: "tx_output list") (sw_fees: u64)
  | Signed (sig_pool: key_pool) (sig_index: nat) (sig_digest: bytes) (sig_path: bip32_path)

record world = tx_context +
  comm_data :: "bytes option"
  comm_out :: bytes
  orchard_derivations :: nat
  ticks :: nat
  events :: "event list"

type_synonym 'a papp = "(world, parser_error, 'a) sm"
type_synonym 'a happ = "(world, app_sw, 'a) sm"

definition reset_ctx :: "legacy_parser_mode \<Rightarrow> world \<Rightarrow> world" where
  "reset_ctx mode s = s\<lparr>
     is_extra_header_data_set := False, is_finished_flag := False,
     tx_signing_state := tx_signing_state_default, tx_info := tx_info_default,
     trusted_input_info := trusted_input_info_default, hashers := hashers_default,
     legacy_parser := legacy_parser_new mode, pczt_parser := pczt_parser_new,
     legacy_output_parser := legacy_output_parser_new, vk_response := None,
     is_vk_display_finished := False \<rparr>"

definition init_in_place :: "create_tx_params option \<Rightarrow> legacy_parser_mode \<Rightarrow> world \<Rightarrow> world" where
  "init_in_place params mode s = (reset_ctx mode s)\<lparr>
     swap_params := params, has_released_signature := False \<rparr>"

definition reset_for_new_transaction :: "legacy_parser_mode \<Rightarrow> unit happ" where
  "reset_for_new_transaction mode =
     bnd (gets (\<lambda>s. swap_params s \<noteq> None \<and> has_released_signature s)) (\<lambda>refuse.
     if refuse then throw BadState else modify (reset_ctx mode))"

definition note_signature_released :: "(world, 'e, unit) sm" where
  "note_signature_released = modify (\<lambda>s. s\<lparr> has_released_signature := True \<rparr>)"

definition set_finished :: "(world, 'e, unit) sm" where
  "set_finished = modify (\<lambda>s. s\<lparr> is_finished_flag := True \<rparr>)"

definition set_transaction_trusted_input_idx :: "u32 \<Rightarrow> (world, 'e, unit) sm" where
  "set_transaction_trusted_input_idx idx =
     modify (trusted_input_info_update (\<lambda>t. t\<lparr> input_idx := Some idx \<rparr>))"

definition set_extra_header_data :: "(world, 'e, unit) sm" where
  "set_extra_header_data = modify (\<lambda>s. s\<lparr> is_extra_header_data_set := True \<rparr>)"

section \<open>Access to the parts of the state\<close>

text \<open>Statements that update one part of the state, and the hashers as parts.\<close>

definition mod_p :: "(pczt_parser \<Rightarrow> pczt_parser) \<Rightarrow> (world, 'e, unit) sm" where
  "mod_p f = modify (pczt_parser_update f)"

definition mod_ca :: "(current_action_state \<Rightarrow> current_action_state) \<Rightarrow> (world, 'e, unit) sm" where
  "mod_ca f = mod_p (current_action_update f)"

definition mod_ti :: "(tx_info \<Rightarrow> tx_info) \<Rightarrow> (world, 'e, unit) sm" where
  "mod_ti f = modify (tx_info_update f)"

definition mod_h :: "(hashers \<Rightarrow> hashers) \<Rightarrow> (world, 'e, unit) sm" where
  "mod_h f = modify (hashers_update f)"

definition mod_ss :: "(tx_signing_state \<Rightarrow> tx_signing_state) \<Rightarrow> (world, 'e, unit) sm" where
  "mod_ss f = modify (tx_signing_state_update f)"

definition get_p :: "(pczt_parser \<Rightarrow> 'a) \<Rightarrow> (world, 'e, 'a) sm" where
  "get_p f = gets (\<lambda>s. f (pczt_parser s))"

definition get_ca :: "(current_action_state \<Rightarrow> 'a) \<Rightarrow> (world, 'e, 'a) sm" where
  "get_ca f = gets (\<lambda>s. f (current_action (pczt_parser s)))"

definition get_ti :: "(tx_info \<Rightarrow> 'a) \<Rightarrow> (world, 'e, 'a) sm" where
  "get_ti f = gets (\<lambda>s. f (tx_info s))"

definition set_state :: "pczt_parser_state \<Rightarrow> (world, 'e, unit) sm" where
  "set_state st = mod_p (\<lambda>p. p\<lparr> pz_state := st \<rparr>)"

text \<open>A hasher is named by its selector and its update function.\<close>

type_synonym hasher_ref =
  "(hashers \<Rightarrow> blake2b_256) \<times> ((blake2b_256 \<Rightarrow> blake2b_256) \<Rightarrow> hashers \<Rightarrow> hashers)"

abbreviation prevouts_h :: hasher_ref where "prevouts_h \<equiv> (prevouts_hasher, prevouts_hasher_update)"
abbreviation sequence_h :: hasher_ref where "sequence_h \<equiv> (sequence_hasher, sequence_hasher_update)"
abbreviation outputs_h :: hasher_ref where "outputs_h \<equiv> (outputs_hasher, outputs_hasher_update)"
abbreviation amounts_h :: hasher_ref where "amounts_h \<equiv> (amounts_hasher, amounts_hasher_update)"
abbreviation scripts_h :: hasher_ref where "scripts_h \<equiv> (scripts_hasher, scripts_hasher_update)"
abbreviation orchard_h :: hasher_ref where "orchard_h \<equiv> (orchard_hasher, orchard_hasher_update)"
abbreviation sapling_h :: hasher_ref where "sapling_h \<equiv> (sapling_hasher, sapling_hasher_update)"
abbreviation tx_memo_h :: hasher_ref where "tx_memo_h \<equiv> (tx_memo_hasher, tx_memo_hasher_update)"
abbreviation tx_compact_h :: hasher_ref where
  "tx_compact_h \<equiv> (tx_compact_hasher, tx_compact_hasher_update)"
abbreviation tx_non_compact_h :: hasher_ref where
  "tx_non_compact_h \<equiv> (tx_non_compact_hasher, tx_non_compact_hasher_update)"
abbreviation ironwood_h :: hasher_ref where "ironwood_h \<equiv> (ironwood_hasher, ironwood_hasher_update)"

definition h_init :: "env \<Rightarrow> hasher_ref \<Rightarrow> bytes \<Rightarrow> unit papp" where
  "h_init E r perso = bnd (lift_r (init_with_perso E perso)) (\<lambda>h. mod_h (snd r (\<lambda>_. h)))"

definition h_update :: "env \<Rightarrow> hasher_ref \<Rightarrow> bytes \<Rightarrow> unit papp" where
  "h_update E r bs = bnd (gets (\<lambda>s. fst r (hashers s))) (\<lambda>h.
     bnd (lift_r (blake_update E h bs)) (\<lambda>h'. mod_h (snd r (\<lambda>_. h'))))"

definition h_write :: "env \<Rightarrow> hasher_ref \<Rightarrow> bytes \<Rightarrow> unit papp" where
  "h_write E r bs = bnd (gets (\<lambda>s. fst r (hashers s))) (\<lambda>h.
     bnd (lift_r (blake_write E h bs)) (\<lambda>h'. mod_h (snd r (\<lambda>_. h'))))"

text \<open>\<open>finalize_and_log_hash\<close> without the log line; the SDK call is the same.\<close>

definition finalize_and_log_hash :: "env \<Rightarrow> hasher_ref \<Rightarrow> bytes papp" where
  "finalize_and_log_hash E r = bnd (gets (\<lambda>s. fst r (hashers s))) (\<lambda>h.
     bnd (lift_r (blake_finalize E h)) (\<lambda>(d, h').
     bnd (mod_h (snd r (\<lambda>_. h'))) (\<lambda>_. ret d)))"

text \<open>\<open>Vec::try_reserve_exact\<close> with the error the parsers map it to.\<close>

definition try_reserve_exact :: "env \<Rightarrow> nat \<Rightarrow> unit papp" where
  "try_reserve_exact E n = bnd (gets ticks) (\<lambda>t.
     bnd (modify (\<lambda>s. s\<lparr> ticks := ticks s + 1 \<rparr>)) (\<lambda>_.
     ensure (try_reserve_ok E t n) (Sw NotEnoughMemorySpace)))"

definition log_event :: "event \<Rightarrow> (world, 'e, unit) sm" where
  "log_event ev = modify (\<lambda>s. s\<lparr> events := events s @ [ev] \<rparr>)"

lemma update_fun_eq:
  "pczt_parser_update f s = s\<lparr> pczt_parser := f (pczt_parser s) \<rparr>"
  "tx_info_update g s = s\<lparr> tx_info := g (tx_info s) \<rparr>"
  "hashers_update h s = s\<lparr> hashers := h (hashers s) \<rparr>"
  for s :: world
  by (rule world.equality; simp)+

lemma current_action_update_eq:
  "current_action_update f p = p\<lparr> current_action := f (current_action p) \<rparr>" for p :: pczt_parser
  by (rule pczt_parser.equality) simp_all

lemma wp_access [wp_simps]:
  "wp (mod_p f) Q R s = Q () (s\<lparr> pczt_parser := f (pczt_parser s) \<rparr>)"
  "wp (mod_ca f1) Q R s =
     Q () (s\<lparr> pczt_parser := (pczt_parser s)\<lparr> current_action := f1 (current_action (pczt_parser s)) \<rparr> \<rparr>)"
  "wp (mod_ti f') Q R s = Q () (s\<lparr> tx_info := f' (tx_info s) \<rparr>)"
  "wp (mod_h g) Q R s = Q () (s\<lparr> hashers := g (hashers s) \<rparr>)"
  "wp (set_state st) Q R s = Q () (s\<lparr> pczt_parser := (pczt_parser s)\<lparr> pz_state := st \<rparr> \<rparr>)"
  unfolding mod_p_def mod_ca_def mod_ti_def mod_h_def set_state_def wp_modify
  by (simp_all only: update_fun_eq(1) [of f s]
      update_fun_eq(1) [of "current_action_update f1" s]
      update_fun_eq(1) [of "\<lambda>p. p\<lparr> pz_state := st \<rparr>" s]
      update_fun_eq(2) [of f' s] update_fun_eq(3) [of g s]
      current_action_update_eq [of f1 "pczt_parser s"])

lemma wp_mod_ss [wp_simps]:
  "wp (mod_ss f) Q R s = Q () (s\<lparr> tx_signing_state := f (tx_signing_state s) \<rparr>)"
proof -
  have "tx_signing_state_update f s = s\<lparr> tx_signing_state := f (tx_signing_state s) \<rparr>"
    by (rule world.equality) simp_all
  then show ?thesis by (simp only: mod_ss_def wp_modify)
qed

lemma wp_get [wp_simps]:
  "wp (get_p f) Q R s = Q (f (pczt_parser s)) s"
  "wp (get_ca f1) Q1 R s = Q1 (f1 (current_action (pczt_parser s))) s"
  "wp (get_ti f2) Q2 R s = Q2 (f2 (tx_info s)) s"
  by (simp_all add: get_p_def get_ca_def get_ti_def wp_simps)

lemma wp_h_init [wp_simps]:
  "length perso = 16 \<Longrightarrow> wp (h_init E r perso) Q R s =
     (if blake2b_init_ok E perso
      then Q () (s\<lparr> hashers := snd r (\<lambda>_. \<lparr> b_perso = perso, b_data = [], b_final = False \<rparr>) (hashers s) \<rparr>)
      else R (Fail Hash_Err) s)"
  by (simp add: h_init_def wp_simps init_with_perso_def err_def)

lemma wp_h_update [wp_simps]:
  "wp (h_update E r bs) Q R s =
     (if blake2b_update_ok E (fst r (hashers s)) bs
      then Q () (s\<lparr> hashers := snd r (\<lambda>_. (fst r (hashers s))\<lparr> b_data := b_data (fst r (hashers s)) @ bs \<rparr>) (hashers s) \<rparr>)
      else R (Fail Hash_Err) s)"
  by (simp add: h_update_def wp_simps blake_update_def err_def)

lemma wp_h_write [wp_simps]:
  "wp (h_write E r bs) Q R s =
     (if blake2b_update_ok E (fst r (hashers s)) bs
      then Q () (s\<lparr> hashers := snd r (\<lambda>_. (fst r (hashers s))\<lparr> b_data := b_data (fst r (hashers s)) @ bs \<rparr>) (hashers s) \<rparr>)
      else R (Fail Io) s)"
  by (simp add: h_write_def wp_simps blake_write_def err_def)

lemma wp_finalize_and_log_hash [wp_simps]:
  "wp (finalize_and_log_hash E r) Q R s =
     (if blake2b_final_ok E (fst r (hashers s))
      then Q (blake2b_256_digest E (fst r (hashers s)))
             (s\<lparr> hashers := snd r (\<lambda>_. (fst r (hashers s))\<lparr> b_final := True \<rparr>) (hashers s) \<rparr>)
      else R (Fail Hash_Err) s)"
  by (simp add: finalize_and_log_hash_def wp_simps blake_finalize_def err_def)

lemma wp_try_reserve_exact [wp_simps]:
  "wp (try_reserve_exact E n) Q R s =
     (if try_reserve_ok E (ticks s) n then Q () (s\<lparr> ticks := ticks s + 1 \<rparr>)
      else R (Fail (Sw NotEnoughMemorySpace)) (s\<lparr> ticks := ticks s + 1 \<rparr>))"
  by (simp add: try_reserve_exact_def wp_simps)

lemma wp_log_event [wp_simps]:
  "wp (log_event ev) Q R s = Q () (s\<lparr> events := events s @ [ev] \<rparr>)"
  by (simp add: log_event_def wp_simps)

lemma wp_ctx_ops [wp_simps]:
  "wp note_signature_released Q R s = Q () (s\<lparr> has_released_signature := True \<rparr>)"
  "wp set_finished Q R s = Q () (s\<lparr> is_finished_flag := True \<rparr>)"
  by (simp_all add: note_signature_released_def set_finished_def wp_simps)

end
