(* ===== verification/Review.thy ===== *)
theory Review
  imports Tx
begin

text \<open>
  The two ways a transaction is approved: the on-device review (\<open>src/src/app_ui/sign.rs\<close>), which
  builds the list of fields the user sees, and the cross-check against the Exchange application's
  request that replaces it in swap mode (\<open>check_swap_params\<close> of \<open>src/src/swap.rs\<close>).
\<close>

section \<open>Text\<close>

text \<open>A Rust \<open>str\<close> is the list of its UTF-8 bytes, as characters.\<close>

definition str_of_bytes :: "bytes \<Rightarrow> string" where
  "str_of_bytes bs = map (\<lambda>b. char_of (unat b)) bs"

definition utf8_cont :: "u8 \<Rightarrow> bool" where
  "utf8_cont b \<longleftrightarrow> 0x80 \<le> b \<and> b \<le> 0xBF"

definition utf8_two :: "u8 \<Rightarrow> u8 \<Rightarrow> bool" where
  "utf8_two a b \<longleftrightarrow> 0xC2 \<le> a \<and> a \<le> 0xDF \<and> utf8_cont b"

definition utf8_three :: "u8 \<Rightarrow> u8 \<Rightarrow> u8 \<Rightarrow> bool" where
  "utf8_three a b c \<longleftrightarrow> utf8_cont c \<and>
     (a = 0xE0 \<and> 0xA0 \<le> b \<and> b \<le> 0xBF
      \<or> (0xE1 \<le> a \<and> a \<le> 0xEC \<or> a = 0xEE \<or> a = 0xEF) \<and> utf8_cont b
      \<or> a = 0xED \<and> 0x80 \<le> b \<and> b \<le> 0x9F)"

definition utf8_four :: "u8 \<Rightarrow> u8 \<Rightarrow> u8 \<Rightarrow> u8 \<Rightarrow> bool" where
  "utf8_four a b c d \<longleftrightarrow> utf8_cont c \<and> utf8_cont d \<and>
     (a = 0xF0 \<and> 0x90 \<le> b \<and> b \<le> 0xBF
      \<or> 0xF1 \<le> a \<and> a \<le> 0xF3 \<and> utf8_cont b
      \<or> a = 0xF4 \<and> 0x80 \<le> b \<and> b \<le> 0x8F)"

text \<open>\<open>core::str::from_utf8\<close> succeeds exactly on well-formed UTF-8.\<close>

fun utf8_valid :: "bytes \<Rightarrow> bool" where
  "utf8_valid [] = True"
| "utf8_valid [a] = (a < 0x80)"
| "utf8_valid [a, b] = (if a < 0x80 then utf8_valid [b] else utf8_two a b)"
| "utf8_valid [a, b, c] =
     (if a < 0x80 then utf8_valid [b, c]
      else if utf8_two a b then utf8_valid [c] else utf8_three a b c)"
| "utf8_valid (a # b # c # d # r) =
     (if a < 0x80 then utf8_valid (b # c # d # r)
      else if utf8_two a b then utf8_valid (c # d # r)
      else if utf8_three a b c then utf8_valid (d # r)
      else if utf8_four a b c d then utf8_valid r else False)"

lemma ascii_utf8_valid: "(\<And>b. b \<in> set bs \<Longrightarrow> b < 0x80) \<Longrightarrow> utf8_valid bs"
  by (induction bs rule: utf8_valid.induct) auto

definition digit_char :: "nat \<Rightarrow> char" where
  "digit_char n = char_of (48 + n)"

fun dec_digits :: "nat \<Rightarrow> string" where
  "dec_digits n = (if n < 10 then [digit_char n] else dec_digits (n div 10) @ [digit_char (n mod 10)])"

declare dec_digits.simps [simp del]

text \<open>The format \<open>{:08}\<close>.\<close>

definition pad8 :: "string \<Rightarrow> string" where
  "pad8 s = replicate (8 - length s) (digit_char 0) @ s"

section \<open>The review screen\<close>

definition ZCASH_DECIMALS_DIV :: nat where "ZCASH_DECIMALS_DIV = 10 ^ 8"

definition format_zec_amount :: "u64 \<Rightarrow> string" where
  "format_zec_amount amount =
     dec_digits (unat amount div ZCASH_DECIMALS_DIV) @ ''.'' @
     pad8 (dec_digits (unat amount mod ZCASH_DECIMALS_DIV)) @ '' ZEC''"

text \<open>The fields of one displayed output, numbered from one.\<close>

definition output_fields :: "nat \<Rightarrow> tx_output \<Rightarrow> (string \<times> string) list" where
  "output_fields idx out =
     [(''Output #'' @ dec_digits idx @ '' amount'', format_zec_amount (out_amount out)),
      (''Output #'' @ dec_digits idx @ '' address'', out_address out)] @
     (case out_memo out of
        None \<Rightarrow> []
      | Some m \<Rightarrow> [(''Output #'' @ dec_digits idx @ '' '' @ memo_label m, memo_value m)])"

definition review_fields :: "tx_output list \<Rightarrow> u64 \<Rightarrow> u32 \<Rightarrow> u32 \<Rightarrow> (string \<times> string) list" where
  "review_fields outs fee lock expiry =
     concat (map (\<lambda>(i, out). output_fields (i + 1) out)
       (enumerate 0 (filter (\<lambda>out. \<not> out_is_change out) outs))) @
     [(''Fees'', format_zec_amount fee)] @
     (if lock \<noteq> 0 then [(''Lock time'', dec_digits (unat lock))] else []) @
     [(''Expiry height'', if expiry = 0 then ''Never expires'' else dec_digits (unat expiry))]"

definition ui_display_tx ::
  "env \<Rightarrow> tx_output list \<Rightarrow> u64 \<Rightarrow> transfer_type \<Rightarrow> u32 \<Rightarrow> u32 \<Rightarrow> (world, 'e, bool) sm" where
  "ui_display_tx E outs fee transfer lock expiry =
     bnd (gets ticks) (\<lambda>t.
     bnd (modify (\<lambda>s. s\<lparr> ticks := ticks s + 1 \<rparr>)) (\<lambda>_.
     let approved = review_show E t \<lparr> rs_subtitle = subtitle transfer,
                                      rs_fields = review_fields outs fee lock expiry \<rparr> in
     bnd (log_event (Reviewed outs fee transfer lock expiry approved)) (\<lambda>_.
     ret approved)))"

section \<open>The swap cross-check\<close>

definition check_swap_params :: "create_tx_params \<Rightarrow> tx_output list \<Rightarrow> u64 \<Rightarrow> (parser_error, unit) res"
  where
  "check_swap_params params outs fee =
     (if sp_dest_address_extra_id_len params \<noteq> 0
      then err (Swap_Error ErrorWrongDestination UnsupportedDestinationExtraId)
      else
        let external_outputs = filter (\<lambda>out. \<not> out_is_change out) outs in
        if length external_outputs \<noteq> 1
        then err (Swap_Error ErrorGeneric UnexpectedExternalOutputCount)
        else
          let output = external_outputs ! 0 in
          if length (sp_amount params) < 8 then Inl Panic
          else
            let start = length (sp_amount params) - 8 in
            if list_ex (\<lambda>b. b \<noteq> 0) (take start (sp_amount params))
            then err (Swap_Error ErrorWrongAmount AmountCastFail)
            else if out_amount output \<noteq> u64_from_be_bytes (drop start (sp_amount params))
            then err (Swap_Error ErrorWrongAmount SwapDefault)
            else if length (sp_fee_amount params) < 8 then Inl Panic
            else
              let start = length (sp_fee_amount params) - 8 in
              if list_ex (\<lambda>b. b \<noteq> 0) (take start (sp_fee_amount params))
              then err (Swap_Error ErrorWrongFees AmountCastFail)
              else if fee \<noteq> u64_from_be_bytes (drop start (sp_fee_amount params))
              then err (Swap_Error ErrorWrongFees SwapDefault)
              else rbind (slice 0 (sp_dest_address_len params) (sp_dest_address params)) (\<lambda>dest.
                if \<not> utf8_valid dest
                then err (Swap_Error ErrorWrongDestination DestinationDecodeFail)
                else if out_address output \<noteq> str_of_bytes dest
                then err (Swap_Error ErrorWrongDestination SwapDefault)
                else Inr ()))"

text \<open>The buffers of the SDK: sixteen bytes for each amount, and a destination within its buffer.\<close>

definition swap_params_wf :: "create_tx_params \<Rightarrow> bool" where
  "swap_params_wf params \<longleftrightarrow> length (sp_amount params) = 16 \<and> length (sp_fee_amount params) = 16
     \<and> sp_dest_address_len params \<le> length (sp_dest_address params)"

text \<open>What a transaction must be to match the Exchange's request, with the two amounts read as the
  128-bit numbers they are.\<close>

definition swap_matches :: "create_tx_params \<Rightarrow> tx_output list \<Rightarrow> u64 \<Rightarrow> bool" where
  "swap_matches params outs fee \<longleftrightarrow>
     sp_dest_address_extra_id_len params = 0
     \<and> (\<exists>out. filter (\<lambda>out. \<not> out_is_change out) outs = [out]
          \<and> nat_of_be (sp_amount params) = unat (out_amount out)
          \<and> utf8_valid (take (sp_dest_address_len params) (sp_dest_address params))
          \<and> out_address out = str_of_bytes (take (sp_dest_address_len params) (sp_dest_address params)))
     \<and> nat_of_be (sp_fee_amount params) = unat fee"

lemma nat_of_be_append: "nat_of_be (xs @ ys) = nat_of_be ys + 256 ^ length ys * nat_of_be xs"
  by (simp add: nat_of_be_def nat_of_le_append)

lemma nat_of_le_zero_iff: "nat_of_le bs = 0 \<longleftrightarrow> (\<forall>b \<in> set bs. b = 0)"
  by (induction bs) (auto simp: unat_0_iff)

lemma nat_of_be_zero_iff: "nat_of_be bs = 0 \<longleftrightarrow> (\<forall>b \<in> set bs. b = 0)"
  by (simp add: nat_of_be_def nat_of_le_zero_iff)

lemma be_amount_check:
  assumes "8 \<le> length bs"
  shows "(\<not> list_ex (\<lambda>b. b \<noteq> 0) (take (length bs - 8) bs)
       \<and> v = u64_from_be_bytes (drop (length bs - 8) bs)) \<longleftrightarrow> nat_of_be bs = unat v"
proof -
  let ?hi = "take (length bs - 8) bs" and ?lo = "drop (length bs - 8) bs"
  have lo: "length ?lo = 8" using assms by simp
  have lob: "nat_of_be ?lo < 2 ^ 64"
    using nat_of_le_bound [of "rev ?lo"] lo by (simp add: nat_of_be_def)
  have split: "nat_of_be bs = nat_of_be ?lo + 2 ^ 64 * nat_of_be ?hi"
    using nat_of_be_append [of ?hi ?lo] lo by simp
  have hi: "\<not> list_ex (\<lambda>b. b \<noteq> 0) ?hi \<longleftrightarrow> nat_of_be ?hi = 0"
    by (auto simp: nat_of_be_zero_iff list_ex_iff)
  have w: "unat (u64_from_be_bytes ?lo) = nat_of_be ?lo"
    using lob by (simp add: u64_from_be_bytes_def unat_of_nat)
  have v: "unat v < 2 ^ 64" using unsigned_less [of v] by simp
  show ?thesis
  proof
    assume "\<not> list_ex (\<lambda>b. b \<noteq> 0) ?hi \<and> v = u64_from_be_bytes ?lo"
    with hi w split show "nat_of_be bs = unat v" by simp
  next
    assume e: "nat_of_be bs = unat v"
    have z: "nat_of_be ?hi = 0"
    proof (rule ccontr)
      assume "nat_of_be ?hi \<noteq> 0"
      then have "2 ^ 64 * 1 \<le> 2 ^ 64 * nat_of_be ?hi" by (intro mult_le_mono2) simp
      with split e v show False by linarith
    qed
    with split e w have "unat v = unat (u64_from_be_bytes ?lo)" by simp
    with z hi show "\<not> list_ex (\<lambda>b. b \<noteq> 0) ?hi \<and> v = u64_from_be_bytes ?lo"
      by (simp add: word_unat_eq_iff)
  qed
qed

lemma check_swap_params_no_panic:
  "swap_params_wf params \<Longrightarrow> check_swap_params params outs fee \<noteq> Inl Panic
     \<and> check_swap_params params outs fee \<noteq> Inl Diverge"
  by (auto simp: check_swap_params_def swap_params_wf_def Let_def slice_def err_def)

lemma check_swap_params_char:
  assumes "swap_params_wf params"
  shows "check_swap_params params outs fee = Inr () \<longleftrightarrow> swap_matches params outs fee"
proof -
  have a: "8 \<le> length (sp_amount params)" "8 \<le> length (sp_fee_amount params)"
    using assms by (simp_all add: swap_params_wf_def)
  have d: "slice 0 (sp_dest_address_len params) (sp_dest_address params)
      = Inr (take (sp_dest_address_len params) (sp_dest_address params))"
    using assms by (simp add: swap_params_wf_def slice_def)
  have one: "length xs = 1 \<longleftrightarrow> (\<exists>x. xs = [x])" for xs :: "tx_output list"
    by (auto simp: length_Suc_conv)
  have "check_swap_params params outs fee = Inr () \<longleftrightarrow>
      sp_dest_address_extra_id_len params = 0
      \<and> length (filter (\<lambda>out. \<not> out_is_change out) outs) = 1
      \<and> (\<not> list_ex (\<lambda>b. b \<noteq> 0) (take (length (sp_amount params) - 8) (sp_amount params))
         \<and> out_amount (filter (\<lambda>out. \<not> out_is_change out) outs ! 0)
             = u64_from_be_bytes (drop (length (sp_amount params) - 8) (sp_amount params)))
      \<and> (\<not> list_ex (\<lambda>b. b \<noteq> 0) (take (length (sp_fee_amount params) - 8) (sp_fee_amount params))
         \<and> fee = u64_from_be_bytes (drop (length (sp_fee_amount params) - 8) (sp_fee_amount params)))
      \<and> utf8_valid (take (sp_dest_address_len params) (sp_dest_address params))
      \<and> out_address (filter (\<lambda>out. \<not> out_is_change out) outs ! 0)
          = str_of_bytes (take (sp_dest_address_len params) (sp_dest_address params))"
    using a by (simp add: check_swap_params_def Let_def d not_less)
  then show ?thesis
    unfolding be_amount_check [OF a(1)] be_amount_check [OF a(2)] one swap_matches_def by auto
qed

lemma wp_ui_display_tx [wp_simps]:
  "wp (ui_display_tx E outs fee tt lock expiry) Q R s =
     (let ok = review_show E (ticks s) \<lparr> rs_subtitle = subtitle tt,
                                         rs_fields = review_fields outs fee lock expiry \<rparr>
      in Q ok (s\<lparr> ticks := ticks s + 1,
                  events := events s @ [Reviewed outs fee tt lock expiry ok] \<rparr>))"
  by (simp add: ui_display_tx_def wp_simps Let_def)

section \<open>Properties\<close>

text \<open>C21: The swap cross-check accepts a transaction exactly when it is the one the Exchange asked for:
  no extra identifier, a single external output paying the destination, and its amount and the fee
  equal to the requested ones as the 128-bit numbers they are sent as (so no truncation to 64 bits).\<close>

theorem check_swap_params_exact:
  assumes "swap_params_wf params"
  shows "check_swap_params params outs fee = Inr () \<longleftrightarrow> swap_matches params outs fee"
  using assms by (rule check_swap_params_char)

lemma check_swap_params_exact_witness:
  "check_swap_params \<lparr> sp_amount = replicate 15 0 @ [9], sp_fee_amount = replicate 15 0 @ [2],
       sp_dest_address = [0x74, 0x31, 0, 0], sp_dest_address_len = 2,
       sp_dest_address_extra_id_len = 0 \<rparr>
     [\<lparr> out_amount = 9, out_address = ''t1'', out_is_change = False, out_memo = None,
        out_pool = PoolTransparent \<rparr>] 2 = Inr ()
   \<longleftrightarrow> swap_matches \<lparr> sp_amount = replicate 15 0 @ [9], sp_fee_amount = replicate 15 0 @ [2],
       sp_dest_address = [0x74, 0x31, 0, 0], sp_dest_address_len = 2,
       sp_dest_address_extra_id_len = 0 \<rparr>
     [\<lparr> out_amount = 9, out_address = ''t1'', out_is_change = False, out_memo = None,
        out_pool = PoolTransparent \<rparr>] 2"
  by (rule check_swap_params_exact) (simp add: swap_params_wf_def)

end
