(* ===== verification/Compute.thy ===== *)
theory Compute
  imports Review
begin

text \<open>
  The signature digests of \<open>src/src/parser/compute.rs\<close> with the personalization strings of
  \<open>src/src/parser/personalization.rs\<close> (and, for Orchard, of the vendored
  \<open>orchard/src/bundle/commitments.rs\<close>).  The specification is the digest tree of ZIP-244 (S.1 to
  S.2, T.1) and ZIP-229 for version 6, written as one nested expression over the fields of
  \<open>TxInfo\<close>; the lemmas show that the code computes exactly that tree whenever it succeeds.
\<close>

section \<open>Personalization\<close>

definition str_bytes :: "string \<Rightarrow> bytes" where
  "str_bytes s = map (\<lambda>c. word_of_nat (of_char c)) s"

definition ZCASH_TX_PERSONALIZATION_PREFIX :: bytes where
  "ZCASH_TX_PERSONALIZATION_PREFIX = str_bytes ''ZcashTxHash_''"
definition ZCASH_HEADERS_HASH_PERSONALIZATION :: bytes where
  "ZCASH_HEADERS_HASH_PERSONALIZATION = str_bytes ''ZTxIdHeadersHash''"
definition ZCASH_TRANSPARENT_HASH_PERSONALIZATION :: bytes where
  "ZCASH_TRANSPARENT_HASH_PERSONALIZATION = str_bytes ''ZTxIdTranspaHash''"
definition ZCASH_SAPLING_HASH_PERSONALIZATION :: bytes where
  "ZCASH_SAPLING_HASH_PERSONALIZATION = str_bytes ''ZTxIdSaplingHash''"
definition ZCASH_PREVOUTS_HASH_PERSONALIZATION :: bytes where
  "ZCASH_PREVOUTS_HASH_PERSONALIZATION = str_bytes ''ZTxIdPrevoutHash''"
definition ZCASH_SEQUENCE_HASH_PERSONALIZATION :: bytes where
  "ZCASH_SEQUENCE_HASH_PERSONALIZATION = str_bytes ''ZTxIdSequencHash''"
definition ZCASH_OUTPUTS_HASH_PERSONALIZATION :: bytes where
  "ZCASH_OUTPUTS_HASH_PERSONALIZATION = str_bytes ''ZTxIdOutputsHash''"
definition ZCASH_TRANSPARENT_INPUT_HASH_PERSONALIZATION :: bytes where
  "ZCASH_TRANSPARENT_INPUT_HASH_PERSONALIZATION = str_bytes ''Zcash___TxInHash''"
definition ZCASH_TRANSPARENT_AMOUNTS_HASH_PERSONALIZATION :: bytes where
  "ZCASH_TRANSPARENT_AMOUNTS_HASH_PERSONALIZATION = str_bytes ''ZTxTrAmountsHash''"
definition ZCASH_TRANSPARENT_SCRIPTS_HASH_PERSONALIZATION :: bytes where
  "ZCASH_TRANSPARENT_SCRIPTS_HASH_PERSONALIZATION = str_bytes ''ZTxTrScriptsHash''"
definition ZCASH_ORCHARD_V5_HASH_PERSONALIZATION :: bytes where
  "ZCASH_ORCHARD_V5_HASH_PERSONALIZATION = str_bytes ''ZTxIdOrchardHash''"
definition ZCASH_ORCHARD_HASH_PERSONALIZATION_V6 :: bytes where
  "ZCASH_ORCHARD_HASH_PERSONALIZATION_V6 = str_bytes ''ZTxIdOrchardH_v6''"
definition ZCASH_ORCHARD_ACTIONS_COMPACT_HASH_PERSONALIZATION :: bytes where
  "ZCASH_ORCHARD_ACTIONS_COMPACT_HASH_PERSONALIZATION = str_bytes ''ZTxIdOrcActCHash''"
definition ZCASH_ORCHARD_ACTIONS_MEMOS_HASH_PERSONALIZATION :: bytes where
  "ZCASH_ORCHARD_ACTIONS_MEMOS_HASH_PERSONALIZATION = str_bytes ''ZTxIdOrcActMHash''"
definition ZCASH_ORCHARD_ACTIONS_NONCOMPACT_HASH_PERSONALIZATION :: bytes where
  "ZCASH_ORCHARD_ACTIONS_NONCOMPACT_HASH_PERSONALIZATION = str_bytes ''ZTxIdOrcActNHash''"
definition ZCASH_IRONWOOD_HASH_PERSONALIZATION :: bytes where
  "ZCASH_IRONWOOD_HASH_PERSONALIZATION = str_bytes ''ZTxIdIronwd_H_v6''"
definition ZCASH_IRONWOOD_ACTIONS_COMPACT_HASH_PERSONALIZATION :: bytes where
  "ZCASH_IRONWOOD_ACTIONS_COMPACT_HASH_PERSONALIZATION = str_bytes ''ZTxIdIrnActCH_v6''"
definition ZCASH_IRONWOOD_ACTIONS_MEMOS_HASH_PERSONALIZATION :: bytes where
  "ZCASH_IRONWOOD_ACTIONS_MEMOS_HASH_PERSONALIZATION = str_bytes ''ZTxIdIrnActMH_v6''"
definition ZCASH_IRONWOOD_ACTIONS_NONCOMPACT_HASH_PERSONALIZATION :: bytes where
  "ZCASH_IRONWOOD_ACTIONS_NONCOMPACT_HASH_PERSONALIZATION = str_bytes ''ZTxIdIrnActNH_v6''"

lemmas perso_defs = ZCASH_TX_PERSONALIZATION_PREFIX_def ZCASH_HEADERS_HASH_PERSONALIZATION_def
  ZCASH_TRANSPARENT_HASH_PERSONALIZATION_def ZCASH_SAPLING_HASH_PERSONALIZATION_def
  ZCASH_PREVOUTS_HASH_PERSONALIZATION_def ZCASH_SEQUENCE_HASH_PERSONALIZATION_def
  ZCASH_OUTPUTS_HASH_PERSONALIZATION_def ZCASH_TRANSPARENT_INPUT_HASH_PERSONALIZATION_def
  ZCASH_TRANSPARENT_AMOUNTS_HASH_PERSONALIZATION_def
  ZCASH_TRANSPARENT_SCRIPTS_HASH_PERSONALIZATION_def ZCASH_ORCHARD_V5_HASH_PERSONALIZATION_def
  ZCASH_ORCHARD_HASH_PERSONALIZATION_V6_def ZCASH_ORCHARD_ACTIONS_COMPACT_HASH_PERSONALIZATION_def
  ZCASH_ORCHARD_ACTIONS_MEMOS_HASH_PERSONALIZATION_def
  ZCASH_ORCHARD_ACTIONS_NONCOMPACT_HASH_PERSONALIZATION_def
  ZCASH_IRONWOOD_HASH_PERSONALIZATION_def ZCASH_IRONWOOD_ACTIONS_COMPACT_HASH_PERSONALIZATION_def
  ZCASH_IRONWOOD_ACTIONS_MEMOS_HASH_PERSONALIZATION_def
  ZCASH_IRONWOOD_ACTIONS_NONCOMPACT_HASH_PERSONALIZATION_def

lemma perso_lengths [simp]:
  "length ZCASH_TX_PERSONALIZATION_PREFIX = 12"
  "length ZCASH_HEADERS_HASH_PERSONALIZATION = 16"
  "length ZCASH_TRANSPARENT_HASH_PERSONALIZATION = 16"
  "length ZCASH_SAPLING_HASH_PERSONALIZATION = 16"
  "length ZCASH_PREVOUTS_HASH_PERSONALIZATION = 16"
  "length ZCASH_SEQUENCE_HASH_PERSONALIZATION = 16"
  "length ZCASH_OUTPUTS_HASH_PERSONALIZATION = 16"
  "length ZCASH_TRANSPARENT_INPUT_HASH_PERSONALIZATION = 16"
  "length ZCASH_TRANSPARENT_AMOUNTS_HASH_PERSONALIZATION = 16"
  "length ZCASH_TRANSPARENT_SCRIPTS_HASH_PERSONALIZATION = 16"
  "length ZCASH_ORCHARD_V5_HASH_PERSONALIZATION = 16"
  "length ZCASH_ORCHARD_HASH_PERSONALIZATION_V6 = 16"
  "length ZCASH_ORCHARD_ACTIONS_COMPACT_HASH_PERSONALIZATION = 16"
  "length ZCASH_ORCHARD_ACTIONS_MEMOS_HASH_PERSONALIZATION = 16"
  "length ZCASH_ORCHARD_ACTIONS_NONCOMPACT_HASH_PERSONALIZATION = 16"
  "length ZCASH_IRONWOOD_HASH_PERSONALIZATION = 16"
  "length ZCASH_IRONWOOD_ACTIONS_COMPACT_HASH_PERSONALIZATION = 16"
  "length ZCASH_IRONWOOD_ACTIONS_MEMOS_HASH_PERSONALIZATION = 16"
  "length ZCASH_IRONWOOD_ACTIONS_NONCOMPACT_HASH_PERSONALIZATION = 16"
  by (simp_all add: perso_defs str_bytes_def)

text \<open>The hashers of a version 5 transaction (\<open>Hashers::init_v5_tx_hashers\<close> of \<open>tx.rs\<close>).\<close>

definition init_v5_tx_hashers :: "env \<Rightarrow> unit papp" where
  "init_v5_tx_hashers E = seqs [
     h_init E prevouts_h ZCASH_PREVOUTS_HASH_PERSONALIZATION,
     h_init E sequence_h ZCASH_SEQUENCE_HASH_PERSONALIZATION,
     h_init E outputs_h ZCASH_OUTPUTS_HASH_PERSONALIZATION,
     h_init E amounts_h ZCASH_TRANSPARENT_AMOUNTS_HASH_PERSONALIZATION,
     h_init E scripts_h ZCASH_TRANSPARENT_SCRIPTS_HASH_PERSONALIZATION,
     h_init E sapling_h ZCASH_SAPLING_HASH_PERSONALIZATION,
     h_init E orchard_h ZCASH_ORCHARD_V5_HASH_PERSONALIZATION,
     h_init E ironwood_h ZCASH_IRONWOOD_HASH_PERSONALIZATION]"

section \<open>The code\<close>

definition empty_digest :: "env \<Rightarrow> bytes \<Rightarrow> (parser_error, bytes) res" where
  "empty_digest E personalization = blake_hash E personalization []"

definition empty_txin_signature_digest :: "env \<Rightarrow> (parser_error, bytes) res" where
  "empty_txin_signature_digest E = empty_digest E ZCASH_TRANSPARENT_INPUT_HASH_PERSONALIZATION"

datatype sighash_compute_mode =
    NoTransparentInputsOrOutputs
  | NoTransparentInputs
  | SomeTransparentInputs (txin_sig_digest: bytes)

text \<open>\<open>write_transparent_script\<close> through a hasher's writer: the size, then the script.\<close>

definition write_transparent_script :: "env \<Rightarrow> hasher_ref \<Rightarrow> bytes \<Rightarrow> unit papp" where
  "write_transparent_script E r script_pubkey = seqs [
     h_write E r (compact_size_write E (length script_pubkey)),
     h_write E r script_pubkey]"

definition write_script_local :: "env \<Rightarrow> blake2b_256 \<Rightarrow> bytes \<Rightarrow> (parser_error, blake2b_256) res" where
  "write_script_local E h script_pubkey =
     rbind (blake_write E h (compact_size_write E (length script_pubkey))) (\<lambda>h'.
     blake_write E h' script_pubkey)"

definition transparent_input_txin_signature_digest ::
  "env \<Rightarrow> bytes \<Rightarrow> bytes \<Rightarrow> bytes \<Rightarrow> u32 \<Rightarrow> (parser_error, bytes) res" where
  "transparent_input_txin_signature_digest E prevout amount script_pubkey sequence =
     rbind (init_with_perso E ZCASH_TRANSPARENT_INPUT_HASH_PERSONALIZATION) (\<lambda>h.
     rbind (blake_updates E h [prevout, amount]) (\<lambda>h.
     rbind (write_script_local E h script_pubkey) (\<lambda>h.
     rbind (blake_update E h (u32_to_le_bytes sequence)) (\<lambda>h.
     rbind (blake_finalize E h) (\<lambda>(d, _). Inr d)))))"

definition compute_header_digest :: "env \<Rightarrow> unit papp" where
  "compute_header_digest E = bnd (gets tx_info) (\<lambda>ti.
     case (tx_version ti, branch_id ti) of
       (Some version, Some branch) \<Rightarrow>
         bnd (lift_r (
           rbind (init_with_perso E ZCASH_HEADERS_HASH_PERSONALIZATION) (\<lambda>h.
           rbind (if is_v6 ti
                  then blake_updates E h [u32_to_le_bytes (V6_TX_VERSION OR OVERWINTERED_FLAG),
                                          u32_to_le_bytes V6_VERSION_GROUP_ID,
                                          u32_to_le_bytes (branch_id_raw ti)]
                  else rbind (blake_write E h (tx_version_write E version)) (\<lambda>h.
                       blake_update E h (u32_to_le_bytes branch))) (\<lambda>h.
           rbind (blake_updates E h [u32_to_le_bytes (locktime ti), u32_to_le_bytes (expiry_height ti)]) (\<lambda>h.
           rbind (blake_finalize E h) (\<lambda>(d, _). Inr d)))))) (\<lambda>d.
         mod_ti (\<lambda>t. t\<lparr> header_digest := d \<rparr>))
     | _ \<Rightarrow> panic)"

definition transparent_signature_digest ::
  "env \<Rightarrow> tx_info \<Rightarrow> sighash_compute_mode \<Rightarrow> u8 \<Rightarrow> (parser_error, bytes) res" where
  "transparent_signature_digest E ti mode sighash =
     blake_hash E ZCASH_TRANSPARENT_HASH_PERSONALIZATION
       (case mode of
          NoTransparentInputsOrOutputs \<Rightarrow> []
        | NoTransparentInputs \<Rightarrow> [prevouts_hash ti, sequence_hash ti, outputs_hash ti]
        | SomeTransparentInputs digest \<Rightarrow>
            [[sighash], prevouts_hash ti, amounts_hash ti, scripts_hash ti, sequence_hash ti,
             outputs_hash ti, digest])"

definition finalize_signature_hash_from_transparent_digest :: "env \<Rightarrow> bytes \<Rightarrow> unit papp" where
  "finalize_signature_hash_from_transparent_digest E transparent_digest =
     bnd (gets tx_info) (\<lambda>ti.
     case branch_id ti of
       None \<Rightarrow> panic
     | Some branch \<Rightarrow>
         bnd (lift_r (empty_digest E ZCASH_SAPLING_HASH_PERSONALIZATION)) (\<lambda>sapling_digest.
         bnd (lift_r (if orchard_digest ti = zeros 32
                      then empty_digest E (if is_v6 ti then ZCASH_ORCHARD_HASH_PERSONALIZATION_V6
                                           else ZCASH_ORCHARD_V5_HASH_PERSONALIZATION)
                      else Inr (orchard_digest ti))) (\<lambda>orchard.
         let personalization = ZCASH_TX_PERSONALIZATION_PREFIX @ u32_to_le_bytes branch in
         bnd (lift_r (
           rbind (init_with_perso E personalization) (\<lambda>h.
           rbind (blake_updates E h [header_digest ti, transparent_digest, sapling_digest, orchard]) (\<lambda>h.
           rbind (if is_v6 ti
                  then rbind (if info_has_ironwood_bundle ti then Inr (ironwood_digest ti)
                              else empty_digest E ZCASH_IRONWOOD_HASH_PERSONALIZATION) (\<lambda>ironwood.
                       blake_update E h ironwood)
                  else Inr h) (\<lambda>h.
           rbind (blake_finalize E h) (\<lambda>(d, _). Inr d)))))) (\<lambda>d.
         mod_ti (\<lambda>t. t\<lparr> signature_digest := d \<rparr>)))))"

definition finalize_signature_hash :: "env \<Rightarrow> sighash_compute_mode \<Rightarrow> u8 \<Rightarrow> unit papp" where
  "finalize_signature_hash E mode sighash =
     bnd (compute_header_digest E) (\<lambda>_.
     bnd (gets tx_info) (\<lambda>ti.
     bnd (lift_r (transparent_signature_digest E ti mode sighash)) (\<lambda>transparent_digest.
     finalize_signature_hash_from_transparent_digest E transparent_digest)))"

definition compute_no_transparent_input_signature_digest :: "env \<Rightarrow> nat \<Rightarrow> u8 \<Rightarrow> unit papp" where
  "compute_no_transparent_input_signature_digest E output_count sighash =
     bnd (mod_ti (\<lambda>t. t\<lparr> sighash_type := sighash \<rparr>)) (\<lambda>_.
     finalize_signature_hash E
       (if output_count = 0 then NoTransparentInputsOrOutputs else NoTransparentInputs) sighash)"

definition compute_transparent_input_signature_digest :: "env \<Rightarrow> bytes \<Rightarrow> u8 \<Rightarrow> unit papp" where
  "compute_transparent_input_signature_digest E digest sighash =
     bnd (mod_ti (\<lambda>t. t\<lparr> sighash_type := sighash \<rparr>)) (\<lambda>_.
     finalize_signature_hash E (SomeTransparentInputs digest) sighash)"

definition compute_shielded_signature_digest :: "env \<Rightarrow> nat \<Rightarrow> nat \<Rightarrow> unit papp" where
  "compute_shielded_signature_digest E input_count output_count =
     (if input_count = 0
      then compute_no_transparent_input_signature_digest E output_count SIGHASH_ALL
      else bnd (lift_r (empty_txin_signature_digest E)) (\<lambda>digest.
           compute_transparent_input_signature_digest E digest SIGHASH_ALL))"

section \<open>The specification: the ZIP-244 signature digest\<close>

definition zip244_header :: "env \<Rightarrow> tx_info \<Rightarrow> bytes" where
  "zip244_header E ti = blake_of E ZCASH_HEADERS_HASH_PERSONALIZATION
     ((if is_v6 ti
       then u32_to_le_bytes 0x80000006 @ u32_to_le_bytes 0xD884B698 @ u32_to_le_bytes (branch_id_raw ti)
       else tx_version_write E (the (tx_version ti)) @ u32_to_le_bytes (the (branch_id ti)))
      @ u32_to_le_bytes (locktime ti) @ u32_to_le_bytes (expiry_height ti))"

definition zip244_txin :: "env \<Rightarrow> bytes \<Rightarrow> bytes \<Rightarrow> bytes \<Rightarrow> u32 \<Rightarrow> bytes" where
  "zip244_txin E prevout amount script sequence =
     blake_of E ZCASH_TRANSPARENT_INPUT_HASH_PERSONALIZATION
       (prevout @ amount @ compact_size_write E (length script) @ script @ u32_to_le_bytes sequence)"

definition zip244_transparent :: "env \<Rightarrow> tx_info \<Rightarrow> sighash_compute_mode \<Rightarrow> bytes" where
  "zip244_transparent E ti mode = blake_of E ZCASH_TRANSPARENT_HASH_PERSONALIZATION
     (case mode of
        NoTransparentInputsOrOutputs \<Rightarrow> []
      | NoTransparentInputs \<Rightarrow> prevouts_hash ti @ sequence_hash ti @ outputs_hash ti
      | SomeTransparentInputs digest \<Rightarrow>
          SIGHASH_ALL # prevouts_hash ti @ amounts_hash ti @ scripts_hash ti @ sequence_hash ti
          @ outputs_hash ti @ digest)"

definition zip244_orchard :: "env \<Rightarrow> tx_info \<Rightarrow> bytes" where
  "zip244_orchard E ti =
     (if orchard_digest ti = zeros 32
      then blake_of E (if is_v6 ti then ZCASH_ORCHARD_HASH_PERSONALIZATION_V6
                       else ZCASH_ORCHARD_V5_HASH_PERSONALIZATION) []
      else orchard_digest ti)"

definition zip244_ironwood :: "env \<Rightarrow> tx_info \<Rightarrow> bytes" where
  "zip244_ironwood E ti =
     (if info_has_ironwood_bundle ti then ironwood_digest ti
      else blake_of E ZCASH_IRONWOOD_HASH_PERSONALIZATION [])"

definition zip244_sighash :: "env \<Rightarrow> tx_info \<Rightarrow> sighash_compute_mode \<Rightarrow> bytes" where
  "zip244_sighash E ti mode =
     blake_of E (ZCASH_TX_PERSONALIZATION_PREFIX @ u32_to_le_bytes (the (branch_id ti)))
       (zip244_header E ti @ zip244_transparent E ti mode
        @ blake_of E ZCASH_SAPLING_HASH_PERSONALIZATION []
        @ zip244_orchard E ti
        @ (if is_v6 ti then zip244_ironwood E ti else []))"

section \<open>The code computes the specification\<close>

text \<open>Outcomes of a run that never panics and always returns.\<close>

definition just_fails :: "'e fault \<Rightarrow> bool" where
  "just_fails e \<longleftrightarrow> (\<exists>x. e = Fail x)"

lemma just_fails_simps [simp]:
  "just_fails (Fail x)" "\<not> just_fails Panic" "\<not> just_fails Diverge"
  by (simp_all add: just_fails_def)

lemma blake_write_Inr: "blake_write E h bs = Inr h' \<longleftrightarrow> blake2b_update_ok E h bs \<and> h' = h\<lparr> b_data := b_data h @ bs \<rparr>"
  by (auto simp: blake_write_def)

lemma blake_update_Inr: "blake_update E h bs = Inr h' \<longleftrightarrow> blake2b_update_ok E h bs \<and> h' = h\<lparr> b_data := b_data h @ bs \<rparr>"
  by (auto simp: blake_update_def)

lemma rbind_fault:
  "rbind r k = Inl e \<Longrightarrow> (\<And>e. r = Inl e \<Longrightarrow> just_fails e) \<Longrightarrow> (\<And>a e. r = Inr a \<Longrightarrow> k a = Inl e \<Longrightarrow> just_fails e)
     \<Longrightarrow> just_fails e"
  by (auto simp: rbind_eq_Inl)

lemma blake_faults:
  "blake_write E h bs = Inl e \<Longrightarrow> just_fails e" "blake_update E h bs = Inl e \<Longrightarrow> just_fails e"
  "blake_finalize E h = Inl e \<Longrightarrow> just_fails e"
  "init_with_perso E perso = Inl e \<Longrightarrow> length perso = 16 \<Longrightarrow> just_fails e"
  by (auto simp: blake_write_def blake_update_def blake_finalize_def init_with_perso_def err_def
      split: if_splits)

lemma blake_updates_fault: "blake_updates E h cs = Inl e \<Longrightarrow> just_fails e"
  by (induction cs arbitrary: h) (auto simp: rbind_eq_Inl dest: blake_faults)

lemma blake_hash_fault: "blake_hash E perso cs = Inl e \<Longrightarrow> length perso = 16 \<Longrightarrow> just_fails e"
  by (auto simp: blake_hash_def rbind_eq_Inl dest: blake_faults blake_updates_fault)

lemma wp_lift_res:
  assumes "\<And>e. r = Inl e \<Longrightarrow> R e s" and "\<And>a. r = Inr a \<Longrightarrow> Q a s"
  shows "wp (lift_r r) Q R s"
  using assms by (cases r) (auto simp: wp_simps)

lemma blake_finalize_Inr:
  "blake_finalize E h = Inr (d, h') \<Longrightarrow> d = blake2b_256_digest E h"
  by (auto simp: blake_finalize_def split: if_splits)

lemma init_with_perso_Inr:
  "init_with_perso E perso = Inr h \<Longrightarrow> h = \<lparr> b_perso = perso, b_data = [], b_final = False \<rparr>"
  by (auto simp: init_with_perso_def split: if_splits)

lemmas blake_results = blake_finalize_Inr init_with_perso_Inr blake_updates_Inr
  blake_write_Inr [THEN iffD1] blake_update_Inr [THEN iffD1]

lemma txin_digest_Inr:
  "transparent_input_txin_signature_digest E p a scr q = Inr d \<Longrightarrow> d = zip244_txin E p a scr q"
  by (auto simp: transparent_input_txin_signature_digest_def write_script_local_def zip244_txin_def
      blake_of_def dest!: blake_results)

lemma txin_digest_fault:
  "transparent_input_txin_signature_digest E p a scr q = Inl e \<Longrightarrow> just_fails e"
  by (auto simp: transparent_input_txin_signature_digest_def write_script_local_def rbind_eq_Inl
      dest: blake_faults blake_updates_fault split: prod.splits)

lemma empty_digest_Inr: "empty_digest E perso = Inr d \<Longrightarrow> d = blake_of E perso []"
  by (auto simp: empty_digest_def dest: blake_hash_Inr)

lemma empty_digest_fault: "empty_digest E perso = Inl e \<Longrightarrow> length perso = 16 \<Longrightarrow> just_fails e"
  by (auto simp: empty_digest_def dest: blake_hash_fault)

definition has_version :: "tx_info \<Rightarrow> bool" where
  "has_version ti \<longleftrightarrow> tx_version ti \<noteq> None \<and> branch_id ti \<noteq> None"

lemma wp_compute_header_digest:
  assumes "has_version (tx_info s)"
    and "Q () (s\<lparr> tx_info := (tx_info s)\<lparr> header_digest := zip244_header E (tx_info s) \<rparr> \<rparr>)"
    and "\<And>e. just_fails e \<Longrightarrow> R e s"
  shows "wp (compute_header_digest E) Q R s"
proof -
  obtain v b where vb: "tx_version (tx_info s) = Some v" "branch_id (tx_info s) = Some b"
    using assms(1) by (auto simp: has_version_def)
  have o: "V6_TX_VERSION OR OVERWINTERED_FLAG = 0x80000006" "V6_VERSION_GROUP_ID = 0xD884B698"
    by (simp_all add: V6_TX_VERSION_def OVERWINTERED_FLAG_def V6_VERSION_GROUP_ID_def)
  show ?thesis
    unfolding compute_header_digest_def wp_bnd wp_gets vb
    apply (simp only: prod.case option.case wp_bnd wp_access)
    apply (rule wp_lift_res)
    subgoal for e
      by (rule assms(3))
         (auto simp: rbind_eq_Inl dest: blake_faults blake_updates_fault split: if_splits prod.splits)
    subgoal for d
      using assms(2)
      by (auto simp: zip244_header_def blake_of_def vb o dest!: blake_results split: if_splits)
    done
qed

lemma transparent_digest_Inr:
  "transparent_signature_digest E ti mode SIGHASH_ALL = Inr d \<Longrightarrow> d = zip244_transparent E ti mode"
  by (auto simp: transparent_signature_digest_def zip244_transparent_def dest!: blake_hash_Inr
      split: sighash_compute_mode.splits)

lemma transparent_digest_fault:
  "transparent_signature_digest E ti mode t = Inl e \<Longrightarrow> just_fails e"
  by (auto simp: transparent_signature_digest_def dest: blake_hash_fault)

lemma wp_final_sighash:
  assumes v: "has_version (tx_info s)"
    and h: "header_digest (tx_info s) = zip244_header E (tx_info s)"
    and Q: "Q () (s\<lparr> tx_info := (tx_info s)\<lparr> signature_digest := zip244_sighash E (tx_info s) mode \<rparr> \<rparr>)"
    and R: "\<And>e. just_fails e \<Longrightarrow> R e s"
  shows "wp (finalize_signature_hash_from_transparent_digest E (zip244_transparent E (tx_info s) mode)) Q R s"
proof -
  obtain b where b: "branch_id (tx_info s) = Some b" using v by (auto simp: has_version_def)
  show ?thesis
    unfolding finalize_signature_hash_from_transparent_digest_def wp_bnd wp_gets b option.case
    apply (rule wp_lift_res)
    subgoal by (rule R) (erule empty_digest_fault, simp)
    apply (rule wp_lift_res)
    subgoal by (rule R) (auto dest: empty_digest_fault split: if_splits)
    apply (simp only: wp_bnd Let_def wp_access)
    apply (rule wp_lift_res)
    subgoal for sap orch e
      by (rule R) (auto simp: rbind_eq_Inl dest: blake_faults blake_updates_fault
          empty_digest_fault split: if_splits prod.splits)
    subgoal for sap orch d
      using Q
      by (auto simp: zip244_sighash_def zip244_orchard_def zip244_ironwood_def blake_of_def b h
          dest!: blake_results empty_digest_Inr split: if_splits)
    done
qed

lemma sighash_ignores_digests:
  "zip244_header E (ti\<lparr> header_digest := d \<rparr>) = zip244_header E ti"
  "zip244_transparent E (ti\<lparr> header_digest := d \<rparr>) mode = zip244_transparent E ti mode"
  "zip244_sighash E (ti\<lparr> header_digest := d \<rparr>) mode = zip244_sighash E ti mode"
  "zip244_header E (ti\<lparr> sighash_type := t \<rparr>) = zip244_header E ti"
  "zip244_sighash E (ti\<lparr> sighash_type := t \<rparr>) mode = zip244_sighash E ti mode"
  "zip244_header E (ti\<lparr> signature_digest := d \<rparr>) = zip244_header E ti"
  "zip244_sighash E (ti\<lparr> signature_digest := d \<rparr>) mode = zip244_sighash E ti mode"
  by (cases mode; simp add: zip244_header_def zip244_sighash_def zip244_transparent_def
      zip244_orchard_def zip244_ironwood_def)+

text \<open>The result of a digest computation: the three fields it writes, and nothing else.\<close>

definition with_sighash :: "env \<Rightarrow> sighash_compute_mode \<Rightarrow> world \<Rightarrow> world" where
  "with_sighash E mode s = s\<lparr> tx_info := (tx_info s)\<lparr>
     header_digest := zip244_header E (tx_info s),
     signature_digest := zip244_sighash E (tx_info s) mode,
     sighash_type := SIGHASH_ALL \<rparr> \<rparr>"

definition only_digests_changed :: "world \<Rightarrow> world \<Rightarrow> bool" where
  "only_digests_changed s s' \<longleftrightarrow> (\<exists>h t. s' = s\<lparr> tx_info := (tx_info s)\<lparr>
     header_digest := h, sighash_type := t \<rparr> \<rparr>)"

lemma wp_finalize_signature_hash:
  assumes v: "has_version (tx_info s)" and t: "sighash_type (tx_info s) = SIGHASH_ALL"
    and Q: "Q () (with_sighash E mode s)"
    and R: "\<And>e s'. just_fails e \<Longrightarrow> only_digests_changed s s' \<Longrightarrow> R e s'"
  shows "wp (finalize_signature_hash E mode SIGHASH_ALL) Q R s"
proof -
  let ?s1 = "s\<lparr> tx_info := (tx_info s)\<lparr> header_digest := zip244_header E (tx_info s) \<rparr> \<rparr>"
  have od: "only_digests_changed s s" "only_digests_changed s ?s1"
    unfolding only_digests_changed_def
    by (rule exI [of _ "header_digest (tx_info s)"], rule exI [of _ "sighash_type (tx_info s)"], simp)
       (rule exI, rule exI [of _ "sighash_type (tx_info s)"], simp)
  have v1: "has_version (tx_info ?s1)" using v by (simp add: has_version_def)
  have ws: "?s1\<lparr> tx_info := (tx_info ?s1)\<lparr> signature_digest := zip244_sighash E (tx_info ?s1) mode \<rparr> \<rparr>
      = with_sighash E mode s"
    using t by (simp add: with_sighash_def sighash_ignores_digests)
  have Q': "Q () (?s1\<lparr> tx_info := (tx_info ?s1)\<lparr> signature_digest := zip244_sighash E (tx_info ?s1) mode \<rparr> \<rparr>)"
    using Q by (simp only: ws)
  have hd: "header_digest (tx_info ?s1) = zip244_header E (tx_info ?s1)"
    by (simp add: sighash_ignores_digests)
  show ?thesis
    unfolding finalize_signature_hash_def wp_bnd wp_gets
  proof (rule wp_compute_header_digest [OF v])
    show "wp (lift_r (transparent_signature_digest E (tx_info ?s1) mode SIGHASH_ALL))
       (\<lambda>a. wp (finalize_signature_hash_from_transparent_digest E a) Q R) R ?s1"
    proof (rule wp_lift_res)
      fix e assume "transparent_signature_digest E (tx_info ?s1) mode SIGHASH_ALL = Inl e"
      then show "R e ?s1" using R od(2) transparent_digest_fault by blast
    next
      fix a assume "transparent_signature_digest E (tx_info ?s1) mode SIGHASH_ALL = Inr a"
      then have a: "a = zip244_transparent E (tx_info ?s1) mode" by (rule transparent_digest_Inr)
      show "wp (finalize_signature_hash_from_transparent_digest E a) Q R ?s1"
        unfolding a by (rule wp_final_sighash) (use v1 hd Q' R od(2) in blast)+
    qed
  qed (use R od(1) in blast)
qed

lemma has_version_sighash_type [simp]:
  "has_version (ti\<lparr> sighash_type := t \<rparr>) = has_version ti"
  by (simp add: has_version_def)

lemma with_sighash_sighash_type:
  "with_sighash E mode (s\<lparr> tx_info := (tx_info s)\<lparr> sighash_type := t \<rparr> \<rparr>) = with_sighash E mode s"
  by (simp add: with_sighash_def sighash_ignores_digests)

lemma only_digests_changed_step:
  "only_digests_changed (s\<lparr> tx_info := (tx_info s)\<lparr> sighash_type := t \<rparr> \<rparr>) s' \<Longrightarrow>
     only_digests_changed s s'"
  unfolding only_digests_changed_def by fastforce

lemma wp_set_type_then_finalize:
  assumes "has_version (tx_info s)" and "Q () (with_sighash E mode s)"
    and "\<And>e s'. just_fails e \<Longrightarrow> only_digests_changed s s' \<Longrightarrow> R e s'"
  shows "wp (bnd (mod_ti (\<lambda>t. t\<lparr> sighash_type := SIGHASH_ALL \<rparr>))
              (\<lambda>_. finalize_signature_hash E mode SIGHASH_ALL)) Q R s"
  unfolding wp_bnd wp_access
  by (rule wp_finalize_signature_hash)
     (use assms only_digests_changed_step in \<open>auto simp: with_sighash_sighash_type\<close>)

lemma wp_compute_transparent_input_signature_digest:
  assumes "has_version (tx_info s)" and "Q () (with_sighash E (SomeTransparentInputs d) s)"
    and "\<And>e s'. just_fails e \<Longrightarrow> only_digests_changed s s' \<Longrightarrow> R e s'"
  shows "wp (compute_transparent_input_signature_digest E d SIGHASH_ALL) Q R s"
  unfolding compute_transparent_input_signature_digest_def
  using assms by (rule wp_set_type_then_finalize)

definition shielded_mode :: "env \<Rightarrow> nat \<Rightarrow> nat \<Rightarrow> sighash_compute_mode" where
  "shielded_mode E input_count output_count =
     (if input_count = 0
      then (if output_count = 0 then NoTransparentInputsOrOutputs else NoTransparentInputs)
      else SomeTransparentInputs (blake_of E ZCASH_TRANSPARENT_INPUT_HASH_PERSONALIZATION []))"

lemma only_digests_changed_refl: "only_digests_changed s s"
  unfolding only_digests_changed_def
  by (rule exI [of _ "header_digest (tx_info s)"], rule exI [of _ "sighash_type (tx_info s)"], simp)

lemma wp_compute_shielded_signature_digest:
  assumes v: "has_version (tx_info s)"
    and Q: "Q () (with_sighash E (shielded_mode E input_count output_count) s)"
    and R: "\<And>e s'. just_fails e \<Longrightarrow> only_digests_changed s s' \<Longrightarrow> R e s'"
  shows "wp (compute_shielded_signature_digest E input_count output_count) Q R s"
proof (cases "input_count = 0")
  case True
  show ?thesis
    unfolding compute_shielded_signature_digest_def compute_no_transparent_input_signature_digest_def
    by (simp only: True simp_thms if_True) (rule wp_set_type_then_finalize [OF v _ R],
        use True Q in \<open>simp_all add: shielded_mode_def\<close>)
next
  case False
  show ?thesis
    unfolding compute_shielded_signature_digest_def
    apply (simp only: False if_False wp_bnd)
  proof (rule wp_lift_res)
    fix e assume "empty_txin_signature_digest E = Inl e"
    then have "just_fails e"
      by (auto simp: empty_txin_signature_digest_def dest: empty_digest_fault)
    then show "R e s" using R only_digests_changed_refl by blast
  next
    fix d assume "empty_txin_signature_digest E = Inr d"
    then have d: "d = blake_of E ZCASH_TRANSPARENT_INPUT_HASH_PERSONALIZATION []"
      by (auto simp: empty_txin_signature_digest_def dest: empty_digest_Inr)
    show "wp (compute_transparent_input_signature_digest E d SIGHASH_ALL) Q R s"
      by (rule wp_compute_transparent_input_signature_digest [OF v _ R])
         (use Q False d in \<open>simp_all add: shielded_mode_def\<close>)
  qed
qed

end
