(* ===== verification/Keys.thy ===== *)
theory Keys
  imports Compute
begin

text \<open>
  Key derivation and signing: \<open>src/src/zip32.rs\<close>, \<open>src/src/utils/extended_public_key.rs\<close>,
  \<open>src/src/utils/hashers.rs\<close>, \<open>src/src/rng.rs\<close>, the key part of \<open>src/src/parser/orchard_decipher.rs\<close>
  and the two signing primitives of \<open>src/src/handlers/sign_tx.rs\<close>.  The curve arithmetic behind
  them is the environment's; modelled here are the error mapping, the order of the steps, the
  derivation budget and what reaches the response buffer.
\<close>

section \<open>Transparent keys\<close>

definition hash160 :: "env \<Rightarrow> bytes \<Rightarrow> (app_sw, bytes) res" where
  "hash160 E bs =
     rbind (some_or_r (sha256_hash E bs) IncorrectData) (\<lambda>sha.
     some_or_r (ripemd160_hash E sha) IncorrectData)"

record extended_public_key =
  public_key_slice :: bytes
  chain_code :: bytes

definition extended_public_key_try_from :: "env \<Rightarrow> bip32_path \<Rightarrow> (app_sw, extended_public_key) res"
  where
  "extended_public_key_try_from E p =
     rbind (some_or_r (secp256k1_public_key E (as_slice p)) IncorrectData) (\<lambda>pk.
     rbind (some_or_r (secp256k1_chain_code E (as_slice p)) IncorrectData) (\<lambda>code.
     Inr \<lparr> public_key_slice = pk, chain_code = code \<rparr>))"

definition compressed_public_key :: "extended_public_key \<Rightarrow> (app_sw, bytes) res" where
  "compressed_public_key k =
     (let pk = public_key_slice k in
      if length pk \<noteq> 65 then err IncorrectData
      else Inr ((if pk ! 64 AND 1 = 1 then 0x03 else 0x02) # take 32 (drop 1 pk)))"

definition compressed_public_key_hash160 :: "env \<Rightarrow> extended_public_key \<Rightarrow> (app_sw, bytes) res" where
  "compressed_public_key_hash160 E k = rbind (compressed_public_key k) (\<lambda>c. hash160 E c)"

section \<open>Shielded keys\<close>

definition MAX_ORCHARD_DERIVATIONS :: nat where "MAX_ORCHARD_DERIVATIONS = 50"

definition U32_MAX :: nat where "U32_MAX = 4294967295"

definition consume_orchard_derivation_budget :: "unit happ" where
  "consume_orchard_derivation_budget =
     bnd (modify (\<lambda>s. s\<lparr> orchard_derivations := min (orchard_derivations s + 1) U32_MAX \<rparr>)) (\<lambda>_.
     bnd (gets orchard_derivations) (\<lambda>spent.
     if spent > MAX_ORCHARD_DERIVATIONS then throw NotEnoughMemorySpace else ret ()))"

definition derive_orchard_sk_bytes :: "env \<Rightarrow> bip32_path \<Rightarrow> bytes happ" where
  "derive_orchard_sk_bytes E p =
     bnd consume_orchard_derivation_budget (\<lambda>_.
     bnd (gets ticks) (\<lambda>t.
     bnd (modify (\<lambda>s. s\<lparr> ticks := ticks s + 1 \<rparr>)) (\<lambda>_.
     some_or (zip32_orchard_derive E t (as_slice p)) TechnicalProblem)))"

definition orchard_sk_from_bytes :: "env \<Rightarrow> bytes \<Rightarrow> (app_sw, bytes) res" where
  "orchard_sk_from_bytes E sk_bytes =
     map_err_r map_ledger_crypto_error (orchard_sk_from_bytes_ledger E sk_bytes)"

definition derive_orchard_fvk_from_sk :: "env \<Rightarrow> bytes \<Rightarrow> (app_sw, bytes) res" where
  "derive_orchard_fvk_from_sk E sk_bytes =
     rbind (orchard_sk_from_bytes E sk_bytes) (\<lambda>sk.
     map_err_r map_ledger_crypto_error (orchard_fvk_of_sk E sk))"

definition derive_orchard_fvk_and_ask_from_sk :: "env \<Rightarrow> bytes \<Rightarrow> (app_sw, bytes \<times> bytes) res" where
  "derive_orchard_fvk_and_ask_from_sk E sk_bytes =
     rbind (orchard_sk_from_bytes E sk_bytes) (\<lambda>sk.
     rbind (map_err_r map_ledger_crypto_error (orchard_fvk_of_sk E sk)) (\<lambda>fvk.
     rbind (map_err_r map_ledger_crypto_error (orchard_ask_of_sk E sk)) (\<lambda>ask.
     Inr (fvk, ask))))"

definition derive_orchard_ask_from_sk :: "env \<Rightarrow> bytes \<Rightarrow> (app_sw, bytes) res" where
  "derive_orchard_ask_from_sk E sk_bytes =
     rbind (orchard_sk_from_bytes E sk_bytes) (\<lambda>sk.
     map_err_r map_ledger_crypto_error (orchard_ask_of_sk E sk))"

definition orchard_network :: "bip32_path \<Rightarrow> network_type" where
  "orchard_network p =
     (case vec_get (as_slice p) 1 of
        Some coin_type \<Rightarrow> if coin_type = 1 + 0x80000000 then Test_net else Main_net
      | None \<Rightarrow> Main_net)"

definition decipher_keys_from_fvk ::
  "env \<Rightarrow> bytes \<Rightarrow> network_type \<Rightarrow> (app_sw, orchard_decipher_keys) res" where
  "decipher_keys_from_fvk E fvk network =
     rbind (map_err_r map_ledger_crypto_error (fvk_to_ivk_ledger E fvk Internal)) (\<lambda>internal_ivk.
     rbind (map_err_r map_ledger_crypto_error (fvk_to_ovk_ledger E fvk External)) (\<lambda>external_ovk.
     rbind (slice 32 (length internal_ivk) internal_ivk) (\<lambda>ivk_bytes.
     if length ivk_bytes \<noteq> 32 then Inl Panic
     else Inr \<lparr> dk_network = network, dk_internal_ivk = ivk_bytes, dk_external_ovk = external_ovk \<rparr>)))"

section \<open>Random bytes\<close>

definition fill_bytes :: "env \<Rightarrow> nat \<Rightarrow> bytes happ" where
  "fill_bytes E n =
     (if n = 0 then ret []
      else bnd (gets ticks) (\<lambda>t.
           bnd (modify (\<lambda>s. s\<lparr> ticks := ticks s + 1 \<rparr>)) (\<lambda>_.
           some_or (cx_get_random_bytes E t n) RngFailure)))"

section \<open>Signatures\<close>

definition comm_append :: "bytes \<Rightarrow> (world, 'e, unit) sm" where
  "comm_append bs = modify (\<lambda>s. s\<lparr> comm_out := comm_out s @ bs \<rparr>)"

text \<open>\<open>append_signature\<close> with \<open>deterministic_sign = true\<close>, as every caller has it.  The parity of the
  nonce point is stored in the lowest bit of the first byte.\<close>

definition set_parity :: "bytes \<Rightarrow> u32 \<Rightarrow> bytes" where
  "set_parity sig info =
     (if info \<noteq> 0 then (case sig of [] \<Rightarrow> [] | b # r \<Rightarrow> (b OR 0x01) # r) else sig)"

definition append_signature :: "env \<Rightarrow> bytes \<Rightarrow> bip32_path \<Rightarrow> u8 \<Rightarrow> unit happ" where
  "append_signature E sig_hash p sighash =
     bnd (some_or (secp256k1_deterministic_sign E (as_slice p) sig_hash) TechnicalProblem) (\<lambda>(sig, info).
     bnd (comm_append (set_parity sig info)) (\<lambda>_.
     comm_append [sighash]))"

fun map_alpha_error :: "crypto_error \<Rightarrow> app_sw" where
  "map_alpha_error MalformedPallasScalar = IncorrectData"
| "map_alpha_error _ = TechnicalProblem"

definition orchard_spend_auth_signature_with_ask :: "env \<Rightarrow> bytes \<Rightarrow> bytes \<Rightarrow> bytes \<Rightarrow> bytes happ" where
  "orchard_spend_auth_signature_with_ask E ask sig_hash alpha_bytes =
     bnd (lift_r (map_err_r map_alpha_error (pallas_scalar_from_repr E alpha_bytes))) (\<lambda>alpha.
     bnd (lift_r (map_err_r map_ledger_crypto_error (randomize_ledger E ask alpha))) (\<lambda>randomized_ask.
     bnd (fill_bytes E 80) (\<lambda>random_bytes.
     lift_r (map_err_r map_ledger_crypto_error (sign_ledger E randomized_ask random_bytes sig_hash)))))"

definition orchard_spend_auth_signature_with_sk :: "env \<Rightarrow> bytes \<Rightarrow> bytes \<Rightarrow> bytes \<Rightarrow> bytes happ" where
  "orchard_spend_auth_signature_with_sk E sk_bytes sig_hash alpha_bytes =
     bnd (lift_r (derive_orchard_ask_from_sk E sk_bytes)) (\<lambda>ask.
     orchard_spend_auth_signature_with_ask E ask sig_hash alpha_bytes)"

section \<open>Laws of the key environment\<close>

text \<open>The crypto crate returns errors, never panics; an incoming viewing key is 64 bytes and a full
  viewing key 96.\<close>

definition clean :: "('e, 'a) res \<Rightarrow> bool" where
  "clean r \<longleftrightarrow> (\<forall>e. r = Inl e \<longrightarrow> just_fails e)"

lemma clean_simps [simp]: "clean (Inr a)" "clean (err x)" "clean (Inl (Fail x))"
  by (simp_all add: clean_def err_def)

lemma cleanD: "clean r \<Longrightarrow> r = Inl e \<Longrightarrow> just_fails e"
  by (simp add: clean_def)

lemma clean_rbind [intro]: "clean r \<Longrightarrow> (\<And>a. r = Inr a \<Longrightarrow> clean (k a)) \<Longrightarrow> clean (rbind r k)"
  by (cases r) (auto simp: clean_def)

lemma clean_map_err [simp]: "clean (map_err_r f r) = clean r"
  by (auto simp: clean_def map_err_r_def just_fails_def split: sum.splits fault.splits)

lemma clean_some_or [simp]: "clean (some_or_r x e)"
  by (cases x) (simp_all add: clean_def err_def)

definition key_laws :: "env \<Rightarrow> bool" where
  "key_laws E \<longleftrightarrow>
     (\<forall>sk. clean (orchard_sk_from_bytes_ledger E sk) \<and> clean (orchard_fvk_of_sk E sk)
         \<and> clean (orchard_ask_of_sk E sk))
   \<and> (\<forall>fvk scope. clean (fvk_to_ivk_ledger E fvk scope) \<and> clean (fvk_to_ovk_ledger E fvk scope))
   \<and> (\<forall>fvk scope ivk. fvk_to_ivk_ledger E fvk scope = Inr ivk \<longrightarrow> length ivk = 64)
   \<and> (\<forall>sk fvk. orchard_fvk_of_sk E sk = Inr fvk \<longrightarrow> length fvk = 96)
   \<and> (\<forall>a b c. clean (pallas_scalar_from_repr E a) \<and> clean (randomized_verification_key_bytes E a b)
         \<and> clean (randomize_ledger E a b) \<and> clean (sign_ledger E a b c))"

lemma decipher_keys_clean:
  assumes "key_laws E"
  shows "clean (decipher_keys_from_fvk E fvk network)"
  using assms unfolding decipher_keys_from_fvk_def key_laws_def
  by (auto intro!: clean_rbind simp: slice_def)

lemma derive_fvk_clean:
  assumes "key_laws E"
  shows "clean (derive_orchard_fvk_from_sk E sk)" "clean (derive_orchard_fvk_and_ask_from_sk E sk)"
    "clean (derive_orchard_ask_from_sk E sk)"
  using assms unfolding derive_orchard_fvk_from_sk_def derive_orchard_fvk_and_ask_from_sk_def
    derive_orchard_ask_from_sk_def orchard_sk_from_bytes_def key_laws_def
  by (auto intro!: clean_rbind)

lemma derive_fvk_length:
  assumes "key_laws E"
  shows "derive_orchard_fvk_from_sk E sk = Inr fvk \<Longrightarrow> length fvk = 96"
    "derive_orchard_fvk_and_ask_from_sk E sk = Inr (fvk, ask) \<Longrightarrow> length fvk = 96"
  using assms unfolding derive_orchard_fvk_from_sk_def derive_orchard_fvk_and_ask_from_sk_def key_laws_def
  by auto

lemma wp_comm_append [wp_simps]: "wp (comm_append bs) Q R s = Q () (s\<lparr> comm_out := comm_out s @ bs \<rparr>)"
  by (simp add: comm_append_def wp_simps)

end
