(* ===== verification/Account.thy ===== *)
theory Account
  imports Review Keys
begin

text \<open>
  The read-only commands: \<open>src/src/handlers/get_version.rs\<close>, \<open>get_public_key.rs\<close>,
  \<open>get_shielded_addr.rs\<close> and \<open>get_vk.rs\<close>, with the address and key screens of
  \<open>src/src/app_ui/address.rs\<close> and the address check the Exchange application calls
  (\<open>check_address\<close> of \<open>src/src/swap.rs\<close>).  The lemmas show what leaves the device, after which
  confirmation, and that a viewing key read in chunks is the exported one.
\<close>

section \<open>Services\<close>

text \<open>What only these commands use: the address of a diversifier index of an incoming viewing key (raw
  bytes), the encoding of a unified full viewing key from an Orchard and a transparent part, the user's
  answer to an address screen (indexed like the other services), the device the application is built
  for and the version string of the package.\<close>

datatype target_os = NanoSPlus | NanoX | Stax | Flex | ApexP

record address_screen =
  as_title :: string
  as_subtitle :: "string option"
  as_fields :: "(string \<times> string) list"
  as_text :: string

record account_env =
  address_at_ledger :: "bytes \<Rightarrow> u32 \<Rightarrow> (crypto_error, bytes) res"
  ufvk_encode :: "bytes \<Rightarrow> bytes \<Rightarrow> network_type \<Rightarrow> string option"
  address_review_show :: "nat \<Rightarrow> address_screen \<Rightarrow> bool"
  build_target :: target_os
  cargo_pkg_version :: string

text \<open>The data of a command, and \<open>HexSlice\<close>.\<close>

definition comm_get_data :: "bytes happ" where
  "comm_get_data = bnd (gets comm_data) (\<lambda>d. some_or d WrongApduLength)"

definition hex_upper_digit :: "nat \<Rightarrow> char" where
  "hex_upper_digit n = (if n < 10 then char_of (48 + n) else char_of (55 + n))"

definition hex_slice :: "bytes \<Rightarrow> string" where
  "hex_slice bs = concat (map (\<lambda>b. [hex_upper_digit (unat b div 16), hex_upper_digit (unat b mod 16)]) bs)"

section \<open>Firmware version\<close>

definition LEGACY_VERSION_PREFIX :: u8 where "LEGACY_VERSION_PREFIX = 0x38"
definition ARCH_ID :: u8 where "ARCH_ID = 0x30"
definition NU_SDK_MAJOR_VERSION :: u8 where "NU_SDK_MAJOR_VERSION = 1"
definition NU_SDK_MINOR_VERSION :: u8 where "NU_SDK_MINOR_VERSION = 0"
definition NU_API_LEVEL :: u8 where "NU_API_LEVEL = 0x03"

text \<open>\<open>str::split\<close> on a character: always at least one part.\<close>

fun split_on :: "char \<Rightarrow> string \<Rightarrow> string list" where
  "split_on c [] = [[]]"
| "split_on c (x # xs) =
     (if x = c then [] # split_on c xs
      else case split_on c xs of [] \<Rightarrow> [[x]] | p # ps \<Rightarrow> (x # p) # ps)"

text \<open>\<open>u8::from_str\<close>: an optional plus sign, then decimal digits only, at most 255.\<close>

definition digit_value :: "char \<Rightarrow> nat option" where
  "digit_value c = (let n = of_char c :: nat in if 48 \<le> n \<and> n \<le> 57 then Some (n - 48) else None)"

fun dec_value :: "nat \<Rightarrow> string \<Rightarrow> nat option" where
  "dec_value acc [] = Some acc"
| "dec_value acc (c # cs) =
     (case digit_value c of None \<Rightarrow> None
      | Some d \<Rightarrow> let v = acc * 10 + d in if v > 255 then None else dec_value v cs)"

definition u8_from_str :: "string \<Rightarrow> u8 option" where
  "u8_from_str s =
     (let digits = (case s of c # r \<Rightarrow> if c = CHR ''+'' then r else s | [] \<Rightarrow> s) in
      if digits = [] then None else map_option word_of_nat (dec_value 0 digits))"

definition parse_version_string :: "string \<Rightarrow> (u8 \<times> u8 \<times> u8) option" where
  "parse_version_string input =
     (case split_on (CHR ''.'') input of
        a # b # c # _ \<Rightarrow>
          (case (u8_from_str a, u8_from_str b, u8_from_str c) of
             (Some major, Some minor, Some patch) \<Rightarrow> Some (major, minor, patch)
           | _ \<Rightarrow> None)
      | _ \<Rightarrow> None)"

definition handler_get_version :: "account_env \<Rightarrow> unit happ" where
  "handler_get_version A =
     (case parse_version_string (cargo_pkg_version A) of
        Some (major, minor, patch) \<Rightarrow>
          comm_append [LEGACY_VERSION_PREFIX, ARCH_ID, major, minor, patch,
            NU_SDK_MAJOR_VERSION, NU_SDK_MINOR_VERSION, NU_API_LEVEL]
      | None \<Rightarrow> throw VersionParsingFail)"

section \<open>Screens\<close>

text \<open>\<open>NbglAddressReview::show\<close>.\<close>

definition show_address :: "account_env \<Rightarrow> address_screen \<Rightarrow> bool happ" where
  "show_address A screen =
     bnd (gets ticks) (\<lambda>t.
     bnd (modify (\<lambda>s. s\<lparr> ticks := ticks s + 1 \<rparr>)) (\<lambda>_.
     ret (address_review_show A t screen)))"

definition pk_screen :: "string \<Rightarrow> address_screen" where
  "pk_screen addr =
     \<lparr> as_title = ''Verify address'', as_subtitle = None, as_fields = [], as_text = addr \<rparr>"

definition ui_display_pk :: "account_env \<Rightarrow> string \<Rightarrow> bool happ" where
  "ui_display_pk A addr = show_address A (pk_screen addr)"

definition shielded_address_screen :: "string \<Rightarrow> string \<Rightarrow> address_screen" where
  "shielded_address_screen shielded_addr transparent_addr =
     \<lparr> as_title = ''Verify Zcash addresses'', as_subtitle = Some ''Private address'',
       as_fields = [(''Public Address'', transparent_addr)], as_text = shielded_addr \<rparr>"

definition ui_display_shielded_address :: "account_env \<Rightarrow> string \<Rightarrow> string \<Rightarrow> bool happ" where
  "ui_display_shielded_address A shielded_addr transparent_addr =
     show_address A (shielded_address_screen shielded_addr transparent_addr)"

definition shorten_fvk_to_display :: "string \<Rightarrow> nat \<Rightarrow> nat \<Rightarrow> string \<Rightarrow> string" where
  "shorten_fvk_to_display viewing_key shortened_len prefix_len ellipsis =
     (if length viewing_key \<le> shortened_len then viewing_key
      else let suffix_len = shortened_len - prefix_len in
        take prefix_len viewing_key @ ellipsis @ drop (length viewing_key - suffix_len) viewing_key)"

definition is_nano :: "target_os \<Rightarrow> bool" where
  "is_nano os \<longleftrightarrow> os = NanoSPlus \<or> os = NanoX"

definition nano_ellipsis :: string where
  "nano_ellipsis = [char_of (10 :: nat)] @ '' ... '' @ [char_of (10 :: nat)]"

definition shown_viewing_key :: "target_os \<Rightarrow> string \<Rightarrow> string" where
  "shown_viewing_key os fvk =
     (if is_nano os then shorten_fvk_to_display fvk (18 * 3 * 3 - 18) (18 * 4) nano_ellipsis
      else let len = (if os = ApexP then 125 else 132) in
        shorten_fvk_to_display fvk len ((len - length '' ... '') div 2) '' ... '')"

definition fvk_screen :: "account_env \<Rightarrow> string \<Rightarrow> string \<Rightarrow> u32 \<Rightarrow> address_screen" where
  "fvk_screen A title fvk account =
     \<lparr> as_title = title,
       as_subtitle = (if is_nano (build_target A) then None
         else Some ''This lets the connected wallet access your accounts info''),
       as_fields = [(''Account'', ''#'' @ dec_digits (unat account))],
       as_text = shown_viewing_key (build_target A) fvk \<rparr>"

definition ui_display_fvk :: "account_env \<Rightarrow> string \<Rightarrow> string \<Rightarrow> u32 \<Rightarrow> bool happ" where
  "ui_display_fvk A title fvk account = show_address A (fvk_screen A title fvk account)"

definition ui_display_ufvk :: "account_env \<Rightarrow> string \<Rightarrow> u32 \<Rightarrow> bool happ" where
  "ui_display_ufvk A = ui_display_fvk A ''Share Zcash Unified Full Viewing Key?''"

definition ui_display_orchard_fvk :: "account_env \<Rightarrow> string \<Rightarrow> u32 \<Rightarrow> bool happ" where
  "ui_display_orchard_fvk A = ui_display_fvk A ''Share Zcash Orchard Full Viewing Key?''"

section \<open>Keys these commands derive\<close>

definition derive_orchard_fvk_bytes :: "env \<Rightarrow> bytes \<Rightarrow> (app_sw, bytes) res" where
  "derive_orchard_fvk_bytes E sk_bytes =
     rbind (map_err_r map_ledger_crypto_error (orchard_sk_from_bytes_ledger E sk_bytes)) (\<lambda>sk.
     map_err_r map_ledger_crypto_error (orchard_fvk_of_sk E sk))"

definition derive_orchard_fvk :: "env \<Rightarrow> bip32_path \<Rightarrow> bytes happ" where
  "derive_orchard_fvk E p =
     bnd (derive_orchard_sk_bytes E p) (\<lambda>sk. lift_r (derive_orchard_fvk_bytes E sk))"

definition derive_transparent_account_pubkey :: "env \<Rightarrow> bip32_path \<Rightarrow> (app_sw, bytes) res" where
  "derive_transparent_account_pubkey E p =
     rbind (extended_public_key_try_from E p) (\<lambda>key.
     rbind (compressed_public_key key) (\<lambda>compressed.
     Inr (chain_code key @ compressed)))"

section \<open>Transparent public keys and addresses\<close>

definition address_of_key :: "env \<Rightarrow> extended_public_key \<Rightarrow> (app_sw, string) res" where
  "address_of_key E key =
     rbind (compressed_public_key_hash160 E key) (\<lambda>h. from_public_key_hash E h)"

definition handler_get_public_key :: "env \<Rightarrow> account_env \<Rightarrow> bool \<Rightarrow> unit happ" where
  "handler_get_public_key E A display =
     bnd comm_get_data (\<lambda>data.
     bnd (lift_r (bip32_try_from_bytes data)) (\<lambda>p.
     bnd (ensure (check_bip44_compliance p PrefixOnly) IncorrectData) (\<lambda>_.
     bnd (lift_r (extended_public_key_try_from E p)) (\<lambda>key.
     bnd (lift_r (address_of_key E key)) (\<lambda>address_str.
     bnd (if display then
            bnd (ui_display_pk A address_str) (\<lambda>approved. ensure approved Deny)
          else ret ()) (\<lambda>_.
     seqs [
       comm_append [word_of_nat (length (public_key_slice key))],
       comm_append (public_key_slice key),
       comm_append [word_of_nat (length address_str)],
       comm_append (str_bytes address_str),
       comm_append (chain_code key)]))))))"

text \<open>The fields of the SDK's \<open>CheckAddressParams\<close> that are read.\<close>

record check_address_params =
  cp_dpath :: bytes
  cp_dpath_len :: nat
  cp_ref_address :: bytes
  cp_ref_address_len :: nat

definition check_address :: "env \<Rightarrow> check_address_params \<Rightarrow> (swap_app_error_code, bool) res" where
  "check_address E params =
     rbind (slice 0 (cp_dpath_len params * BIP32_BYTES_PER_SEGMENT) (cp_dpath params)) (\<lambda>dpath.
     rbind (map_err_r (\<lambda>_. FailedToDeriveAddress) (from_dpath (cp_dpath_len params) dpath)) (\<lambda>p.
     if \<not> check_bip44_compliance p PrefixOnly then err FailedToDeriveAddress
     else
     rbind (map_err_r (\<lambda>_. FailedToDeriveAddress) (extended_public_key_try_from E p)) (\<lambda>key.
     rbind (map_err_r (\<lambda>_. FailedToDeriveAddress) (address_of_key E key)) (\<lambda>derived_address.
     rbind (slice 0 (cp_ref_address_len params) (cp_ref_address params)) (\<lambda>received.
     if \<not> utf8_valid received then err FailedToSerializeAddress
     else Inr (derived_address = str_of_bytes received))))))"

section \<open>Shielded addresses\<close>

datatype p2_shielded_addr_mode = UAddress | OrchardAddress

definition TRANSPARENT_ACCOUNT_CHAIN_CODE_LEN :: nat where "TRANSPARENT_ACCOUNT_CHAIN_CODE_LEN = 32"

definition transparent_account_address :: "env \<Rightarrow> bip32_path \<Rightarrow> (app_sw, string) res" where
  "transparent_account_address E p =
     rbind (derive_transparent_account_pubkey E p) (\<lambda>transparent_bytes.
     rbind (hash160 E (drop TRANSPARENT_ACCOUNT_CHAIN_CODE_LEN transparent_bytes)) (\<lambda>h.
     from_public_key_hash E h))"

definition parse_two_paths :: "bytes \<Rightarrow> (app_sw, bip32_path \<times> bip32_path option) res" where
  "parse_two_paths data =
     rbind (from_prefixed_bytes data) (\<lambda>(orchard_path, remaining).
     rbind (from_prefixed_bytes remaining) (\<lambda>(transparent_path, rest).
     if rest \<noteq> [] then err WrongApduLength else Inr (orchard_path, Some transparent_path)))"

definition parse_one_path :: "bytes \<Rightarrow> (app_sw, bip32_path \<times> bip32_path option) res" where
  "parse_one_path data = rbind (bip32_try_from_bytes data) (\<lambda>p. Inr (p, None))"

fun parse_shielded_paths ::
  "bytes \<Rightarrow> p2_shielded_addr_mode \<Rightarrow> (app_sw, bip32_path \<times> bip32_path option) res" where
  "parse_shielded_paths data OrchardAddress = parse_one_path data"
| "parse_shielded_paths data UAddress = parse_two_paths data"

text \<open>The accounts of the two paths of a command, without their hardening bit.\<close>

definition same_account_index :: "bip32_path \<Rightarrow> bip32_path \<Rightarrow> (app_sw, bool) res" where
  "same_account_index p q =
     rbind (index (as_slice p) 2) (\<lambda>a.
     rbind (index (as_slice q) 2) (\<lambda>b.
     Inr (a AND UNHARDENED_MASK = b AND UNHARDENED_MASK)))"

definition orchard_raw_address :: "env \<Rightarrow> account_env \<Rightarrow> bytes \<Rightarrow> (app_sw, bytes) res" where
  "orchard_raw_address E A fvk =
     rbind (map_err_r map_ledger_crypto_error (fvk_to_ivk_ledger E fvk External)) (\<lambda>ivk.
     map_err_r map_ledger_crypto_error (address_at_ledger A ivk 0))"

fun address_response ::
  "env \<Rightarrow> account_env \<Rightarrow> p2_shielded_addr_mode \<Rightarrow> bool \<Rightarrow> bip32_path \<Rightarrow> bip32_path option \<Rightarrow> bytes \<Rightarrow> bytes happ"
  where
  "address_response E A OrchardAddress display p transparent_path orchard_fvk =
     lift_r (orchard_raw_address E A orchard_fvk)"
| "address_response E A UAddress display p transparent_path orchard_fvk =
     bnd (some_or transparent_path WrongApduLength) (\<lambda>t.
     bnd (lift_r (orchard_raw_address E A orchard_fvk)) (\<lambda>raw.
     bnd (some_or (unified_address_encode E raw (orchard_network p)) TechnicalProblem)
       (\<lambda>orchard_address_str.
     bnd (when_do display
            (bnd (lift_r (transparent_account_address E t)) (\<lambda>transparent_address.
             bnd (ui_display_shielded_address A orchard_address_str transparent_address)
               (\<lambda>approved. ensure approved Deny)))) (\<lambda>_.
     lift_r (encode_string_response (str_bytes orchard_address_str))))))"

definition handler_get_shielded_addr ::
  "env \<Rightarrow> account_env \<Rightarrow> p2_shielded_addr_mode \<Rightarrow> bool \<Rightarrow> unit happ" where
  "handler_get_shielded_addr E A mode display =
     bnd (ensure (\<not> (display \<and> mode = OrchardAddress)) WrongP1P2) (\<lambda>_.
     bnd comm_get_data (\<lambda>data.
     bnd (lift_r (parse_shielded_paths data mode)) (\<lambda>(p, transparent_path).
     bnd (ensure (check_bip44_compliance p Zip32Only) IncorrectData) (\<lambda>_.
     bnd (when_do (mode = UAddress)
            (bnd (some_or transparent_path WrongApduLength) (\<lambda>t.
             bnd (ensure (check_bip44_compliance t (Full False)) IncorrectData) (\<lambda>_.
             bnd (lift_r (same_account_index p t)) (\<lambda>same.
             ensure same IncorrectData))))) (\<lambda>_.
     bnd (derive_orchard_fvk E p) (\<lambda>orchard_fvk.
     bnd (address_response E A mode display p transparent_path orchard_fvk) (\<lambda>resp.
     comm_append resp)))))))"

section \<open>Viewing keys\<close>

datatype p2_vk_mode = Ufvk | OrchardFvk

definition VK_RESPONSE_CHUNK_LEN :: nat where "VK_RESPONSE_CHUNK_LEN = 255"

definition check_transparent_vk_path :: "bip32_path \<Rightarrow> bool" where
  "check_transparent_vk_path p =
     (let pa = as_slice p in
      length pa = 3 \<and> pa ! 0 = (BIP44_PURPOSE OR HARDENED) \<and> pa ! 1 = (ZCASH_BIP44_COIN_TYPE OR HARDENED)
      \<and> pa ! 2 AND HARDENED \<noteq> 0)"

fun parse_vk_paths :: "bytes \<Rightarrow> p2_vk_mode \<Rightarrow> (app_sw, bip32_path \<times> bip32_path option) res" where
  "parse_vk_paths data OrchardFvk = parse_one_path data"
| "parse_vk_paths data Ufvk = parse_two_paths data"

definition append_pending_vk_chunk :: "unit happ" where
  "append_pending_vk_chunk =
     bnd (gets vk_response) (\<lambda>r.
     bnd (some_or r BadState) (\<lambda>pending.
     let end1 = min (vk_offset pending + VK_RESPONSE_CHUNK_LEN) (length (vk_bytes pending)) in
     bnd (lift_r (slice (vk_offset pending) end1 (vk_bytes pending))) (\<lambda>chunk.
     bnd (comm_append chunk) (\<lambda>_.
     if end1 = length (vk_bytes pending)
     then modify (\<lambda>s. s\<lparr> is_vk_display_finished := True, vk_response := None \<rparr>)
     else modify (\<lambda>s. s\<lparr> vk_response := Some (pending\<lparr> vk_offset := end1 \<rparr>) \<rparr>)))))"

definition confirm_export :: "bool happ \<Rightarrow> unit happ" where
  "confirm_export shown =
     bnd shown (\<lambda>approved.
     if \<not> approved then bnd (modify (\<lambda>s. s\<lparr> is_vk_display_finished := True \<rparr>)) (\<lambda>_. throw Deny)
     else ret ())"

fun vk_export :: "env \<Rightarrow> account_env \<Rightarrow> p2_vk_mode \<Rightarrow> bip32_path \<Rightarrow> bip32_path option \<Rightarrow> u32 \<Rightarrow> bytes \<Rightarrow> bytes happ"
  where
  "vk_export E A OrchardFvk p transparent_path account orchard_fvk =
     bnd (confirm_export (ui_display_orchard_fvk A (hex_slice orchard_fvk) account)) (\<lambda>_.
     ret orchard_fvk)"
| "vk_export E A Ufvk p transparent_path account orchard_fvk =
     bnd (some_or transparent_path WrongApduLength) (\<lambda>t.
     bnd (lift_r (derive_transparent_account_pubkey E t)) (\<lambda>transparent_bytes.
     bnd (some_or (ufvk_encode A orchard_fvk transparent_bytes (orchard_network p)) TechnicalProblem)
       (\<lambda>ufvk_str.
     bnd (confirm_export (ui_display_ufvk A ufvk_str account)) (\<lambda>_.
     lift_r (encode_string_response (str_bytes ufvk_str))))))"

definition handler_get_vk :: "env \<Rightarrow> account_env \<Rightarrow> p2_vk_mode \<Rightarrow> bool \<Rightarrow> unit happ" where
  "handler_get_vk E A mode continue_response =
     bnd comm_get_data (\<lambda>data.
     if continue_response then
       bnd (ensure (data = []) WrongApduLength) (\<lambda>_. append_pending_vk_chunk)
     else
       bnd (modify (\<lambda>s. s\<lparr> vk_response := None \<rparr>)) (\<lambda>_.
       bnd (lift_r (parse_vk_paths data mode)) (\<lambda>(p, transparent_path).
       bnd (ensure (check_bip44_compliance p Zip32Only) IncorrectData) (\<lambda>_.
       bnd (when_do (mode = Ufvk)
              (bnd (some_or transparent_path WrongApduLength) (\<lambda>t.
               bnd (ensure (check_transparent_vk_path t) IncorrectData) (\<lambda>_.
               bnd (lift_r (same_account_index p t)) (\<lambda>same.
               ensure same IncorrectData))))) (\<lambda>_.
       bnd (some_or (derivation_account p) IncorrectData) (\<lambda>account.
       bnd (derive_orchard_fvk E p) (\<lambda>orchard_fvk.
       bnd (vk_export E A mode p transparent_path (account AND UNHARDENED_MASK) orchard_fvk)
         (\<lambda>response_bytes.
       bnd (modify (\<lambda>s. s\<lparr> vk_response := Some \<lparr> vk_bytes = response_bytes, vk_offset = 0 \<rparr> \<rparr>)) (\<lambda>_.
       append_pending_vk_chunk)))))))))"

section \<open>Exporting a viewing key\<close>

text \<open>What a host sends to export the key of account \<open>a\<close>, the title of the screen, and the exported
  bytes with the text the screen is made from.\<close>

fun vk_request :: "p2_vk_mode \<Rightarrow> u32 \<Rightarrow> bytes" where
  "vk_request OrchardFvk a = encode_path [hardened 32, hardened 133, hardened a]"
| "vk_request Ufvk a = encode_path [hardened 32, hardened 133, hardened a]
     @ encode_path [hardened 44, hardened 133, hardened a]"

fun vk_title :: "p2_vk_mode \<Rightarrow> string" where
  "vk_title OrchardFvk = ''Share Zcash Orchard Full Viewing Key?''"
| "vk_title Ufvk = ''Share Zcash Unified Full Viewing Key?''"

fun vk_payload :: "env \<Rightarrow> account_env \<Rightarrow> p2_vk_mode \<Rightarrow> u32 \<Rightarrow> bytes \<Rightarrow> string \<Rightarrow> bytes \<Rightarrow> bool" where
  "vk_payload E A OrchardFvk a fvk shown payload \<longleftrightarrow> shown = hex_slice fvk \<and> payload = fvk"
| "vk_payload E A Ufvk a fvk shown payload \<longleftrightarrow>
     (\<exists>pk code compressed.
        secp256k1_public_key E [hardened 44, hardened 133, hardened a] = Some pk
      \<and> secp256k1_chain_code E [hardened 44, hardened 133, hardened a] = Some code
      \<and> compressed_public_key \<lparr> public_key_slice = pk, chain_code = code \<rparr> = Inr compressed
      \<and> ufvk_encode A fvk (code @ compressed) Main_net = Some shown
      \<and> payload = u16_to_be_bytes (length shown) @ str_bytes shown)"

text \<open>The export of account \<open>a\<close>'s key \<open>fvk\<close> was confirmed on a screen that names the account.\<close>

definition vk_granted :: "env \<Rightarrow> account_env \<Rightarrow> p2_vk_mode \<Rightarrow> nat \<Rightarrow> u32 \<Rightarrow> bytes \<Rightarrow> bool" where
  "vk_granted E A mode t a payload \<longleftrightarrow>
     (\<exists>sk fvk shown. zip32_orchard_derive E t [hardened 32, hardened 133, hardened a] = Some sk
        \<and> derive_orchard_fvk_bytes E sk = Inr fvk
        \<and> vk_payload E A mode a fvk shown payload
        \<and> address_review_show A (t + 1) (fvk_screen A (vk_title mode) shown a))"

definition pending_after :: "nat \<Rightarrow> bytes \<Rightarrow> pending_vk_response option" where
  "pending_after n payload =
     (if n < length payload then Some \<lparr> vk_bytes = payload, vk_offset = n \<rparr> else None)"

definition vk_no_export :: "world \<Rightarrow> app_sw fault \<Rightarrow> world \<Rightarrow> bool" where
  "vk_no_export s e s' \<longleftrightarrow> comm_out s' = comm_out s \<and> vk_response s' = None"

lemma wp_comm_get_data [wp_simps]:
  "wp comm_get_data Q R s = (case comm_data s of Some d \<Rightarrow> Q d s | None \<Rightarrow> R (Fail WrongApduLength) s)"
  by (simp add: comm_get_data_def wp_simps)

lemma wp_show_address [wp_simps]:
  "wp (show_address A screen) Q R s
     = Q (address_review_show A (ticks s) screen) (s\<lparr> ticks := ticks s + 1 \<rparr>)"
  by (simp add: show_address_def wp_simps)

lemma wp_derive_orchard_fvk:
  assumes "\<And>sk fvk d. zip32_orchard_derive E (ticks s) (as_slice p) = Some sk \<Longrightarrow>
      derive_orchard_fvk_bytes E sk = Inr fvk \<Longrightarrow>
      Q fvk (s\<lparr> orchard_derivations := d, ticks := ticks s + 1 \<rparr>)"
    and "\<And>e d t. R e (s\<lparr> orchard_derivations := d, ticks := t \<rparr>)"
  shows "wp (derive_orchard_fvk E p) Q R s"
proof -
  have r: "R e (s\<lparr> orchard_derivations := d \<rparr>)" for e d
  proof -
    have "s\<lparr> orchard_derivations := d, ticks := ticks s \<rparr> = s\<lparr> orchard_derivations := d \<rparr>" by simp
    then show ?thesis using assms(2) [where e = e and d = d and t = "ticks s"] by simp
  qed
  show ?thesis
    using assms
    by (auto simp: derive_orchard_fvk_def derive_orchard_sk_bytes_def consume_orchard_derivation_budget_def
        wp_simps r split: option.splits sum.splits)
qed

lemma account_bits: "bit (a :: u32) 31 \<Longrightarrow> hardened (a AND UNHARDENED_MASK) = a"
  using sign_bit_split [of a] by (simp add: UNHARDENED_MASK_def and_low_mask)

lemma same_account_eq:
  assumes "bit (a :: u32) 31" "bit b 31" "a AND UNHARDENED_MASK = b AND UNHARDENED_MASK"
  shows "a = b"
proof -
  have "a = hardened (a AND UNHARDENED_MASK)" by (rule account_bits [OF assms(1), symmetric])
  also have "\<dots> = b" unfolding assms(3) by (rule account_bits [OF assms(2)])
  finally show ?thesis .
qed

lemma wp_append_pending_vk_chunk:
  assumes "vk_response s = Some \<lparr> vk_bytes = bs, vk_offset = n \<rparr>" "n \<le> length bs"
    "Q () (s\<lparr> comm_out := comm_out s @ take 255 (drop n bs),
       is_vk_display_finished := is_vk_display_finished s \<or> length bs \<le> n + 255,
       vk_response := pending_after (n + 255) bs \<rparr>)"
  shows "wp append_pending_vk_chunk Q R s"
proof -
  have [simp]: "take (min (n + 255) (length bs) - n) (drop n bs) = take 255 (drop n bs)"
    by (simp add: min_def)
  show ?thesis
    using assms
    by (auto simp: append_pending_vk_chunk_def wp_simps Let_def VK_RESPONSE_CHUNK_LEN_def slice_def
        pending_after_def min_def not_le split: if_splits)
qed

definition vk_exported :: "env \<Rightarrow> account_env \<Rightarrow> p2_vk_mode \<Rightarrow> u32 \<Rightarrow> world \<Rightarrow> world \<Rightarrow> bool" where
  "vk_exported E A mode a s s' \<longleftrightarrow>
     (\<exists>payload. vk_granted E A mode (ticks s) a payload
        \<and> comm_out s' = comm_out s @ take 255 payload \<and> vk_response s' = pending_after 255 payload)"

lemma wp_confirm_export:
  "wp (confirm_export (show_address A screen)) Q R s =
     (if address_review_show A (ticks s) screen then Q () (s\<lparr> ticks := ticks s + 1 \<rparr>)
      else R (Fail Deny) (s\<lparr> ticks := ticks s + 1, is_vk_display_finished := True \<rparr>))"
  by (simp add: confirm_export_def wp_simps)

lemma derivation_account_zip32: "as_slice p = [x, y, a] \<Longrightarrow> derivation_account p = Some a"
  by (simp add: derivation_account_def Let_def path_consts)

lemma vk_export_tail:
  assumes p: "as_slice p = [hardened 32, hardened 133, hardened a]"
    and t: "mode = Ufvk \<Longrightarrow> \<exists>t. transparent_path = Some t \<and> as_slice t = [hardened 44, hardened 133, hardened a]"
  shows "wp (bnd (derive_orchard_fvk E p) (\<lambda>fvk.
       bnd (vk_export E A mode p transparent_path a fvk) (\<lambda>response_bytes.
       bnd (modify (\<lambda>s. s\<lparr> vk_response := Some \<lparr> vk_bytes = response_bytes, vk_offset = 0 \<rparr> \<rparr>)) (\<lambda>_.
       append_pending_vk_chunk))))
     (\<lambda>_. vk_exported E A mode a s) (\<lambda>e s'. comm_out s' = comm_out s \<and> vk_response s' = vk_response s) s"
  unfolding wp_bnd
proof (rule wp_derive_orchard_fvk)
  fix sk fvk d
  assume k: "zip32_orchard_derive E (ticks s) (as_slice p) = Some sk" "derive_orchard_fvk_bytes E sk = Inr fvk"
  let ?s = "s\<lparr> orchard_derivations := d, ticks := ticks s + 1 \<rparr>"
  have sent: "wp (modify (\<lambda>s. s\<lparr> vk_response := Some \<lparr> vk_bytes = payload, vk_offset = 0 \<rparr> \<rparr>))
        (\<lambda>_. wp append_pending_vk_chunk (\<lambda>_. vk_exported E A mode a s)
           (\<lambda>e s'. comm_out s' = comm_out s \<and> vk_response s' = vk_response s))
        (\<lambda>e s'. comm_out s' = comm_out s \<and> vk_response s' = vk_response s) (?s\<lparr> ticks := t' \<rparr>)"
    if g: "vk_payload E A mode a fvk shown payload"
      "address_review_show A (ticks s + 1) (fvk_screen A (vk_title mode) shown a)" for payload shown t'
  proof -
    have "vk_granted E A mode (ticks s) a payload"
      unfolding vk_granted_def using k g p by auto
    then show ?thesis
      unfolding wp_modify by (intro wp_append_pending_vk_chunk) (auto simp: vk_exported_def)
  qed
  have net: "orchard_network p = Main_net" by (simp add: orchard_network_def vec_get_def p hardened_numerals)
  show "wp (vk_export E A mode p transparent_path a fvk) (\<lambda>response_bytes.
        wp (modify (\<lambda>s. s\<lparr> vk_response := Some \<lparr> vk_bytes = response_bytes, vk_offset = 0 \<rparr> \<rparr>))
        (\<lambda>_. wp append_pending_vk_chunk (\<lambda>_. vk_exported E A mode a s)
           (\<lambda>e s'. comm_out s' = comm_out s \<and> vk_response s' = vk_response s))
        (\<lambda>e s'. comm_out s' = comm_out s \<and> vk_response s' = vk_response s))
      (\<lambda>e s'. comm_out s' = comm_out s \<and> vk_response s' = vk_response s) ?s"
  proof (cases mode)
    case OrchardFvk
    show ?thesis
      using sent [of "hex_slice fvk" fvk "ticks s + 2"]
      by (simp add: OrchardFvk wp_bnd wp_ret ui_display_orchard_fvk_def ui_display_fvk_def wp_confirm_export)
        blast
  next
    case Ufvk
    then obtain q where q: "transparent_path = Some q" "as_slice q = [hardened 44, hardened 133, hardened a]"
      using t by blast
    have pay: "vk_payload E A mode a fvk shown (u16_to_be_bytes (length shown) @ str_bytes shown)"
      if "derive_transparent_account_pubkey E q = Inr tb" "ufvk_encode A fvk tb Main_net = Some shown" for tb shown
      using that q(2)
      by (auto simp: Ufvk derive_transparent_account_pubkey_def extended_public_key_try_from_def rbind_eq_Inr)
    have len: "encode_string_response (str_bytes shown) = Inr r \<Longrightarrow> r = u16_to_be_bytes (length shown) @ str_bytes shown" for shown r
      by (auto simp: encode_string_response_def str_bytes_def split: if_splits)
    show ?thesis
      using sent [of _ _ "ticks s + 2", OF pay]
      by (auto simp: Ufvk q(1) wp_bnd wp_some_or wp_lift_r net ui_display_ufvk_def ui_display_fvk_def
          wp_confirm_export dest!: len split: option.splits sum.splits)
  qed
qed simp

lemma parse_one_path_Inr:
  "parse_one_path data = Inr (p, t) \<Longrightarrow> data = encode_path (as_slice p) \<and> t = None"
  by (auto simp: parse_one_path_def rbind_eq_Inr bip32_try_from_bytes_char)

lemma parse_two_paths_Inr:
  "parse_two_paths data = Inr (p, t) \<Longrightarrow>
     \<exists>q. t = Some q \<and> data = encode_path (as_slice p) @ encode_path (as_slice q)"
  by (auto simp: parse_two_paths_def rbind_eq_Inr split: if_splits dest!: from_prefixed_bytes_inverse)

text \<open>The checks both path commands make: with a transparent path the accounts are the same.\<close>

lemma zip32_account:
  assumes "check_bip44_compliance p Zip32Only"
  obtains a where "as_slice p = [hardened 32, hardened 133, hardened a]" "a AND UNHARDENED_MASK = a"
    "derivation_account p = Some (hardened a)" "hardened a AND UNHARDENED_MASK = a"
proof -
  from assms obtain c where c: "as_slice p = [hardened 32, hardened 133, c]" "bit c 31"
    using zip32_branch by blast
  show thesis
  proof (rule that [of "c AND UNHARDENED_MASK"])
    show "hardened (c AND UNHARDENED_MASK) AND UNHARDENED_MASK = c AND UNHARDENED_MASK"
      unfolding account_bits [OF c(2)] ..
  qed (simp_all add: account_bits [OF c(2)] c(1) derivation_account_zip32 and.assoc)
qed

lemma transparent_vk_account:
  assumes "check_transparent_vk_path q" "as_slice p = [x, y, hardened a]" "same_account_index p q = Inr True"
  shows "as_slice q = [hardened 44, hardened 133, hardened a]"
proof -
  from assms(1) obtain c where c: "as_slice q = [hardened 44, hardened 133, c]" "bit c 31"
    by (auto simp: check_transparent_vk_path_def Let_def list_len_3 path_consts hardened_numerals and_sign_bit
        split: if_splits)
  have "hardened a = c"
  proof (rule same_account_eq)
    show "hardened a AND UNHARDENED_MASK = c AND UNHARDENED_MASK"
      using assms(2,3) c(1) by (simp add: same_account_index_def index_def)
  qed (simp_all add: hardened_bits c(2))
  with c show ?thesis by simp
qed

lemma vk_front:
  assumes data: "comm_data s = Some data"
    and tail: "\<And>p t account. check_bip44_compliance p Zip32Only \<Longrightarrow> derivation_account p = Some account \<Longrightarrow>
      (mode = OrchardFvk \<Longrightarrow> data = encode_path (as_slice p)) \<Longrightarrow>
      (mode = Ufvk \<Longrightarrow> \<exists>q. t = Some q \<and> data = encode_path (as_slice p) @ encode_path (as_slice q)
         \<and> check_transparent_vk_path q \<and> same_account_index p q = Inr True) \<Longrightarrow>
      wp (K p t account) Q R (s\<lparr> vk_response := None \<rparr>)"
    and "\<And>e. R e (s\<lparr> vk_response := None \<rparr>)"
  shows "wp (bnd (modify (\<lambda>s. s\<lparr> vk_response := None \<rparr>)) (\<lambda>_.
       bnd (lift_r (parse_vk_paths data mode)) (\<lambda>(p, transparent_path).
       bnd (ensure (check_bip44_compliance p Zip32Only) IncorrectData) (\<lambda>_.
       bnd (when_do (mode = Ufvk)
              (bnd (some_or transparent_path WrongApduLength) (\<lambda>t.
               bnd (ensure (check_transparent_vk_path t) IncorrectData) (\<lambda>_.
               bnd (lift_r (same_account_index p t)) (\<lambda>same.
               ensure same IncorrectData))))) (\<lambda>_.
       bnd (some_or (derivation_account p) IncorrectData) (\<lambda>account. K p transparent_path account)))))) Q R s"
  using assms(3)
  by (cases mode)
    (auto intro!: tail simp: wp_bnd wp_modify wp_lift_r wp_ensure wp_some_or wp_when_do
      split: sum.splits option.splits dest!: parse_one_path_Inr parse_two_paths_Inr)

lemma vk_export_wp:
  "wp (handler_get_vk E A mode False)
     (\<lambda>_ s'. \<exists>a. comm_data s = Some (vk_request mode a) \<and> vk_exported E A mode a s s')
     (\<lambda>e s'. comm_out s' = comm_out s \<and> (comm_data s \<noteq> None \<longrightarrow> vk_response s' = None)) s"
proof (cases "comm_data s")
  case None
  then show ?thesis by (simp add: handler_get_vk_def wp_simps)
next
  case (Some data)
  let ?R = "\<lambda>e s'. comm_out s' = comm_out s \<and> (comm_data s \<noteq> None \<longrightarrow> vk_response s' = None)"
  let ?s = "s\<lparr> vk_response := None \<rparr>"
  let ?tail = "\<lambda>p t account. bnd (derive_orchard_fvk E p) (\<lambda>fvk.
       bnd (vk_export E A mode p t (account AND UNHARDENED_MASK) fvk) (\<lambda>response_bytes.
       bnd (modify (\<lambda>s. s\<lparr> vk_response := Some \<lparr> vk_bytes = response_bytes, vk_offset = 0 \<rparr> \<rparr>)) (\<lambda>_.
       append_pending_vk_chunk)))"
  have tail: "wp (?tail p t account)
      (\<lambda>_ s'. \<exists>a. comm_data s = Some (vk_request mode a) \<and> vk_exported E A mode a s s') ?R ?s"
    if h: "check_bip44_compliance p Zip32Only" "derivation_account p = Some account"
      "mode = OrchardFvk \<Longrightarrow> data = encode_path (as_slice p)"
      "mode = Ufvk \<Longrightarrow> \<exists>q. t = Some q \<and> data = encode_path (as_slice p) @ encode_path (as_slice q)
         \<and> check_transparent_vk_path q \<and> same_account_index p q = Inr True" for p t account
  proof -
    obtain a where a: "as_slice p = [hardened 32, hardened 133, hardened a]" "account AND UNHARDENED_MASK = a"
      using zip32_account [OF h(1)] h(2) by auto
    have q: "mode = Ufvk \<Longrightarrow> \<exists>q. t = Some q \<and> as_slice q = [hardened 44, hardened 133, hardened a]
        \<and> data = vk_request mode a"
      using h(4) transparent_vk_account [OF _ a(1)] a(1) by fastforce
    have data: "data = vk_request mode a" using q h(3) a(1) by (cases mode) auto
    have "wp (?tail p t account) (\<lambda>_. vk_exported E A mode a ?s)
        (\<lambda>e s'. comm_out s' = comm_out ?s \<and> vk_response s' = vk_response ?s) ?s"
      unfolding a(2) by (rule vk_export_tail) (use a q in auto)
    then show ?thesis
    proof (rule wp_mono)
      show "\<exists>a. comm_data s = Some (vk_request mode a) \<and> vk_exported E A mode a s s'"
        if "vk_exported E A mode a ?s s'" for s'
        using that Some data by (auto simp: vk_exported_def)
    qed auto
  qed
  have "wp (handler_get_vk E A mode False) (\<lambda>_ s'. \<exists>a. comm_data s = Some (vk_request mode a) \<and> vk_exported E A mode a s s') ?R s
    = wp (bnd (modify (\<lambda>s. s\<lparr> vk_response := None \<rparr>)) (\<lambda>_.
       bnd (lift_r (parse_vk_paths data mode)) (\<lambda>(p, transparent_path).
       bnd (ensure (check_bip44_compliance p Zip32Only) IncorrectData) (\<lambda>_.
       bnd (when_do (mode = Ufvk)
              (bnd (some_or transparent_path WrongApduLength) (\<lambda>t.
               bnd (ensure (check_transparent_vk_path t) IncorrectData) (\<lambda>_.
               bnd (lift_r (same_account_index p t)) (\<lambda>same.
               ensure same IncorrectData))))) (\<lambda>_.
       bnd (some_or (derivation_account p) IncorrectData) (\<lambda>account. ?tail p transparent_path account))))))
      (\<lambda>_ s'. \<exists>a. comm_data s = Some (vk_request mode a) \<and> vk_exported E A mode a s s') ?R s"
    unfolding handler_get_vk_def wp_bnd [of comm_get_data] wp_comm_get_data Some option.case if_False ..
  then show ?thesis using vk_front [OF Some tail] by simp
qed

end
