(* ===== verification/Pczt.thy ===== *)
theory Pczt
  imports Keys
begin

text \<open>
  The parts of the PCZT parser shared by its sections: \<open>src/src/parser/pczt.rs\<close> without the dispatch
  loops, and \<open>src/src/parser/pczt/common.rs\<close> (header, global fields, and the review that closes the
  parse).
\<close>

section \<open>Constants\<close>

definition MAGIC_BYTES :: bytes where "MAGIC_BYTES = str_bytes ''PCZT''"
definition PCZT_VERSION_1 :: u32 where "PCZT_VERSION_1 = 1"
definition PCZT_VERSION_2 :: u32 where "PCZT_VERSION_2 = 2"
definition DEFAULT_SEQUENCE :: u32 where "DEFAULT_SEQUENCE = 0xFFFFFFFF"
definition COMPRESSED_PUBKEY_SIZE :: nat where "COMPRESSED_PUBKEY_SIZE = 33"
definition ZIP32_SEED_FINGERPRINT_SIZE :: nat where "ZIP32_SEED_FINGERPRINT_SIZE = 32"
definition ZIP32_DERIVATION_PATH_COUNT_OFFSET :: nat where
  "ZIP32_DERIVATION_PATH_COUNT_OFFSET = COMPRESSED_PUBKEY_SIZE + ZIP32_SEED_FINGERPRINT_SIZE"
definition ORCHARD_MEMO_SIZE :: nat where "ORCHARD_MEMO_SIZE = 512"
definition ORCHARD_NOTE_PLAINTEXT_PREFIX_SIZE :: nat where "ORCHARD_NOTE_PLAINTEXT_PREFIX_SIZE = 52"
definition ORCHARD_ENC_CIPHERTEXT_SIZE :: nat where
  "ORCHARD_ENC_CIPHERTEXT_SIZE = ORCHARD_NOTE_PLAINTEXT_PREFIX_SIZE + ORCHARD_MEMO_SIZE + 16"
definition ORCHARD_OUT_CIPHERTEXT_SIZE :: nat where "ORCHARD_OUT_CIPHERTEXT_SIZE = 64 + 16"
definition ORCHARD_ENC_CIPHERTEXT_TAG_OFFSET :: nat where
  "ORCHARD_ENC_CIPHERTEXT_TAG_OFFSET = ORCHARD_NOTE_PLAINTEXT_PREFIX_SIZE + ORCHARD_MEMO_SIZE"
definition ZCASH_MEMO_TEXT_MAX_TAG :: u8 where "ZCASH_MEMO_TEXT_MAX_TAG = 0xF4"
definition ZCASH_MEMO_EMPTY_TAG :: u8 where "ZCASH_MEMO_EMPTY_TAG = 0xF6"
definition HASH_SIZE :: nat where "HASH_SIZE = 32"
definition MEMO_HASH_DISPLAY_LEN :: nat where "MEMO_HASH_DISPLAY_LEN = 2 * HASH_SIZE"
definition MAX_RETAINED_MEMO_BYTES :: nat where "MAX_RETAINED_MEMO_BYTES = 2 * ORCHARD_MEMO_SIZE"

lemmas size_consts = COMPRESSED_PUBKEY_SIZE_def ZIP32_SEED_FINGERPRINT_SIZE_def
  ZIP32_DERIVATION_PATH_COUNT_OFFSET_def ORCHARD_MEMO_SIZE_def
  ORCHARD_NOTE_PLAINTEXT_PREFIX_SIZE_def ORCHARD_ENC_CIPHERTEXT_SIZE_def
  ORCHARD_OUT_CIPHERTEXT_SIZE_def ORCHARD_ENC_CIPHERTEXT_TAG_OFFSET_def HASH_SIZE_def
  MEMO_HASH_DISPLAY_LEN_def MAX_RETAINED_MEMO_BYTES_def PREVOUT_SIZE_def
  ORCHARD_RAW_ADDRESS_SIZE_def

section \<open>Hidden change, display budget and memos\<close>

definition record_hidden_shielded_change_account :: "bip32_path \<Rightarrow> unit papp" where
  "record_hidden_shielded_change_account p =
     (case derivation_account p of
        None \<Rightarrow> throw (Custom ''Shielded change path carries no account'')
      | Some account \<Rightarrow> bnd (get_ti change_account) (\<lambda>previous.
          if previous \<noteq> None \<and> previous \<noteq> Some account
          then throw (Custom ''PCZT change outputs declare different accounts'')
          else mod_ti (\<lambda>t. t\<lparr> change_account := Some account \<rparr>)))"

definition claim_displayed_shielded_output :: "unit papp" where
  "claim_displayed_shielded_output = bnd (get_ti displayed_shielded_outputs) (\<lambda>n.
     if n \<ge> MAX_PCZT_SHIELDED_DISPLAYED_OUTPUTS_NUMBER then throw (Sw NotEnoughMemorySpace)
     else mod_ti (\<lambda>t. t\<lparr> displayed_shielded_outputs := displayed_shielded_outputs t + 1 \<rparr>))"

definition is_displayable_memo_text :: "bytes \<Rightarrow> bool" where
  "is_displayable_memo_text text = list_all (\<lambda>b. 0x20 \<le> b \<and> b \<le> 0x7E) text"

definition try_retain :: "env \<Rightarrow> bytes \<Rightarrow> string papp" where
  "try_retain E text = bnd (try_reserve_exact E (length text)) (\<lambda>_. ret (str_of_bytes text))"

definition hex_digit :: "nat \<Rightarrow> char" where
  "hex_digit n = (if n < 10 then char_of (48 + n) else char_of (87 + n))"

text \<open>The format \<open>{byte:02x}\<close> of each byte.\<close>

definition hex_lower :: "bytes \<Rightarrow> string" where
  "hex_lower bs = concat (map (\<lambda>b. [hex_digit (unat b div 16), hex_digit (unat b mod 16)]) bs)"

text \<open>One more than the position of the last non-zero byte, zero when there is none.\<close>

definition memo_text_len :: "bytes \<Rightarrow> nat" where
  "memo_text_len memo = length (dropWhile (\<lambda>b. b = 0) (rev memo))"

definition memo_display :: "env \<Rightarrow> bytes \<Rightarrow> tx_output_memo option papp" where
  "memo_display E memo =
     (if length memo \<noteq> ORCHARD_MEMO_SIZE then throw (Sw TechnicalProblem)
      else if memo ! 0 = ZCASH_MEMO_EMPTY_TAG \<and> list_all (\<lambda>b. b = 0) (tl memo) then ret None
      else if memo_text_len memo = 0 then ret None
      else
        let memo_len = memo_text_len memo in
        bnd (get_ti retained_memo_bytes) (\<lambda>retained_bytes.
        let budget = MAX_RETAINED_MEMO_BYTES - retained_bytes in
        if memo ! 0 \<le> ZCASH_MEMO_TEXT_MAX_TAG \<and> memo_len \<le> budget
           \<and> utf8_valid (take memo_len memo) \<and> is_displayable_memo_text (take memo_len memo)
        then
          bnd (try_retain E (take memo_len memo)) (\<lambda>retained.
          bnd (mod_ti (\<lambda>t. t\<lparr> retained_memo_bytes := retained_memo_bytes t + memo_len \<rparr>)) (\<lambda>_.
          ret (Some (memo_text retained))))
        else if MEMO_HASH_DISPLAY_LEN > budget then throw (Sw NotEnoughMemorySpace)
        else
          bnd (lift_r (rbind (blake_update E blake_default memo) (\<lambda>h.
                       rbind (blake_finalize E h) (\<lambda>(d, _). Inr d)))) (\<lambda>hash.
          bnd (try_reserve_exact E MEMO_HASH_DISPLAY_LEN) (\<lambda>_.
          bnd (mod_ti (\<lambda>t. t\<lparr> retained_memo_bytes := retained_memo_bytes t + MEMO_HASH_DISPLAY_LEN \<rparr>)) (\<lambda>_.
          ret (Some (memo_hash (hex_lower hash))))))))"

section \<open>Parser states\<close>

fun is_orchard_state :: "pczt_parser_state \<Rightarrow> bool" where
  "is_orchard_state WaitOrchardAction = True"
| "is_orchard_state WaitOrchardZip32Derivation = True"
| "is_orchard_state WaitOrchardOutput = True"
| "is_orchard_state WaitOrchardEncCiphertextLen = True"
| "is_orchard_state ProcessOrchardEncCiphertext = True"
| "is_orchard_state WaitOrchardOutCiphertextLen = True"
| "is_orchard_state ProcessOrchardOutCiphertext = True"
| "is_orchard_state WaitOrchardOutputMetadata = True"
| "is_orchard_state WaitOrchardTrailer = True"
| "is_orchard_state OrchardActionsDone = True"
| "is_orchard_state _ = False"

fun is_ironwood_state :: "pczt_parser_state \<Rightarrow> bool" where
  "is_ironwood_state WaitIronwoodAction = True"
| "is_ironwood_state WaitIronwoodZip32Derivation = True"
| "is_ironwood_state WaitIronwoodOutput = True"
| "is_ironwood_state WaitIronwoodEncCiphertextLen = True"
| "is_ironwood_state ProcessIronwoodEncCiphertext = True"
| "is_ironwood_state WaitIronwoodOutCiphertextLen = True"
| "is_ironwood_state ProcessIronwoodOutCiphertext = True"
| "is_ironwood_state WaitIronwoodOutputMetadata = True"
| "is_ironwood_state WaitIronwoodTrailer = True"
| "is_ironwood_state IronwoodActionsDone = True"
| "is_ironwood_state _ = False"

fun is_transparent_output_state :: "pczt_parser_state \<Rightarrow> bool" where
  "is_transparent_output_state TransparentInputsDone = True"
| "is_transparent_output_state WaitTransparentOutput = True"
| "is_transparent_output_state (ProcessTransparentOutputScript _ _) = True"
| "is_transparent_output_state WaitTransparentOutputBip32Derivation = True"
| "is_transparent_output_state TransparentOutputsDone = True"
| "is_transparent_output_state _ = False"

definition is_transparent_inputs_finished :: "pczt_parser \<Rightarrow> bool" where
  "is_transparent_inputs_finished p \<longleftrightarrow> is_transparent_output_state (pz_state p)
     \<or> is_orchard_state (pz_state p) \<or> is_ironwood_state (pz_state p)"

definition is_transparent_outputs_finished :: "pczt_parser \<Rightarrow> bool" where
  "is_transparent_outputs_finished p \<longleftrightarrow> pz_state p = TransparentOutputsDone
     \<or> is_orchard_state (pz_state p) \<or> is_ironwood_state (pz_state p)"

definition is_orchard_actions_finished :: "pczt_parser \<Rightarrow> bool" where
  "is_orchard_actions_finished p =
     (if pz_state p = OrchardActionsDone then True
      else if is_ironwood_state (pz_state p) then True else False)"

definition is_ironwood_actions_finished :: "pczt_parser \<Rightarrow> bool" where
  "is_ironwood_actions_finished p \<longleftrightarrow> pz_state p = IronwoodActionsDone"

definition is_ready_to_sign :: "pczt_parser \<Rightarrow> bool" where
  "is_ready_to_sign p =
     (let orchard_done = \<not> has_orchard_bundle p \<or> is_orchard_actions_finished p;
          ironwood_done = \<not> is_v6_tx p \<or> \<not> has_ironwood_bundle p \<or> is_ironwood_actions_finished p
      in orchard_done \<and> ironwood_done \<and> outputs_reviewed p)"

definition is_finished :: "pczt_parser \<Rightarrow> bool" where
  "is_finished p \<longleftrightarrow> pczt_finished p \<and> is_ready_to_sign p"

definition is_session_active :: "pczt_parser \<Rightarrow> bool" where
  "is_session_active p \<longleftrightarrow> pz_state p \<noteq> WaitHeaderAndGlobal \<or> pczt_finished p"

section \<open>Reset, error handling and the cached spending key\<close>

definition pczt_reset :: "(world, 'e, unit) sm" where
  "pczt_reset = mod_p (\<lambda>_. pczt_parser_new)"

definition reset_on_error :: "'a papp \<Rightarrow> 'a papp" where
  "reset_on_error m = catch_err m (\<lambda>e. bnd pczt_reset (\<lambda>_. throw e))"

definition get_orchard_spending_key :: "env \<Rightarrow> bip32_path \<Rightarrow> bytes happ" where
  "get_orchard_spending_key E p =
     bnd (get_p orchard_spending_key_path) (\<lambda>cached.
     bnd (case cached of
            Some cached_path \<Rightarrow> if cached_path \<noteq> p then throw BadState else ret ()
          | None \<Rightarrow>
              bnd (derive_orchard_sk_bytes E p) (\<lambda>sk.
              mod_p (\<lambda>q. q\<lparr> orchard_spending_key := Some sk, orchard_spending_key_path := Some p \<rparr>))) (\<lambda>_.
     bnd (get_p orchard_spending_key) (\<lambda>key.
     some_or key TechnicalProblem)))"

definition clear_orchard_spending_key :: "(world, 'e, unit) sm" where
  "clear_orchard_spending_key =
     mod_p (\<lambda>p. p\<lparr> orchard_spending_key := None, orchard_spending_key_path := None \<rparr>)"

section \<open>The two shielded pools\<close>

text \<open>\<open>orchard.rs\<close> and \<open>ironwood.rs\<close> are the same parser over two sets of fields.  The model
  writes it once, with the pool as an argument; a \<open>bundle_view\<close> is one pool's set of fields of the
  parser, read by \<open>view\<close> and written by \<open>set_view\<close>.\<close>

datatype pool = OrchardPool | IronwoodPool

record bundle_view =
  bn_count :: nat
  bn_parsed :: nat
  bn_records :: "action_signing_record list"
  bn_signed :: nat
  bn_real :: nat
  bn_sig_digest :: "bytes option"
  bn_balance :: int
  bn_spend_sum :: u64
  bn_output_sum :: u64
  bn_present :: bool

fun view :: "pool \<Rightarrow> pczt_parser \<Rightarrow> bundle_view" where
  "view OrchardPool p = \<lparr>
     bn_count = orchard_action_count p, bn_parsed = orchard_action_parsed_count p,
     bn_records = orchard_signing_records p, bn_signed = orchard_signed_action_count p,
     bn_real = orchard_real_spend_count p, bn_sig_digest = orchard_signature_digest p,
     bn_balance = orchard_value_balance p, bn_spend_sum = orchard_spend_value_sum p,
     bn_output_sum = orchard_output_value_sum p, bn_present = has_orchard_bundle p \<rparr>"
| "view IronwoodPool p = \<lparr>
     bn_count = ironwood_action_count p, bn_parsed = ironwood_action_parsed_count p,
     bn_records = ironwood_signing_records p, bn_signed = ironwood_signed_action_count p,
     bn_real = ironwood_real_spend_count p, bn_sig_digest = ironwood_signature_digest p,
     bn_balance = ironwood_value_balance p, bn_spend_sum = ironwood_spend_value_sum p,
     bn_output_sum = ironwood_output_value_sum p, bn_present = has_ironwood_bundle p \<rparr>"

fun set_view :: "pool \<Rightarrow> bundle_view \<Rightarrow> pczt_parser \<Rightarrow> pczt_parser" where
  "set_view OrchardPool v p = p\<lparr>
     orchard_action_count := bn_count v, orchard_action_parsed_count := bn_parsed v,
     orchard_signing_records := bn_records v, orchard_signed_action_count := bn_signed v,
     orchard_real_spend_count := bn_real v, orchard_signature_digest := bn_sig_digest v,
     orchard_value_balance := bn_balance v, orchard_spend_value_sum := bn_spend_sum v,
     orchard_output_value_sum := bn_output_sum v, has_orchard_bundle := bn_present v \<rparr>"
| "set_view IronwoodPool v p = p\<lparr>
     ironwood_action_count := bn_count v, ironwood_action_parsed_count := bn_parsed v,
     ironwood_signing_records := bn_records v, ironwood_signed_action_count := bn_signed v,
     ironwood_real_spend_count := bn_real v, ironwood_signature_digest := bn_sig_digest v,
     ironwood_value_balance := bn_balance v, ironwood_spend_value_sum := bn_spend_sum v,
     ironwood_output_value_sum := bn_output_sum v, has_ironwood_bundle := bn_present v \<rparr>"

definition get_b :: "pool \<Rightarrow> (bundle_view \<Rightarrow> 'a) \<Rightarrow> (world, 'e, 'a) sm" where
  "get_b pl f = get_p (\<lambda>p. f (view pl p))"

definition mod_b :: "pool \<Rightarrow> (bundle_view \<Rightarrow> bundle_view) \<Rightarrow> (world, 'e, unit) sm" where
  "mod_b pl f = mod_p (\<lambda>p. set_view pl (f (view pl p)) p)"

fun pool_name :: "pool \<Rightarrow> string" where
  "pool_name OrchardPool = ''orchard''"
| "pool_name IronwoodPool = ''ironwood''"

text \<open>The error texts of the two files differ in the pool's name only.\<close>

definition pmsg :: "pool \<Rightarrow> string \<Rightarrow> string \<Rightarrow> parser_error" where
  "pmsg pl lead trail_text = Custom (lead @ pool_name pl @ trail_text)"

fun note_version :: "pool \<Rightarrow> u8" where
  "note_version OrchardPool = NOTE_VERSION_ORCHARD"
| "note_version IronwoodPool = NOTE_VERSION_IRONWOOD"

definition reset_current_action :: "pool \<Rightarrow> (world, 'e, unit) sm" where
  "reset_current_action pl = mod_ca (\<lambda>c. c\<lparr>
     ca_cv_net := zeros 32, ca_nullifier := zeros 32, ca_rk := zeros 32, ca_spend_value := 0,
     ca_spend_recipient := zeros ORCHARD_RAW_ADDRESS_SIZE, ca_spend_rho := zeros 32,
     ca_spend_rseed := zeros 32, ca_rcv := None, ca_output_rseed := None, ca_cmx := zeros 32,
     ca_ephemeral_key := zeros 32, ca_out_ciphertext := None,
     ca_output_recipient := zeros ORCHARD_RAW_ADDRESS_SIZE, ca_output_value := 0,
     ca_enc_ciphertext := [], ca_alpha := None, ca_path := None, ca_fvk := None,
     ca_note_plaintext_version := note_version pl \<rparr>)"

definition reset_bundle_state :: "pool \<Rightarrow> nat \<Rightarrow> (world, 'e, unit) sm" where
  "reset_bundle_state pl action_count = seqs [
     mod_b pl (\<lambda>v. v\<lparr>
       bn_count := action_count, bn_parsed := 0, bn_records := [], bn_signed := 0, bn_real := 0,
       bn_sig_digest := None, bn_balance := 0, bn_spend_sum := 0, bn_output_sum := 0 \<rparr>),
     mod_ca (\<lambda>c. c\<lparr> ca_flags := 0, ca_value_sum_magnitude := 0 \<rparr>),
     reset_current_action pl,
     mod_p (\<lambda>p. p\<lparr> pool_field_bytes := [] \<rparr>)]"

definition reset_orchard_bundle_state :: "nat \<Rightarrow> (world, 'e, unit) sm" where
  "reset_orchard_bundle_state action_count = reset_bundle_state OrchardPool action_count"

definition reset_ironwood_bundle_state :: "nat \<Rightarrow> (world, 'e, unit) sm" where
  "reset_ironwood_bundle_state action_count = reset_bundle_state IronwoodPool action_count"

lemma view_set_view [simp]:
  "view pl (set_view pl v p) = v" "pl \<noteq> pl' \<Longrightarrow> view pl (set_view pl' v p) = view pl p"
  by (cases pl; cases pl'; simp)+

lemma set_view_frame [simp]:
  "pczt_transparent_part.truncate (set_view pl v p) = pczt_transparent_part.truncate p"
  "pz_state (set_view pl v p) = pz_state p"
  "transparent_input_count (set_view pl v p) = transparent_input_count p"
  "transparent_input_parsed_count (set_view pl v p) = transparent_input_parsed_count p"
  "transparent_inputs (set_view pl v p) = transparent_inputs p"
  "transparent_output_count (set_view pl v p) = transparent_output_count p"
  "transparent_output_parsed_count (set_view pl v p) = transparent_output_parsed_count p"
  "outputs_reviewed (set_view pl v p) = outputs_reviewed p"
  "pczt_finished (set_view pl v p) = pczt_finished p"
  "pczt_version (set_view pl v p) = pczt_version p"
  "current_input_prevout (set_view pl v p) = current_input_prevout p"
  "current_input_sequence (set_view pl v p) = current_input_sequence p"
  "current_input_amount (set_view pl v p) = current_input_amount p"
  "current_input_script_pubkey (set_view pl v p) = current_input_script_pubkey p"
  "current_output_amount (set_view pl v p) = current_output_amount p"
  "total_output_amount (set_view pl v p) = total_output_amount p"
  "current_action (set_view pl v p) = current_action p"
  "orchard_spending_key (set_view pl v p) = orchard_spending_key p"
  "orchard_spending_key_path (set_view pl v p) = orchard_spending_key_path p"
  "is_v6_tx (set_view pl v p) = is_v6_tx p"
  "script_bytes (set_view pl v p) = script_bytes p"
  "pool_field_bytes (set_view pl v p) = pool_field_bytes p"
  by (cases pl; simp add: pczt_transparent_part.truncate_def)+

lemma wp_bundle [wp_simps]:
  "wp (get_b pl f) Q R s = Q (f (view pl (pczt_parser s))) s"
  "wp (mod_b pl g) Q' R s =
     Q' () (s\<lparr> pczt_parser := set_view pl (g (view pl (pczt_parser s))) (pczt_parser s) \<rparr>)"
  by (simp_all add: get_b_def mod_b_def wp_simps)

text \<open>\<open>ok!\<close> on a result whose error is a status word, and on one of the crypto crate whose errors
  the caller maps.\<close>

definition lift_sw :: "(app_sw, 'a) res \<Rightarrow> 'a papp" where
  "lift_sw r = lift_r (map_err_r Sw r)"

definition lift_crypto :: "(crypto_error \<Rightarrow> parser_error) \<Rightarrow> (crypto_error, 'a) res \<Rightarrow> 'a papp" where
  "lift_crypto f r = lift_r (map_err_r f r)"

text \<open>The end of a packet is the end of a field group.\<close>

definition ensure_group_end :: "string \<Rightarrow> unit papp" where
  "ensure_group_end msg = bnd (gets remaining_len) (\<lambda>n. ensure (n = 0) (Custom msg))"

section \<open>Header and global fields\<close>

definition parse_pczt_header :: "env \<Rightarrow> unit papp" where
  "parse_pczt_header E =
     bnd (read_exact 4) (\<lambda>magic.
     bnd (ensure (magic = MAGIC_BYTES) (Custom ''Bad PCZT magic bytes'')) (\<lambda>_.
     bnd read_u32_le (\<lambda>version.
     bnd (ensure (version = PCZT_VERSION_1 \<or> version = PCZT_VERSION_2)
            (Custom ''Unsupported PCZT version'')) (\<lambda>_.
     mod_p (\<lambda>p. p\<lparr> pczt_version := version \<rparr>)))))"

definition read_optional_u32 :: "u32 option papp" where
  "read_optional_u32 = bnd read_u8 (\<lambda>tag.
     if tag = 0 then ret None
     else if tag = 1 then bnd read_u32_le (\<lambda>v. ret (Some v))
     else throw (Custom ''Bad PCZT Option<u32> tag''))"

definition parse_global :: "env \<Rightarrow> unit papp" where
  "parse_global E =
     bnd read_u32_le (\<lambda>tx_version_raw.
     bnd read_u32_le (\<lambda>version_group_id.
     bnd read_u32_le (\<lambda>raw_branch.
     let v5 = tx_version_raw = V5_TX_VERSION E \<and> version_group_id = V5_VERSION_GROUP_ID E;
         v6 = tx_version_raw = V6_TX_VERSION \<and> version_group_id = V6_VERSION_GROUP_ID in
     bnd (ensure (v5 \<or> v6) (Custom ''Unsupported PCZT transaction version'')) (\<lambda>_.
     bnd (ensure (branch_id_known E raw_branch) (Custom ''Unknown consensus branch ID'')) (\<lambda>_.
     bnd read_optional_u32 (\<lambda>fallback_lock_time.
     bnd read_u32_le (\<lambda>expiry.
     bnd read_u32_le (\<lambda>coin_type.
     bnd read_u8 (\<lambda>tx_modifiable.
     bnd (ensure (coin_type = ZCASH_BIP44_COIN_TYPE) (Custom ''Unsupported PCZT coin_type'')) (\<lambda>_.
     bnd (when_do v5 (mod_ti (\<lambda>t. t\<lparr> tx_version := Some TxV5 \<rparr>))) (\<lambda>_.
     bnd (mod_ti (\<lambda>t. t\<lparr> branch_id := Some raw_branch, branch_id_raw := raw_branch,
                          locktime := (case fallback_lock_time of None \<Rightarrow> 0 | Some l \<Rightarrow> l),
                          expiry_height := expiry, is_v6 := v6 \<rparr>)) (\<lambda>_.
     bnd (get_p pczt_version) (\<lambda>version.
     bnd (ensure (\<not> (v5 \<and> version \<noteq> PCZT_VERSION_1))
            (Custom ''PCZT version 1 required for V5 transaction'')) (\<lambda>_.
     ensure (\<not> (v6 \<and> version \<noteq> PCZT_VERSION_2))
            (Custom ''PCZT version 2 required for V6 transaction'')))))))))))))))"

section \<open>The review\<close>

definition review_outputs :: "env \<Rightarrow> unit papp" where
  "review_outputs E =
     bnd (get_ti outputs) (\<lambda>outs.
     bnd (ensure (outs \<noteq> []) (Custom ''No PCZT outputs to display (no transparent outputs, and no Orchard outputs could be decrypted)'')) (\<lambda>_.
     bnd (get_ti total_amount) (\<lambda>total_in.
     bnd (gets pczt_parser) (\<lambda>p.
     let fees_i128 = int (unat total_in) + orchard_value_balance p + ironwood_value_balance p
                     - int (unat (total_output_amount p)) in
     bnd (ensure (\<not> fees_i128 < 0) (Custom ''Failed to calculate PCZT fees'')) (\<lambda>_.
     bnd (some_or (u64_try_from fees_i128) (Custom ''PCZT fee value out of range'')) (\<lambda>fee.
     bnd (gets swap_params) (\<lambda>swap.
     let has_external_output = list_ex (\<lambda>out. \<not> out_is_change out) outs;
         reveal_self_outputs = \<not> has_external_output \<and> swap = None in
     bnd (when_do reveal_self_outputs
            (mod_ti (\<lambda>t. t\<lparr> outputs := map (\<lambda>out. out\<lparr> out_is_change := False \<rparr>) (outputs t) \<rparr>))) (\<lambda>_.
     bnd (gets tx_info) (\<lambda>ti.
     let spent_from_public = transparent_input_count p > 0;
         spent_from_private = unat (orchard_spend_value_sum p) > 0 \<or> unat (ironwood_spend_value_sum p) > 0;
         transfer = classify spent_from_public spent_from_private (outputs ti) in
     bnd (case swap of
            Some params \<Rightarrow>
              bnd (lift_r (check_swap_params params (outputs ti) fee)) (\<lambda>_.
              log_event (SwapChecked (outputs ti) fee))
          | None \<Rightarrow>
              bnd (ui_display_tx E (outputs ti) fee transfer (locktime ti) (expiry_height ti)) (\<lambda>approved.
              ensure approved UserDenied)) (\<lambda>_.
     mod_p (\<lambda>p. p\<lparr> outputs_reviewed := True \<rparr>)))))))))))"

end
