(* ===== verification/Pczt_Transparent.thy ===== *)
theory Pczt_Transparent
  imports Pczt
begin

text \<open>
  The transparent section of the PCZT parser, \<open>src/src/parser/pczt/transparent.rs\<close>: inputs,
  outputs, their scripts and derivations, and the per-input signature digest.  Fields that a failed
  read leaves half written are not tracked: the dispatch loop resets the parser on every error.
\<close>

section \<open>Closing the sections\<close>

definition finalize_transparent_inputs :: "env \<Rightarrow> unit papp" where
  "finalize_transparent_inputs E = seqs [
     bnd (finalize_and_log_hash E prevouts_h) (\<lambda>d. mod_ti (\<lambda>t. t\<lparr> prevouts_hash := d \<rparr>)),
     bnd (finalize_and_log_hash E sequence_h) (\<lambda>d. mod_ti (\<lambda>t. t\<lparr> sequence_hash := d \<rparr>)),
     bnd (finalize_and_log_hash E amounts_h) (\<lambda>d. mod_ti (\<lambda>t. t\<lparr> amounts_hash := d \<rparr>)),
     bnd (finalize_and_log_hash E scripts_h) (\<lambda>d. mod_ti (\<lambda>t. t\<lparr> scripts_hash := d \<rparr>)),
     set_state TransparentInputsDone]"

definition finalize_transparent_outputs :: "env \<Rightarrow> unit papp" where
  "finalize_transparent_outputs E = seqs [
     bnd (finalize_and_log_hash E outputs_h) (\<lambda>d. mod_ti (\<lambda>t. t\<lparr> outputs_hash := d \<rparr>)),
     set_state TransparentOutputsDone]"

section \<open>Opening the sections\<close>

definition parse_transparent_inputs_start :: "env \<Rightarrow> unit papp" where
  "parse_transparent_inputs_start E =
     bnd (read_ext (compact_size_read E)) (\<lambda>input_count.
     bnd (ensure (\<not> input_count > MAX_PCZT_TRANSPARENT_INPUTS_NUMBER)
            (Custom ''Too many PCZT transparent inputs'')) (\<lambda>_.
     seqs [
       ensure_group_end ''Unexpected PCZT transparent input data after input count'',
       mod_p (\<lambda>p. p\<lparr> transparent_input_count := input_count,
                      transparent_input_parsed_count := 0, transparent_inputs := [] \<rparr>),
       try_reserve_exact E input_count,
       mod_p (\<lambda>p. p\<lparr> current_input_script_pubkey := [], outputs_reviewed := False,
                      pczt_finished := False \<rparr>),
       reset_orchard_bundle_state 0,
       mod_ss (\<lambda>t. t\<lparr> total_input_count := input_count \<rparr>),
       (if input_count = 0 then finalize_transparent_inputs E
        else set_state WaitTransparentInput)]))"

definition parse_transparent_outputs_start :: "env \<Rightarrow> unit papp" where
  "parse_transparent_outputs_start E =
     bnd (read_ext (compact_size_read E)) (\<lambda>output_count.
     bnd (ensure (\<not> output_count > MAX_PCZT_TRANSPARENT_OUTPUTS_NUMBER)
            (Custom ''Too many PCZT transparent outputs'')) (\<lambda>_.
     seqs [
       ensure_group_end ''Unexpected PCZT transparent output data after output count'',
       mod_p (\<lambda>p. p\<lparr> transparent_output_count := output_count,
                      transparent_output_parsed_count := 0, current_output_amount := 0,
                      total_output_amount := 0, outputs_reviewed := False,
                      pczt_finished := False \<rparr>),
       mod_ti (\<lambda>t. t\<lparr> outputs := [], is_change_found := False \<rparr>),
       (if output_count = 0 then finalize_transparent_outputs E
        else set_state WaitTransparentOutput)]))"

section \<open>Inputs and outputs\<close>

definition parse_transparent_input :: "env \<Rightarrow> unit papp" where
  "parse_transparent_input E =
     bnd (gets pczt_parser) (\<lambda>p.
     bnd (ensure (\<not> transparent_input_parsed_count p \<ge> transparent_input_count p) (Sw BadState)) (\<lambda>_.
     bnd (gets remaining_len) (\<lambda>n.
     bnd (ensure (\<not> n < PREVOUT_SIZE) (Custom ''Not enough PCZT transparent input prevout bytes'')) (\<lambda>_.
     bnd (gets (\<lambda>s. slice 0 PREVOUT_SIZE (remaining_slice s))) (\<lambda>raw.
     bnd (lift_r raw) (\<lambda>prevout_bytes.
     bnd (mod_p (\<lambda>p. p\<lparr> current_input_prevout := prevout_bytes \<rparr>)) (\<lambda>_.
     bnd (read_ext (outpoint_read E)) (\<lambda>prevout.
     bnd (h_write E prevouts_h (outpoint_write E prevout)) (\<lambda>_.
     bnd read_optional_u32 (\<lambda>seq_opt.
     let sequence = (case seq_opt of Some q \<Rightarrow> q | None \<Rightarrow> DEFAULT_SEQUENCE) in
     bnd (mod_p (\<lambda>p. p\<lparr> current_input_sequence := sequence \<rparr>)) (\<lambda>_.
     bnd (h_update E sequence_h (u32_to_le_bytes sequence)) (\<lambda>_.
     bnd (read_exact 8) (\<lambda>amount_bytes.
     bnd (mod_p (\<lambda>p. p\<lparr> current_input_amount := amount_bytes \<rparr>)) (\<lambda>_.
     bnd (h_update E amounts_h amount_bytes) (\<lambda>_.
     bnd (some_or (zatoshis_from_nonnegative_i64_le_bytes E amount_bytes) Balance) (\<lambda>amount.
     bnd (mod_ti (\<lambda>t. t\<lparr> total_amount := u64_saturating_add (total_amount t) amount \<rparr>)) (\<lambda>_.
     bnd (set_state WaitTransparentInputScript) (\<lambda>_.
     ensure_group_end ''PCZT transparent input scriptPubKey must start in a separate APDU''))))))))))))))))))"

definition parse_transparent_output :: "env \<Rightarrow> unit papp" where
  "parse_transparent_output E =
     bnd (gets pczt_parser) (\<lambda>p.
     bnd (ensure (\<not> transparent_output_parsed_count p \<ge> transparent_output_count p) (Sw BadState)) (\<lambda>_.
     bnd (read_exact 8) (\<lambda>amount_bytes.
     bnd (h_update E outputs_h amount_bytes) (\<lambda>_.
     bnd (some_or (zatoshis_from_nonnegative_i64_le_bytes E amount_bytes) Balance) (\<lambda>amount.
     bnd (mod_p (\<lambda>p. p\<lparr> current_output_amount := amount,
            total_output_amount := u64_saturating_add (total_output_amount p) amount \<rparr>)) (\<lambda>_.
     bnd (set_state WaitTransparentOutputScript) (\<lambda>_.
     ensure_group_end ''PCZT transparent output scriptPubKey must start in a separate APDU'')))))))"

section \<open>Scripts\<close>

datatype transparent_script_kind = KindInput | KindOutput

definition set_transparent_script_process_state ::
  "transparent_script_kind \<Rightarrow> nat \<Rightarrow> nat \<Rightarrow> (world, 'e, unit) sm" where
  "set_transparent_script_process_state kind size1 remaining_size =
     set_state (case kind of
         KindInput \<Rightarrow> ProcessTransparentInputScript size1 remaining_size
       | KindOutput \<Rightarrow> ProcessTransparentOutputScript size1 remaining_size)"

definition finish_transparent_input_script :: "env \<Rightarrow> nat \<Rightarrow> unit papp" where
  "finish_transparent_input_script E size1 =
     bnd (get_p script_bytes) (\<lambda>script.
     bnd (ensure (size1 = length script) (Custom ''Bad PCZT transparent input script length'')) (\<lambda>_.
     bnd (mod_p (\<lambda>p. p\<lparr> script_bytes := [] \<rparr>)) (\<lambda>_.
     bnd (ensure (output_script_is_regular script) (Sw IncorrectData)) (\<lambda>_.
     bnd (write_transparent_script E scripts_h script) (\<lambda>_.
     bnd (mod_p (\<lambda>p. p\<lparr> current_input_script_pubkey := script \<rparr>)) (\<lambda>_.
     set_state WaitTransparentInputSighashType))))))"

definition finish_transparent_output_script :: "env \<Rightarrow> nat \<Rightarrow> unit papp" where
  "finish_transparent_output_script E size1 =
     bnd (get_p script_bytes) (\<lambda>script.
     bnd (ensure (size1 = length script) (Custom ''Bad PCZT transparent output script length'')) (\<lambda>_.
     bnd (write_transparent_script E outputs_h script) (\<lambda>_.
     set_state WaitTransparentOutputBip32Derivation)))"

definition finish_transparent_script :: "env \<Rightarrow> transparent_script_kind \<Rightarrow> nat \<Rightarrow> unit papp" where
  "finish_transparent_script E kind size1 =
     (case kind of KindInput \<Rightarrow> finish_transparent_input_script E size1
      | KindOutput \<Rightarrow> finish_transparent_output_script E size1)"

text \<open>The read goes into \<open>script_bytes[offset..][..remaining_size]\<close>, which panics out of range.\<close>

definition parse_transparent_script :: "env \<Rightarrow> transparent_script_kind \<Rightarrow> nat \<Rightarrow> nat \<Rightarrow> unit papp" where
  "parse_transparent_script E kind size1 remaining_size =
     bnd (get_p script_bytes) (\<lambda>script.
     if size1 < remaining_size \<or> size1 > length script then panic
     else
       let offset = size1 - remaining_size in
       bnd (reader_read remaining_size) (\<lambda>bs.
       bnd (mod_p (\<lambda>p. p\<lparr> script_bytes := take offset script @ bs @ drop (offset + length bs) script \<rparr>)) (\<lambda>_.
       let new_remaining_size = remaining_size - length bs in
       if new_remaining_size \<noteq> 0
       then set_transparent_script_process_state kind size1 new_remaining_size
       else bnd (finish_transparent_script E kind size1) (\<lambda>_.
            ensure_group_end ''Unexpected data after PCZT transparent scriptPubKey''))))"

definition parse_transparent_script_start :: "env \<Rightarrow> transparent_script_kind \<Rightarrow> unit papp" where
  "parse_transparent_script_start E kind =
     bnd (read_ext (compact_size_read E)) (\<lambda>script_size.
     bnd (ensure (\<not> script_size > MAX_PCZT_SCRIPT_SIZE) (Custom ''Bad PCZT transparent script size'')) (\<lambda>_.
     bnd (mod_p (\<lambda>p. p\<lparr> script_bytes := zeros script_size \<rparr>)) (\<lambda>_.
     if script_size = 0
     then bnd (finish_transparent_script E kind script_size) (\<lambda>_.
          ensure_group_end ''Unexpected data after empty PCZT transparent scriptPubKey'')
     else
       bnd (gets remaining_len) (\<lambda>n.
       bnd (ensure (n \<noteq> 0) (Custom ''Missing PCZT transparent scriptPubKey bytes'')) (\<lambda>_.
       bnd (set_transparent_script_process_state kind script_size script_size) (\<lambda>_.
       parse_transparent_script E kind script_size script_size))))))"

definition parse_transparent_input_script_start :: "env \<Rightarrow> unit papp" where
  "parse_transparent_input_script_start E = parse_transparent_script_start E KindInput"

definition parse_transparent_input_script :: "env \<Rightarrow> nat \<Rightarrow> nat \<Rightarrow> unit papp" where
  "parse_transparent_input_script E size1 remaining_size =
     parse_transparent_script E KindInput size1 remaining_size"

definition parse_transparent_output_script_start :: "env \<Rightarrow> unit papp" where
  "parse_transparent_output_script_start E =
     bnd (mod_ti (\<lambda>t. t\<lparr> change_pk_hash := None \<rparr>)) (\<lambda>_.
     parse_transparent_script_start E KindOutput)"

definition parse_transparent_output_script :: "env \<Rightarrow> nat \<Rightarrow> nat \<Rightarrow> unit papp" where
  "parse_transparent_output_script E size1 remaining_size =
     parse_transparent_script E KindOutput size1 remaining_size"

section \<open>Sighash type and derivations\<close>

definition parse_transparent_input_sighash_type :: "env \<Rightarrow> unit papp" where
  "parse_transparent_input_sighash_type E =
     bnd read_u8 (\<lambda>t.
     bnd (ensure (t = SIGHASH_ALL) (Custom ''Unsupported PCZT transparent sighash type'')) (\<lambda>_.
     bnd (set_state WaitTransparentInputBip32Derivation) (\<lambda>_.
     bnd (gets remaining_len) (\<lambda>n.
     ensure (n \<noteq> 0) (Custom ''Missing PCZT transparent input bip32 derivation'')))))"

text \<open>\<open>Bip32Path::try_from(derivation.get(offset..).unwrap_or(&[]))\<close>.\<close>

definition derivation_path_from :: "nat \<Rightarrow> bytes \<Rightarrow> string \<Rightarrow> (parser_error, bip32_path) res" where
  "derivation_path_from offset derivation msg =
     map_err_r (\<lambda>_. Custom msg) (bip32_try_from_bytes (drop offset derivation))"

definition finish_transparent_input_bip32_derivation :: "env \<Rightarrow> bytes \<Rightarrow> unit papp" where
  "finish_transparent_input_bip32_derivation E derivation =
     bnd (lift_r (derivation_path_from ZIP32_DERIVATION_PATH_COUNT_OFFSET derivation
            ''Bad PCZT input bip32 derivation path'')) (\<lambda>p.
     bnd (lift_r (slice 0 COMPRESSED_PUBKEY_SIZE derivation)) (\<lambda>pubkey.
     bnd (lift_r (slice COMPRESSED_PUBKEY_SIZE ZIP32_DERIVATION_PATH_COUNT_OFFSET derivation)) (\<lambda>seed_fingerprint.
     bnd (ensure (check_bip44_compliance p OnlyCoinType)
            (Custom ''PCZT transparent signing path not compliant'')) (\<lambda>_.
     bnd (mod_p (\<lambda>q. q\<lparr>
            transparent_inputs := transparent_inputs q @ [\<lparr>
              in_prevout = current_input_prevout q, in_sequence = current_input_sequence q,
              in_amount = current_input_amount q, in_script_pubkey = current_input_script_pubkey q,
              in_path = p, in_signed = False \<rparr>],
            current_input_script_pubkey := [],
            transparent_input_parsed_count :=
              usize_saturating_add (transparent_input_parsed_count q) 1 \<rparr>)) (\<lambda>_.
     bnd (gets pczt_parser) (\<lambda>q.
     if transparent_input_count q = transparent_input_parsed_count q
     then finalize_transparent_inputs E
     else set_state WaitTransparentInput))))))"

definition parse_transparent_input_bip32_derivation :: "env \<Rightarrow> unit papp" where
  "parse_transparent_input_bip32_derivation E =
     bnd (read_ext (compact_size_read E)) (\<lambda>derivation_count.
     bnd (ensure (derivation_count = 1)
            (Custom ''Expected exactly one PCZT input bip32 derivation'')) (\<lambda>_.
     bnd (gets remaining_slice) (\<lambda>derivation.
     bnd (ensure (derivation \<noteq> [])
            (Custom ''Missing PCZT transparent input bip32 derivation bytes'')) (\<lambda>_.
     bnd (finish_transparent_input_bip32_derivation E derivation) (\<lambda>_.
     bnd (advance (length derivation)) (\<lambda>_.
     ensure_group_end ''Unexpected data after PCZT transparent input bip32 derivation''))))))"

definition finish_transparent_output :: "env \<Rightarrow> unit papp" where
  "finish_transparent_output E =
     bnd (gets pczt_parser) (\<lambda>p.
     bnd (gets tx_info) (\<lambda>ti.
     let disp = check_output_displayable (script_bytes p) (current_output_amount p) (change_pk_hash ti) in
     bnd (if disp = CdChange \<or> disp = CdDisplayable
          then
            let is_change = (disp = CdChange) in
            bnd (ensure (\<not> (is_change \<and> is_change_found ti)) (Custom ''Multiple change outputs detected'')) (\<lambda>_.
            bnd (lift_sw (from_output_script E (script_bytes p))) (\<lambda>address.
            bnd (mod_ti (\<lambda>t. t\<lparr> outputs := outputs t @ [\<lparr>
                   out_amount = current_output_amount p, out_address = address,
                   out_is_change = is_change, out_memo = None, out_pool = PoolTransparent \<rparr>] \<rparr>)) (\<lambda>_.
            when_do is_change (mod_ti (\<lambda>t. t\<lparr> is_change_found := True \<rparr>)))))
          else throw (Custom ''Unsupported transparent output script cannot be safely reviewed'')) (\<lambda>_.
     bnd (mod_p (\<lambda>q. q\<lparr> transparent_output_parsed_count :=
              usize_saturating_add (transparent_output_parsed_count q) 1,
            script_bytes := [] \<rparr>)) (\<lambda>_.
     bnd (gets pczt_parser) (\<lambda>q.
     if transparent_output_count q = transparent_output_parsed_count q
     then finalize_transparent_outputs E
     else set_state WaitTransparentOutput)))))"

definition finish_transparent_output_bip32_derivation :: "env \<Rightarrow> bytes \<Rightarrow> unit papp" where
  "finish_transparent_output_bip32_derivation E derivation =
     bnd (lift_r (derivation_path_from ZIP32_DERIVATION_PATH_COUNT_OFFSET derivation
            ''Bad PCZT output bip32 derivation path'')) (\<lambda>p.
     bnd (lift_r (slice 0 COMPRESSED_PUBKEY_SIZE derivation)) (\<lambda>pubkey.
     bnd (lift_r (slice COMPRESSED_PUBKEY_SIZE ZIP32_DERIVATION_PATH_COUNT_OFFSET derivation)) (\<lambda>seed_fingerprint.
     bnd (ensure (check_bip44_compliance p (Full True))
            (Custom ''PCZT output change path not compliant'')) (\<lambda>_.
     bnd (lift_sw (extended_public_key_try_from E p)) (\<lambda>key.
     bnd (lift_sw (compressed_public_key key)) (\<lambda>expected_public_key.
     bnd (ensure (pubkey = expected_public_key)
            (Custom ''PCZT output bip32 derivation pubkey mismatch'')) (\<lambda>_.
     bnd (lift_sw (hash160 E pubkey)) (\<lambda>pk_hash.
     bnd (mod_ti (\<lambda>t. t\<lparr> change_pk_hash := Some pk_hash \<rparr>)) (\<lambda>_.
     bnd (get_ti change_account) (\<lambda>previous.
     bnd (if previous \<noteq> None \<and> previous \<noteq> derivation_account p
          then throw (Custom ''PCZT change outputs declare different accounts'')
          else mod_ti (\<lambda>t. t\<lparr> change_account := derivation_account p \<rparr>)) (\<lambda>_.
     finish_transparent_output E)))))))))))"

definition parse_transparent_output_bip32_derivation :: "env \<Rightarrow> unit papp" where
  "parse_transparent_output_bip32_derivation E =
     bnd (read_ext (compact_size_read E)) (\<lambda>derivation_count.
     bnd (ensure (\<not> derivation_count > 1)
            (Custom ''Expected at most one PCZT output bip32 derivation'')) (\<lambda>_.
     if derivation_count = 0
     then bnd (ensure_group_end ''Unexpected data after empty PCZT output bip32 derivation'') (\<lambda>_.
          finish_transparent_output E)
     else
       bnd (gets remaining_slice) (\<lambda>derivation.
       bnd (ensure (derivation \<noteq> [])
              (Custom ''Missing PCZT transparent output bip32 derivation bytes'')) (\<lambda>_.
       bnd (finish_transparent_output_bip32_derivation E derivation) (\<lambda>_.
       bnd (advance (length derivation)) (\<lambda>_.
       ensure_group_end ''Unexpected data after PCZT transparent output bip32 derivation''))))))"

section \<open>Signing\<close>

definition compute_transparent_signature_digest :: "env \<Rightarrow> nat \<Rightarrow> u8 papp" where
  "compute_transparent_signature_digest E input_index =
     bnd (gets pczt_parser) (\<lambda>p.
     bnd (ensure (is_finished p) (Sw BadState)) (\<lambda>_.
     bnd (some_or (vec_get (transparent_inputs p) input_index)
            (Custom ''Bad PCZT transparent input index'')) (\<lambda>input.
     bnd (lift_r (transparent_input_txin_signature_digest E (in_prevout input) (in_amount input)
            (in_script_pubkey input) (in_sequence input))) (\<lambda>txin_sig_digest.
     bnd (compute_transparent_input_signature_digest E txin_sig_digest SIGHASH_ALL) (\<lambda>_.
     ret SIGHASH_ALL)))))"

definition use_transparent_signature_digest :: "env \<Rightarrow> nat \<Rightarrow> u8 papp" where
  "use_transparent_signature_digest E input_index = compute_transparent_signature_digest E input_index"

definition transparent_input_signing_path :: "nat \<Rightarrow> bip32_path papp" where
  "transparent_input_signing_path input_index =
     bnd (gets pczt_parser) (\<lambda>p.
     bnd (ensure (is_ready_to_sign p) (Sw BadState)) (\<lambda>_.
     bnd (some_or (vec_get (transparent_inputs p) input_index)
            (Custom ''Bad PCZT transparent input index'')) (\<lambda>input.
     ret (in_path input))))"

definition mark_transparent_input_signed :: "nat \<Rightarrow> unit papp" where
  "mark_transparent_input_signed input_index =
     bnd (gets pczt_parser) (\<lambda>p.
     bnd (some_or (vec_get (transparent_inputs p) input_index)
            (Custom ''Bad PCZT transparent input index'')) (\<lambda>input.
     bnd (ensure (\<not> in_signed input) (Custom ''PCZT transparent input already signed'')) (\<lambda>_.
     mod_p (\<lambda>q. q\<lparr> transparent_inputs :=
       (transparent_inputs q)[input_index := input\<lparr> in_signed := True \<rparr>] \<rparr>))))"

end
