(* ===== verification/Pczt_Shielded.thy ===== *)
theory Pczt_Shielded
  imports Pczt_Transparent
begin

text \<open>
  The shielded sections of the PCZT parser: \<open>src/src/parser/pczt/orchard.rs\<close> and its mirror
  \<open>src/src/parser/pczt/ironwood.rs\<close>.  Each function of the two files is one definition with the
  pool as an argument; where the files differ the definition branches on the pool.  The last section
  names the entry points of each file.
\<close>

section \<open>States of a pool\<close>

fun wait_action :: "pool \<Rightarrow> pczt_parser_state" where
  "wait_action OrchardPool = WaitOrchardAction" | "wait_action IronwoodPool = WaitIronwoodAction"
fun wait_zip32 :: "pool \<Rightarrow> pczt_parser_state" where
  "wait_zip32 OrchardPool = WaitOrchardZip32Derivation"
| "wait_zip32 IronwoodPool = WaitIronwoodZip32Derivation"
fun wait_output :: "pool \<Rightarrow> pczt_parser_state" where
  "wait_output OrchardPool = WaitOrchardOutput" | "wait_output IronwoodPool = WaitIronwoodOutput"
fun wait_enc_len :: "pool \<Rightarrow> pczt_parser_state" where
  "wait_enc_len OrchardPool = WaitOrchardEncCiphertextLen"
| "wait_enc_len IronwoodPool = WaitIronwoodEncCiphertextLen"
fun process_enc :: "pool \<Rightarrow> pczt_parser_state" where
  "process_enc OrchardPool = ProcessOrchardEncCiphertext"
| "process_enc IronwoodPool = ProcessIronwoodEncCiphertext"
fun wait_out_len :: "pool \<Rightarrow> pczt_parser_state" where
  "wait_out_len OrchardPool = WaitOrchardOutCiphertextLen"
| "wait_out_len IronwoodPool = WaitIronwoodOutCiphertextLen"
fun process_out :: "pool \<Rightarrow> pczt_parser_state" where
  "process_out OrchardPool = ProcessOrchardOutCiphertext"
| "process_out IronwoodPool = ProcessIronwoodOutCiphertext"
fun wait_metadata :: "pool \<Rightarrow> pczt_parser_state" where
  "wait_metadata OrchardPool = WaitOrchardOutputMetadata"
| "wait_metadata IronwoodPool = WaitIronwoodOutputMetadata"
fun wait_trailer :: "pool \<Rightarrow> pczt_parser_state" where
  "wait_trailer OrchardPool = WaitOrchardTrailer" | "wait_trailer IronwoodPool = WaitIronwoodTrailer"
fun actions_done :: "pool \<Rightarrow> pczt_parser_state" where
  "actions_done OrchardPool = OrchardActionsDone" | "actions_done IronwoodPool = IronwoodActionsDone"

lemmas pool_states = wait_action.simps wait_zip32.simps wait_output.simps wait_enc_len.simps
  process_enc.simps wait_out_len.simps process_out.simps wait_metadata.simps wait_trailer.simps
  actions_done.simps

section \<open>Reading\<close>

definition ensure_apdu_group_end :: "pool \<Rightarrow> unit papp" where
  "ensure_apdu_group_end pl = bnd (gets remaining_len) (\<lambda>n.
     ensure (n = 0) (pmsg pl ''Unexpected data after PCZT '' '' APDU field group''))"

definition read_value :: "env \<Rightarrow> parser_error \<Rightarrow> parser_error \<Rightarrow> u64 papp" where
  "read_value E read_error range_error =
     bnd (map_err (\<lambda>_. read_error) (read_exact 8)) (\<lambda>value_bytes.
     some_or (zatoshis_from_nonnegative_i64_le_bytes E value_bytes) range_error)"

text \<open>The field of \<open>size\<close> bytes once it is complete.\<close>

definition read_large_vec :: "nat \<Rightarrow> bytes option papp" where
  "read_large_vec size1 =
     bnd (get_p pool_field_bytes) (\<lambda>field.
     bnd (gets remaining_len) (\<lambda>n.
     let missing = size1 - length field; to_read = min missing n in
     if missing > 0 \<and> to_read = 0 then ret None
     else
       bnd (when_do (missing > 0)
              (bnd (read_exact to_read) (\<lambda>bs.
               mod_p (\<lambda>p. p\<lparr> pool_field_bytes := pool_field_bytes p @ bs \<rparr>)))) (\<lambda>_.
       bnd (get_p pool_field_bytes) (\<lambda>field'.
       if length field' = size1
       then bnd (mod_p (\<lambda>p. p\<lparr> pool_field_bytes := [] \<rparr>)) (\<lambda>_. ret (Some field'))
       else ret None))))"

definition parse_action :: "env \<Rightarrow> pool \<Rightarrow> unit papp" where
  "parse_action E pl =
     bnd (read_exact 32) (\<lambda>cv_net.
     bnd (mod_ca (\<lambda>c. c\<lparr> ca_cv_net := cv_net \<rparr>)) (\<lambda>_.
     bnd (h_update E tx_non_compact_h cv_net) (\<lambda>_.
     bnd (read_exact 32) (\<lambda>nullifier.
     bnd (mod_ca (\<lambda>c. c\<lparr> ca_nullifier := nullifier \<rparr>)) (\<lambda>_.
     bnd (h_update E tx_compact_h nullifier) (\<lambda>_.
     bnd (read_exact 32) (\<lambda>rk.
     bnd (mod_ca (\<lambda>c. c\<lparr> ca_rk := rk \<rparr>)) (\<lambda>_.
     bnd (h_update E tx_non_compact_h rk) (\<lambda>_.
     bnd (read_exact ORCHARD_RAW_ADDRESS_SIZE) (\<lambda>spend_recipient.
     bnd (mod_ca (\<lambda>c. c\<lparr> ca_spend_recipient := spend_recipient \<rparr>)) (\<lambda>_.
     bnd (read_value E (pmsg pl ''Bad PCZT '' '' spend value'')
            (pmsg pl ''PCZT '' '' spend value out of range'')) (\<lambda>spend_value.
     bnd (mod_ca (\<lambda>c. c\<lparr> ca_spend_value := spend_value \<rparr>)) (\<lambda>_.
     bnd (read_exact 32) (\<lambda>spend_rho.
     bnd (mod_ca (\<lambda>c. c\<lparr> ca_spend_rho := spend_rho \<rparr>)) (\<lambda>_.
     bnd (read_exact 32) (\<lambda>spend_rseed.
     bnd (mod_ca (\<lambda>c. c\<lparr> ca_spend_rseed := spend_rseed \<rparr>)) (\<lambda>_.
     bnd (read_exact 32) (\<lambda>alpha.
     bnd (mod_ca (\<lambda>c. c\<lparr> ca_alpha := Some alpha \<rparr>)) (\<lambda>_.
     bnd (ensure_apdu_group_end pl) (\<lambda>_.
     set_state (wait_zip32 pl)))))))))))))))))))))"

definition parse_output :: "env \<Rightarrow> pool \<Rightarrow> unit papp" where
  "parse_output E pl =
     bnd (read_exact 32) (\<lambda>cmx.
     bnd (mod_ca (\<lambda>c. c\<lparr> ca_cmx := cmx \<rparr>)) (\<lambda>_.
     bnd (h_update E tx_compact_h cmx) (\<lambda>_.
     bnd (read_exact 32) (\<lambda>ephemeral_key.
     bnd (mod_ca (\<lambda>c. c\<lparr> ca_ephemeral_key := ephemeral_key \<rparr>)) (\<lambda>_.
     bnd (h_update E tx_compact_h ephemeral_key) (\<lambda>_.
     bnd (ensure_apdu_group_end pl) (\<lambda>_.
     set_state (wait_enc_len pl))))))))"

section \<open>Ciphertexts\<close>

definition finish_enc_ciphertext :: "env \<Rightarrow> pool \<Rightarrow> bytes \<Rightarrow> unit papp" where
  "finish_enc_ciphertext E pl enc_ciphertext =
     bnd (ensure (length enc_ciphertext = ORCHARD_ENC_CIPHERTEXT_SIZE)
            (pmsg pl ''Bad PCZT '' '' enc_ciphertext length'')) (\<lambda>_.
     bnd (lift_r (slice 0 ORCHARD_NOTE_PLAINTEXT_PREFIX_SIZE enc_ciphertext)) (\<lambda>prefix.
     bnd (h_update E tx_compact_h prefix) (\<lambda>_.
     bnd (lift_r (slice ORCHARD_NOTE_PLAINTEXT_PREFIX_SIZE ORCHARD_ENC_CIPHERTEXT_TAG_OFFSET enc_ciphertext)) (\<lambda>memo.
     bnd (h_update E tx_memo_h memo) (\<lambda>_.
     bnd (lift_r (slice ORCHARD_ENC_CIPHERTEXT_TAG_OFFSET (length enc_ciphertext) enc_ciphertext)) (\<lambda>tag.
     bnd (h_update E tx_non_compact_h tag) (\<lambda>_.
     bnd (mod_ca (\<lambda>c. c\<lparr> ca_enc_ciphertext := enc_ciphertext \<rparr>)) (\<lambda>_.
     set_state (wait_out_len pl)))))))))"

definition finish_out_ciphertext :: "env \<Rightarrow> pool \<Rightarrow> bytes \<Rightarrow> unit papp" where
  "finish_out_ciphertext E pl out_ciphertext =
     bnd (ensure (length out_ciphertext = ORCHARD_OUT_CIPHERTEXT_SIZE)
            (pmsg pl ''Bad PCZT '' '' out_ciphertext length'')) (\<lambda>_.
     bnd (h_update E tx_non_compact_h out_ciphertext) (\<lambda>_.
     bnd (mod_ca (\<lambda>c. c\<lparr> ca_out_ciphertext := Some out_ciphertext \<rparr>)) (\<lambda>_.
     set_state (wait_metadata pl))))"

definition parse_enc_ciphertext :: "env \<Rightarrow> pool \<Rightarrow> unit papp" where
  "parse_enc_ciphertext E pl =
     bnd (read_large_vec ORCHARD_ENC_CIPHERTEXT_SIZE) (\<lambda>field.
     case field of None \<Rightarrow> ret ()
     | Some bs \<Rightarrow> bnd (finish_enc_ciphertext E pl bs) (\<lambda>_. ensure_apdu_group_end pl))"

definition parse_out_ciphertext :: "env \<Rightarrow> pool \<Rightarrow> unit papp" where
  "parse_out_ciphertext E pl =
     bnd (read_large_vec ORCHARD_OUT_CIPHERTEXT_SIZE) (\<lambda>field.
     case field of None \<Rightarrow> ret ()
     | Some bs \<Rightarrow> bnd (finish_out_ciphertext E pl bs) (\<lambda>_. ensure_apdu_group_end pl))"

definition parse_enc_ciphertext_len :: "env \<Rightarrow> pool \<Rightarrow> unit papp" where
  "parse_enc_ciphertext_len E pl =
     bnd (read_ext (compact_size_read E)) (\<lambda>size1.
     bnd (ensure (size1 = ORCHARD_ENC_CIPHERTEXT_SIZE)
            (pmsg pl ''Bad PCZT '' '' enc_ciphertext size'')) (\<lambda>_.
     bnd (set_state (process_enc pl)) (\<lambda>_.
     bnd (gets remaining_len) (\<lambda>n.
     bnd (ensure (n \<noteq> 0) (pmsg pl ''Missing PCZT '' '' enc_ciphertext bytes'')) (\<lambda>_.
     parse_enc_ciphertext E pl)))))"

definition parse_out_ciphertext_len :: "env \<Rightarrow> pool \<Rightarrow> unit papp" where
  "parse_out_ciphertext_len E pl =
     bnd (read_ext (compact_size_read E)) (\<lambda>size1.
     bnd (ensure (size1 = ORCHARD_OUT_CIPHERTEXT_SIZE)
            (pmsg pl ''Bad PCZT '' '' out_ciphertext size'')) (\<lambda>_.
     bnd (set_state (process_out pl)) (\<lambda>_.
     bnd (gets remaining_len) (\<lambda>n.
     bnd (ensure (n \<noteq> 0) (pmsg pl ''Missing PCZT '' '' out_ciphertext bytes'')) (\<lambda>_.
     parse_out_ciphertext E pl)))))"

section \<open>Checks on the current action\<close>

definition cv_net_error :: "pool \<Rightarrow> crypto_error \<Rightarrow> parser_error" where
  "cv_net_error pl e = (case e of
       MalformedPallasScalar \<Rightarrow> pmsg pl ''Bad PCZT '' '' rcv'' | _ \<Rightarrow> Sw TechnicalProblem)"

definition verify_current_cv_net :: "env \<Rightarrow> pool \<Rightarrow> unit papp" where
  "verify_current_cv_net E pl =
     bnd (get_ca id) (\<lambda>c.
     bnd (some_or (ca_rcv c) (pmsg pl ''Missing PCZT '' '' rcv'')) (\<lambda>rcv_bytes.
     bnd (some_or (i64_try_from (int (unat (ca_spend_value c)) - int (unat (ca_output_value c))))
            (pmsg pl ''PCZT '' '' cv_net value out of range'')) (\<lambda>value_net.
     bnd (lift_crypto (cv_net_error pl) (orchard_value_commitment_bytes E value_net rcv_bytes)) (\<lambda>expected_cv_net.
     ensure (expected_cv_net = ca_cv_net c) (pmsg pl ''PCZT '' '' cv_net mismatch'')))))"

text \<open>The loop over the two scopes, ending at the first match.\<close>

fun recipient_in_scopes ::
  "env \<Rightarrow> bytes \<Rightarrow> bytes \<Rightarrow> bytes \<Rightarrow> orchard_scope list \<Rightarrow> (parser_error, bool) res" where
  "recipient_in_scopes E fvk g_d claimed_pk_d [] = Inr False"
| "recipient_in_scopes E fvk g_d claimed_pk_d (scope # scopes) =
     rbind (map_err_r (\<lambda>_. Sw TechnicalProblem) (fvk_to_ivk_ledger E fvk scope)) (\<lambda>ivk.
     rbind (slice 32 64 ivk) (\<lambda>ivk_bytes.
     rbind (map_err_r (\<lambda>_. Sw TechnicalProblem) (orchard_pk_d E ivk_bytes g_d)) (\<lambda>expected_pk_d.
     if expected_pk_d = claimed_pk_d then Inr True
     else recipient_in_scopes E fvk g_d claimed_pk_d scopes)))"

definition is_current_spend_recipient_in_fvk ::
  "env \<Rightarrow> pool \<Rightarrow> bytes \<Rightarrow> bytes \<Rightarrow> bytes \<Rightarrow> (parser_error, bool) res" where
  "is_current_spend_recipient_in_fvk E pl fvk diversifier claimed_pk_d =
     rbind (map_err_r (\<lambda>_. pmsg pl ''Bad PCZT '' '' spend recipient'') (diversify_hash_ledger E diversifier)) (\<lambda>g_d.
     recipient_in_scopes E fvk g_d claimed_pk_d [External, Internal])"

definition nullifier_error :: "pool \<Rightarrow> crypto_error \<Rightarrow> parser_error" where
  "nullifier_error pl e = (case e of
       MalformedPallasBase \<Rightarrow> pmsg pl ''Bad PCZT '' '' spend rho''
     | MalformedPallasPoint \<Rightarrow> pmsg pl ''Bad PCZT '' '' spend recipient''
     | InvalidDiversifyHashPoint \<Rightarrow> pmsg pl ''Bad PCZT '' '' spend recipient''
     | InvalidKeyDiscarded \<Rightarrow> pmsg pl ''Bad PCZT '' '' spend rseed''
     | _ \<Rightarrow> Sw TechnicalProblem)"

fun pool_nullifier_bytes ::
  "env \<Rightarrow> pool \<Rightarrow> bytes \<Rightarrow> bytes \<Rightarrow> u64 \<Rightarrow> bytes \<Rightarrow> bytes \<Rightarrow> (crypto_error, bytes) res" where
  "pool_nullifier_bytes E OrchardPool = orchard_spend_nullifier_bytes E"
| "pool_nullifier_bytes E IronwoodPool = orchard_spend_nullifier_bytes_v3 E"

definition verify_current_spend_nullifier :: "env \<Rightarrow> pool \<Rightarrow> bytes \<Rightarrow> unit papp" where
  "verify_current_spend_nullifier E pl fvk =
     bnd (get_ca id) (\<lambda>c.
     bnd (lift_r (slice 0 11 (ca_spend_recipient c))) (\<lambda>diversifier.
     bnd (lift_r (slice 11 (length (ca_spend_recipient c)) (ca_spend_recipient c))) (\<lambda>claimed_pk_d.
     bnd (lift_r (is_current_spend_recipient_in_fvk E pl fvk diversifier claimed_pk_d)) (\<lambda>mine.
     bnd (ensure mine (pmsg pl ''PCZT '' '' spend does not belong to signing key'')) (\<lambda>_.
     bnd (lift_r (slice 32 64 fvk)) (\<lambda>nk.
     bnd (lift_crypto (nullifier_error pl)
            (pool_nullifier_bytes E pl nk (ca_spend_recipient c) (ca_spend_value c)
               (ca_spend_rho c) (ca_spend_rseed c))) (\<lambda>expected_nullifier.
     ensure (expected_nullifier = ca_nullifier c) (pmsg pl ''PCZT '' '' nullifier mismatch''))))))))"

definition verify_current_rk :: "env \<Rightarrow> pool \<Rightarrow> bytes \<Rightarrow> unit papp" where
  "verify_current_rk E pl ask =
     bnd (get_ca id) (\<lambda>c.
     bnd (some_or (ca_alpha c) (Sw BadState)) (\<lambda>alpha_bytes.
     bnd (lift_crypto (\<lambda>_. pmsg pl ''Bad PCZT '' '' alpha'') (pallas_scalar_from_repr E alpha_bytes)) (\<lambda>alpha.
     bnd (lift_crypto (\<lambda>_. Sw TechnicalProblem) (randomized_verification_key_bytes E ask alpha)) (\<lambda>expected_rk.
     ensure (expected_rk = ca_rk c) (pmsg pl ''PCZT '' '' rk does not match alpha and signing key'')))))"

section \<open>Outputs\<close>

definition current_compact_action :: "current_action_state \<Rightarrow> bytes \<Rightarrow> (parser_error, orchard_compact_action) res"
  where
  "current_compact_action c enc_ciphertext =
     rbind (slice 0 ORCHARD_NOTE_PLAINTEXT_PREFIX_SIZE enc_ciphertext) (\<lambda>prefix.
     Inr \<lparr> oc_nullifier = ca_nullifier c, oc_cmx = ca_cmx c, oc_ephemeral_key = ca_ephemeral_key c,
           oc_enc_ciphertext_prefix = prefix \<rparr>)"

definition validate_deciphered_output :: "pool \<Rightarrow> deciphered_orchard_output \<Rightarrow> unit papp" where
  "validate_deciphered_output pl output =
     bnd (get_ca id) (\<lambda>c.
     bnd (ensure (do_value output = ca_output_value c)
            (pmsg pl ''PCZT '' '' output value mismatch'')) (\<lambda>_.
     ensure (do_raw_address output = ca_output_recipient c)
            (pmsg pl ''PCZT '' '' output recipient mismatch'')))"

definition output_memo_display ::
  "env \<Rightarrow> deciphered_orchard_output \<Rightarrow> bool \<Rightarrow> tx_output_memo option papp" where
  "output_memo_display E output is_change =
     (if is_change then ret None
      else case do_memo output of None \<Rightarrow> ret None | Some memo \<Rightarrow> memo_display E memo)"

definition push_deciphered_output ::
  "env \<Rightarrow> pool \<Rightarrow> deciphered_orchard_output \<Rightarrow> network_type \<Rightarrow> bool \<Rightarrow> unit papp" where
  "push_deciphered_output E pl output network is_change =
     bnd (get_ti is_change_found) (\<lambda>found.
     bnd (ensure (\<not> (is_change \<and> found)) (Custom ''Multiple change outputs detected'')) (\<lambda>_.
     bnd (if \<not> is_change then claim_displayed_shielded_output
          else bnd (get_ca ca_path) (\<lambda>path_opt.
               bnd (some_or path_opt (Sw BadState)) record_hidden_shielded_change_account)) (\<lambda>_.
     bnd (some_or (unified_address_encode E (do_raw_address output) network)
            (pmsg pl ''Cannot encode PCZT '' '' output address'')) (\<lambda>address.
     bnd (output_memo_display E output is_change) (\<lambda>memo.
     bnd (mod_ti (\<lambda>t. t\<lparr> outputs := outputs t @ [\<lparr>
            out_amount = do_value output, out_address = address, out_is_change = is_change,
            out_memo = memo, out_pool = PoolOrchard \<rparr>] \<rparr>)) (\<lambda>_.
     when_do is_change (mod_ti (\<lambda>t. t\<lparr> is_change_found := True \<rparr>))))))))"

text \<open>How a failed decryption is read: running out of memory is an error, any other failure means
  that the key does not open the note.\<close>

definition decipher_result :: "(crypto_error, 'a option) res \<Rightarrow> 'a option papp" where
  "decipher_result r = (case r of
       Inr x \<Rightarrow> ret x
     | Inl (Fail e) \<Rightarrow> if e = OutOfMemory then throw (Sw NotEnoughMemorySpace) else ret None
     | Inl Panic \<Rightarrow> panic
     | Inl Diverge \<Rightarrow> diverge)"

definition try_decipher_current_output :: "env \<Rightarrow> pool \<Rightarrow> bytes \<Rightarrow> bytes \<Rightarrow> bool papp" where
  "try_decipher_current_output E pl enc_ciphertext out_ciphertext =
     bnd (get_ti decipher_keys) (\<lambda>keys_opt.
     case keys_opt of None \<Rightarrow> ret False
     | Some keys \<Rightarrow>
       bnd (get_ca id) (\<lambda>c.
       bnd (lift_r (current_compact_action c enc_ciphertext)) (\<lambda>compact.
       bnd (decipher_result (decipher_compact_value E (dk_internal_ivk keys) compact (note_version pl))) (\<lambda>internal.
       case internal of
         Some output \<Rightarrow>
           bnd (validate_deciphered_output pl output) (\<lambda>_.
           bnd (push_deciphered_output E pl output (dk_network keys) True) (\<lambda>_. ret True))
       | None \<Rightarrow>
           let action = \<lparr> oa_compact = compact, oa_rk = ca_rk c, oa_cv_net = ca_cv_net c,
                          oa_enc_ciphertext = enc_ciphertext, oa_out_ciphertext = out_ciphertext \<rparr> in
           bnd (decipher_result (decipher_value_with_ovk E (dk_external_ovk keys) action (note_version pl))) (\<lambda>external.
           case external of
             Some output \<Rightarrow>
               bnd (validate_deciphered_output pl output) (\<lambda>_.
               bnd (push_deciphered_output E pl output (dk_network keys) False) (\<lambda>_. ret True))
           | None \<Rightarrow> ret False)))))"

definition commitment_error :: "pool \<Rightarrow> crypto_error \<Rightarrow> parser_error" where
  "commitment_error pl e = (case e of
       MalformedPallasBase \<Rightarrow> pmsg pl ''Bad PCZT '' '' dummy nullifier''
     | MalformedPallasPoint \<Rightarrow> pmsg pl ''Bad PCZT '' '' output recipient''
     | InvalidDiversifyHashPoint \<Rightarrow> pmsg pl ''Bad PCZT '' '' output recipient''
     | MalformedPallasScalar \<Rightarrow> pmsg pl ''Bad PCZT '' '' output rseed''
     | InvalidKeyDiscarded \<Rightarrow> pmsg pl ''Bad PCZT '' '' output rseed''
     | _ \<Rightarrow> Sw TechnicalProblem)"

fun pool_note_commitment_bytes ::
  "env \<Rightarrow> pool \<Rightarrow> bytes \<Rightarrow> u64 \<Rightarrow> bytes \<Rightarrow> bytes \<Rightarrow> (crypto_error, bytes) res" where
  "pool_note_commitment_bytes E OrchardPool = orchard_note_commitment_bytes E"
| "pool_note_commitment_bytes E IronwoodPool = orchard_note_commitment_v3_bytes E"

definition validate_current_dummy_output :: "env \<Rightarrow> pool \<Rightarrow> bool papp" where
  "validate_current_dummy_output E pl =
     bnd (get_ca id) (\<lambda>c.
     if ca_output_value c \<noteq> 0 then ret False
     else
       bnd (some_or (ca_output_rseed c) (pmsg pl ''Missing PCZT '' '' output rseed'')) (\<lambda>rseed.
       bnd (lift_crypto (commitment_error pl)
              (pool_note_commitment_bytes E pl (ca_output_recipient c) (ca_output_value c)
                 (ca_nullifier c) rseed)) (\<lambda>expected_cmx.
       bnd (ensure (expected_cmx = ca_cmx c) (pmsg pl ''PCZT '' '' dummy output cmx mismatch'')) (\<lambda>_.
       ret True))))"

definition validate_current_output :: "env \<Rightarrow> pool \<Rightarrow> bytes \<Rightarrow> bytes \<Rightarrow> unit papp" where
  "validate_current_output E pl enc_ciphertext out_ciphertext =
     bnd (try_decipher_current_output E pl enc_ciphertext out_ciphertext) (\<lambda>deciphered.
     if deciphered then ret ()
     else bnd (validate_current_dummy_output E pl) (\<lambda>dummy.
          if dummy then ret ()
          else throw (pmsg pl ''PCZT '' '' output could not be decrypted'')))"

section \<open>Completing an action\<close>

text \<open>The ciphertext buffer is lent to the validation and put back whatever its result.\<close>

definition validate_with_lent_ciphertext :: "env \<Rightarrow> pool \<Rightarrow> bytes \<Rightarrow> unit papp" where
  "validate_with_lent_ciphertext E pl out_ciphertext =
     bnd (get_ca ca_enc_ciphertext) (\<lambda>enc_ciphertext.
     bnd (mod_ca (\<lambda>c. c\<lparr> ca_enc_ciphertext := [] \<rparr>)) (\<lambda>_.
     bnd (catch_err (validate_current_output E pl enc_ciphertext out_ciphertext) (\<lambda>e.
            bnd (mod_ca (\<lambda>c. c\<lparr> ca_enc_ciphertext := enc_ciphertext \<rparr>)) (\<lambda>_. throw e))) (\<lambda>_.
     mod_ca (\<lambda>c. c\<lparr> ca_enc_ciphertext := enc_ciphertext \<rparr>))))"

definition finish_current_action :: "env \<Rightarrow> pool \<Rightarrow> unit papp" where
  "finish_current_action E pl =
     bnd (get_ca id) (\<lambda>c.
     bnd (some_or (ca_out_ciphertext c) (pmsg pl ''Missing PCZT '' '' out_ciphertext'')) (\<lambda>out_ciphertext.
     bnd (ensure (length (ca_enc_ciphertext c) = ORCHARD_ENC_CIPHERTEXT_SIZE)
            (pmsg pl ''Missing PCZT '' '' enc_ciphertext for decryption'')) (\<lambda>_.
     bnd (verify_current_cv_net E pl) (\<lambda>_.
     let is_real_spend = ca_spend_value c \<noteq> 0 in
     bnd (when_do is_real_spend
            (bnd (some_or (ca_fvk c) (Sw BadState)) (\<lambda>fvk.
             bnd (verify_current_spend_nullifier E pl fvk) (\<lambda>_.
             mod_b pl (\<lambda>v. v\<lparr> bn_real := usize_saturating_add (bn_real v) 1 \<rparr>))))) (\<lambda>_.
     bnd (validate_with_lent_ciphertext E pl out_ciphertext) (\<lambda>_.
     bnd (get_b pl bn_spend_sum) (\<lambda>spend_sum.
     bnd (some_or (u64_checked_add spend_sum (ca_spend_value c))
            (pmsg pl ''PCZT '' '' spend value sum overflow'')) (\<lambda>spend_sum'.
     bnd (mod_b pl (\<lambda>v. v\<lparr> bn_spend_sum := spend_sum' \<rparr>)) (\<lambda>_.
     bnd (get_b pl bn_output_sum) (\<lambda>output_sum.
     bnd (some_or (u64_checked_add output_sum (ca_output_value c))
            (pmsg pl ''PCZT '' '' output value sum overflow'')) (\<lambda>output_sum'.
     bnd (mod_b pl (\<lambda>v. v\<lparr> bn_output_sum := output_sum' \<rparr>)) (\<lambda>_.
     bnd (some_or (ca_alpha c) (Sw BadState)) (\<lambda>alpha.
     bnd (some_or (ca_path c) (Sw BadState)) (\<lambda>p.
     bnd (mod_b pl (\<lambda>v. v\<lparr> bn_records := bn_records v @ [\<lparr>
            sr_alpha = alpha, sr_path = p, sr_is_real_spend = is_real_spend, sr_signed = False \<rparr>] \<rparr>)) (\<lambda>_.
     bnd (reset_current_action pl) (\<lambda>_.
     bnd (mod_b pl (\<lambda>v. v\<lparr> bn_parsed := usize_saturating_add (bn_parsed v) 1 \<rparr>)) (\<lambda>_.
     bnd (get_b pl id) (\<lambda>v.
     set_state (if bn_parsed v = bn_count v then wait_trailer pl else wait_action pl)))))))))))))))))))"

section \<open>Output metadata\<close>

definition OUTPUT_METADATA_WITHOUT_RCV_LEN :: nat where
  "OUTPUT_METADATA_WITHOUT_RCV_LEN = ORCHARD_RAW_ADDRESS_SIZE + 8 + 32"
definition OUTPUT_METADATA_WITH_RCV_LEN :: nat where
  "OUTPUT_METADATA_WITH_RCV_LEN = OUTPUT_METADATA_WITHOUT_RCV_LEN + 32"
definition OUTPUT_METADATA_WITH_NOTE_VERSION_LEN :: nat where
  "OUTPUT_METADATA_WITH_NOTE_VERSION_LEN = OUTPUT_METADATA_WITH_RCV_LEN + 1"

definition read_output_fields :: "env \<Rightarrow> pool \<Rightarrow> unit papp" where
  "read_output_fields E pl =
     bnd (read_exact ORCHARD_RAW_ADDRESS_SIZE) (\<lambda>output_recipient.
     bnd (mod_ca (\<lambda>c. c\<lparr> ca_output_recipient := output_recipient \<rparr>)) (\<lambda>_.
     bnd (read_value E (pmsg pl ''Bad PCZT '' '' output value'')
            (pmsg pl ''PCZT '' '' output value out of range'')) (\<lambda>output_value.
     bnd (mod_ca (\<lambda>c. c\<lparr> ca_output_value := output_value \<rparr>)) (\<lambda>_.
     bnd (read_exact 32) (\<lambda>rseed.
     bnd (mod_ca (\<lambda>c. c\<lparr> ca_output_rseed := Some rseed \<rparr>)) (\<lambda>_.
     bnd (read_exact 32) (\<lambda>rcv.
     mod_ca (\<lambda>c. c\<lparr> ca_rcv := Some rcv \<rparr>))))))))"

definition parse_output_metadata :: "env \<Rightarrow> pool \<Rightarrow> unit papp" where
  "parse_output_metadata E pl =
     bnd (gets remaining_len) (\<lambda>n.
     bnd (ensure (n \<noteq> OUTPUT_METADATA_WITHOUT_RCV_LEN) (pmsg pl ''Missing PCZT '' '' rcv'')) (\<lambda>_.
     bnd (ensure (n = OUTPUT_METADATA_WITH_RCV_LEN
                  \<or> pl = IronwoodPool \<and> n = OUTPUT_METADATA_WITH_NOTE_VERSION_LEN)
            (pmsg pl ''Bad PCZT '' '' output metadata length'')) (\<lambda>_.
     bnd (read_output_fields E pl) (\<lambda>_.
     bnd (when_do (n = OUTPUT_METADATA_WITH_NOTE_VERSION_LEN)
            (bnd read_u8 (\<lambda>version.
             bnd (mod_ca (\<lambda>c. c\<lparr> ca_note_plaintext_version := version \<rparr>)) (\<lambda>_.
             ensure (version = NOTE_VERSION_IRONWOOD)
               (pmsg pl ''Bad PCZT '' '' notePlaintextVersion''))))) (\<lambda>_.
     bnd (ensure_apdu_group_end pl) (\<lambda>_.
     finish_current_action E pl))))))"

section \<open>Derivation of the action's keys\<close>

fun decipher_keys_error :: "pool \<Rightarrow> app_sw \<Rightarrow> parser_error" where
  "decipher_keys_error OrchardPool _ = Sw TechnicalProblem"
| "decipher_keys_error IronwoodPool sw = Sw sw"

definition finish_zip32_derivation :: "env \<Rightarrow> pool \<Rightarrow> bytes \<Rightarrow> unit papp" where
  "finish_zip32_derivation E pl derivation =
     bnd (lift_r (map_err_r (\<lambda>_. pmsg pl ''Bad PCZT '' '' zip32 derivation path'')
            (bip32_try_from_bytes (drop ZIP32_SEED_FINGERPRINT_SIZE derivation)))) (\<lambda>p.
     bnd (lift_r (slice 0 ZIP32_SEED_FINGERPRINT_SIZE derivation)) (\<lambda>seed_fingerprint.
     bnd (ensure (check_bip44_compliance p OnlyCoinType)
            (pmsg pl ''PCZT '' '' signing path not compliant'')) (\<lambda>_.
     bnd (get_ca ca_spend_value) (\<lambda>spend_value.
     bnd (map_err Sw (get_orchard_spending_key E p)) (\<lambda>sk.
     bnd (if spend_value \<noteq> 0
          then bnd (lift_sw (derive_orchard_fvk_and_ask_from_sk E sk)) (\<lambda>(fvk, ask). ret (fvk, Some ask))
          else bnd (lift_sw (derive_orchard_fvk_from_sk E sk)) (\<lambda>fvk. ret (fvk, None))) (\<lambda>(fvk, ask_for_rk).
     bnd (case ask_for_rk of Some ask \<Rightarrow> verify_current_rk E pl ask | None \<Rightarrow> ret ()) (\<lambda>_.
     bnd (lift_r (map_err_r (decipher_keys_error pl)
            (decipher_keys_from_fvk E fvk (orchard_network p)))) (\<lambda>keys.
     bnd (mod_ti (\<lambda>t. t\<lparr> decipher_keys := Some keys \<rparr>)) (\<lambda>_.
     bnd (mod_ca (\<lambda>c. c\<lparr> ca_path := Some p, ca_fvk := Some fvk \<rparr>)) (\<lambda>_.
     set_state (wait_output pl)))))))))))"

definition parse_zip32_derivation :: "env \<Rightarrow> pool \<Rightarrow> unit papp" where
  "parse_zip32_derivation E pl =
     bnd (gets remaining_slice) (\<lambda>derivation.
     bnd (ensure (derivation \<noteq> []) (pmsg pl ''Missing PCZT '' '' zip32 derivation bytes'')) (\<lambda>_.
     bnd (finish_zip32_derivation E pl derivation) (\<lambda>_.
     bnd (advance (length derivation)) (\<lambda>_.
     bnd (gets remaining_len) (\<lambda>n.
     ensure (n = 0) (pmsg pl ''Unexpected data after PCZT '' '' zip32 derivation''))))))"

section \<open>Closing a bundle\<close>

definition orchard_signature_count :: "pczt_parser \<Rightarrow> nat" where
  "orchard_signature_count p = orchard_real_spend_count p"

definition ironwood_signature_count :: "pczt_parser \<Rightarrow> nat" where
  "ironwood_signature_count p = ironwood_real_spend_count p"

definition are_orchard_signatures_done :: "pczt_parser \<Rightarrow> bool" where
  "are_orchard_signatures_done p \<longleftrightarrow>
     \<not> has_orchard_bundle p \<or> orchard_signed_action_count p \<ge> orchard_signature_count p"

definition are_ironwood_signatures_done :: "pczt_parser \<Rightarrow> bool" where
  "are_ironwood_signatures_done p \<longleftrightarrow>
     \<not> has_ironwood_bundle p \<or> ironwood_signed_action_count p \<ge> ironwood_signature_count p"

definition finalize_orchard_actions :: "env \<Rightarrow> unit papp" where
  "finalize_orchard_actions E =
     bnd (set_state OrchardActionsDone) (\<lambda>_.
     bnd (get_ti is_v6) (\<lambda>v6.
     if v6 then ret ()
     else
       bnd (review_outputs E) (\<lambda>_.
       bnd (get_p are_orchard_signatures_done) (\<lambda>fin.
       when_do fin clear_orchard_spending_key))))"

definition finalize_ironwood_actions :: "env \<Rightarrow> unit papp" where
  "finalize_ironwood_actions E =
     bnd (set_state IronwoodActionsDone) (\<lambda>_.
     bnd (review_outputs E) (\<lambda>_.
     bnd (get_p (\<lambda>p. are_orchard_signatures_done p \<and> are_ironwood_signatures_done p)) (\<lambda>fin.
     when_do fin clear_orchard_spending_key)))"

fun finalize_actions :: "env \<Rightarrow> pool \<Rightarrow> unit papp" where
  "finalize_actions E OrchardPool = finalize_orchard_actions E"
| "finalize_actions E IronwoodPool = finalize_ironwood_actions E"

definition finish_value_sum_sign :: "pool \<Rightarrow> u8 \<Rightarrow> unit papp" where
  "finish_value_sum_sign pl sign_byte =
     bnd (get_ca ca_value_sum_magnitude) (\<lambda>m.
     bnd (some_or (i64_try_from (int (unat m))) (pmsg pl ''PCZT '' '' value_sum out of range'')) (\<lambda>magnitude.
     bnd (if sign_byte = 0 then ret magnitude
          else if sign_byte = 1 then ret (- magnitude)
          else throw (pmsg pl ''Bad PCZT '' '' value_sum sign'')) (\<lambda>balance.
     bnd (mod_b pl (\<lambda>v. v\<lparr> bn_balance := balance \<rparr>)) (\<lambda>_.
     bnd (get_b pl id) (\<lambda>v.
     ensure (int (unat (bn_spend_sum v)) - int (unat (bn_output_sum v)) = bn_balance v)
       (pmsg pl ''PCZT '' '' value_sum mismatch''))))))"

fun pool_h :: "pool \<Rightarrow> hasher_ref" where
  "pool_h OrchardPool = orchard_h"
| "pool_h IronwoodPool = ironwood_h"

fun set_pool_digest :: "pool \<Rightarrow> bytes \<Rightarrow> (world, 'e, unit) sm" where
  "set_pool_digest OrchardPool d = mod_ti (\<lambda>t. t\<lparr> orchard_digest := d \<rparr>)"
| "set_pool_digest IronwoodPool d = mod_ti (\<lambda>t. t\<lparr> ironwood_digest := d \<rparr>)"

definition finish_anchor :: "env \<Rightarrow> pool \<Rightarrow> bytes \<Rightarrow> unit papp" where
  "finish_anchor E pl anchor =
     bnd (finalize_and_log_hash E tx_compact_h) (\<lambda>compact_digest.
     bnd (finalize_and_log_hash E tx_memo_h) (\<lambda>memo_digest.
     bnd (finalize_and_log_hash E tx_non_compact_h) (\<lambda>non_compact_digest.
     bnd (h_update E (pool_h pl) compact_digest) (\<lambda>_.
     bnd (h_update E (pool_h pl) memo_digest) (\<lambda>_.
     bnd (h_update E (pool_h pl) non_compact_digest) (\<lambda>_.
     bnd (get_ca ca_flags) (\<lambda>flags.
     bnd (h_update E (pool_h pl) [flags]) (\<lambda>_.
     bnd (get_b pl bn_balance) (\<lambda>balance.
     bnd (h_update E (pool_h pl) (i64_to_le_bytes balance)) (\<lambda>_.
     bnd (get_ti is_v6) (\<lambda>v6.
     bnd (when_do (pl = OrchardPool \<and> \<not> v6) (h_update E (pool_h pl) anchor)) (\<lambda>_.
     bnd (finalize_and_log_hash E (pool_h pl)) (\<lambda>digest.
     bnd (set_pool_digest pl digest) (\<lambda>_.
     finalize_actions E pl))))))))))))))"

definition trailer_bundle_version :: "pool \<Rightarrow> bool \<Rightarrow> bundle_version" where
  "trailer_bundle_version pl v6 =
     (case pl of OrchardPool \<Rightarrow> if v6 then Orchard_v3 else Orchard_insecure_v1
      | IronwoodPool \<Rightarrow> Orchard_v3)"

fun flags_error :: "pool \<Rightarrow> parser_error" where
  "flags_error OrchardPool = Custom ''invalid Orchard flags''"
| "flags_error IronwoodPool = Custom ''invalid Ironwood flags''"

definition parse_trailer :: "env \<Rightarrow> pool \<Rightarrow> unit papp" where
  "parse_trailer E pl =
     bnd (get_ti is_v6) (\<lambda>v6.
     let version = trailer_bundle_version pl v6 in
     bnd (read_ext (orchard_read_flags E version)) (\<lambda>flags.
     bnd (some_or (orchard_flags_to_byte E version flags) (flags_error pl)) (\<lambda>flags_byte.
     bnd (mod_ca (\<lambda>c. c\<lparr> ca_flags := flags_byte \<rparr>)) (\<lambda>_.
     bnd read_u64_le (\<lambda>magnitude.
     bnd (mod_ca (\<lambda>c. c\<lparr> ca_value_sum_magnitude := magnitude \<rparr>)) (\<lambda>_.
     bnd read_u8 (\<lambda>sign_byte.
     bnd (finish_value_sum_sign pl sign_byte) (\<lambda>_.
     bnd (read_exact 32) (\<lambda>anchor.
     bnd (ensure_apdu_group_end pl) (\<lambda>_.
     finish_anchor E pl anchor))))))))))"

section \<open>Opening a bundle\<close>

definition parse_orchard_actions_start :: "env \<Rightarrow> unit papp" where
  "parse_orchard_actions_start E =
     bnd (read_ext (compact_size_read E)) (\<lambda>action_count.
     bnd (ensure (\<not> action_count > MAX_PCZT_ORCHARD_ACTIONS_NUMBER)
            (Custom ''Too many PCZT orchard actions'')) (\<lambda>_.
     bnd (ensure_group_end ''Unexpected PCZT orchard action data after action count'') (\<lambda>_.
     bnd (mod_p (\<lambda>p. p\<lparr> pczt_finished := False \<rparr>)) (\<lambda>_.
     bnd (reset_orchard_bundle_state action_count) (\<lambda>_.
     bnd (try_reserve_exact E action_count) (\<lambda>_.
     if action_count = 0 then finalize_orchard_actions E
     else seqs [
       mod_p (\<lambda>p. p\<lparr> has_orchard_bundle := True \<rparr>),
       h_init E tx_compact_h ZCASH_ORCHARD_ACTIONS_COMPACT_HASH_PERSONALIZATION,
       h_init E tx_memo_h ZCASH_ORCHARD_ACTIONS_MEMOS_HASH_PERSONALIZATION,
       h_init E tx_non_compact_h ZCASH_ORCHARD_ACTIONS_NONCOMPACT_HASH_PERSONALIZATION,
       bnd (get_ti is_v6) (\<lambda>v6.
         when_do v6 (h_init E orchard_h ZCASH_ORCHARD_HASH_PERSONALIZATION_V6)),
       set_state WaitOrchardAction]))))))"

definition parse_ironwood_actions_start :: "env \<Rightarrow> unit papp" where
  "parse_ironwood_actions_start E =
     bnd (get_ti is_v6) (\<lambda>v6.
     bnd (ensure v6 (Custom ''Ironwood bundle on a non-V6 transaction'')) (\<lambda>_.
     bnd (read_ext (compact_size_read E)) (\<lambda>action_count.
     bnd (ensure (\<not> action_count > MAX_PCZT_IRONWOOD_ACTIONS_NUMBER)
            (Custom ''Too many PCZT ironwood actions'')) (\<lambda>_.
     bnd (ensure_group_end ''Unexpected PCZT ironwood action data after action count'') (\<lambda>_.
     bnd (mod_p (\<lambda>p. p\<lparr> pczt_finished := False \<rparr>)) (\<lambda>_.
     bnd (reset_ironwood_bundle_state action_count) (\<lambda>_.
     bnd (try_reserve_exact E action_count) (\<lambda>_.
     if action_count = 0 then finalize_ironwood_actions E
     else seqs [
       mod_p (\<lambda>p. p\<lparr> has_ironwood_bundle := True, is_v6_tx := True \<rparr>),
       mod_ti (\<lambda>t. t\<lparr> info_has_ironwood_bundle := True \<rparr>),
       h_init E tx_compact_h ZCASH_IRONWOOD_ACTIONS_COMPACT_HASH_PERSONALIZATION,
       h_init E tx_memo_h ZCASH_IRONWOOD_ACTIONS_MEMOS_HASH_PERSONALIZATION,
       h_init E tx_non_compact_h ZCASH_IRONWOOD_ACTIONS_NONCOMPACT_HASH_PERSONALIZATION,
       h_init E ironwood_h ZCASH_IRONWOOD_HASH_PERSONALIZATION,
       set_state WaitIronwoodAction]))))))))"

section \<open>Signing\<close>

definition ensure_signature_digest :: "env \<Rightarrow> pool \<Rightarrow> nat \<Rightarrow> unit papp" where
  "ensure_signature_digest E pl action_index =
     bnd (gets pczt_parser) (\<lambda>p.
     bnd (ensure (is_finished p) (Sw BadState)) (\<lambda>_.
     bnd (some_or (vec_get (bn_records (view pl p)) action_index)
            (pmsg pl ''Bad PCZT '' '' action index'')) (\<lambda>action.
     bnd (ensure (\<not> sr_signed action) (pmsg pl ''PCZT '' '' action already signed'')) (\<lambda>_.
     bnd (ensure (sr_is_real_spend action)
            (pmsg pl ''PCZT '' '' dummy spend must not be signed by the device'')) (\<lambda>_.
     case bn_sig_digest (view pl p) of
       Some d \<Rightarrow> mod_ti (\<lambda>t. t\<lparr> signature_digest := d \<rparr>)
     | None \<Rightarrow>
         bnd (compute_shielded_signature_digest E (transparent_input_count p) (transparent_output_count p)) (\<lambda>_.
         bnd (get_ti signature_digest) (\<lambda>d.
         mod_b pl (\<lambda>v. v\<lparr> bn_sig_digest := Some d \<rparr>))))))))"

definition action_signing_data :: "pool \<Rightarrow> nat \<Rightarrow> (bip32_path \<times> bytes) papp" where
  "action_signing_data pl action_index =
     bnd (gets pczt_parser) (\<lambda>p.
     bnd (ensure (is_ready_to_sign p) (Sw BadState)) (\<lambda>_.
     bnd (some_or (vec_get (bn_records (view pl p)) action_index)
            (pmsg pl ''Bad PCZT '' '' action index'')) (\<lambda>action.
     ret (sr_path action, sr_alpha action))))"

definition mark_action_signed :: "pool \<Rightarrow> nat \<Rightarrow> nat papp" where
  "mark_action_signed pl action_index =
     bnd (get_b pl bn_records) (\<lambda>records.
     bnd (some_or (vec_get records action_index) (pmsg pl ''Bad PCZT '' '' action index'')) (\<lambda>action.
     bnd (ensure (\<not> sr_signed action) (pmsg pl ''PCZT '' '' action already signed'')) (\<lambda>_.
     bnd (mod_b pl (\<lambda>v. v\<lparr>
            bn_records := (bn_records v)[action_index := action\<lparr> sr_signed := True, sr_alpha := zeros 32 \<rparr>],
            bn_signed := usize_saturating_add (bn_signed v) 1 \<rparr>)) (\<lambda>_.
     bnd (get_p (\<lambda>p. are_orchard_signatures_done p \<and> are_ironwood_signatures_done p)) (\<lambda>fin.
     bnd (when_do fin clear_orchard_spending_key) (\<lambda>_.
     get_b pl bn_signed))))))"

section \<open>Entry points\<close>

definition parse_orchard_action :: "env \<Rightarrow> unit papp" where
  "parse_orchard_action E = parse_action E OrchardPool"
definition parse_orchard_zip32_derivation :: "env \<Rightarrow> unit papp" where
  "parse_orchard_zip32_derivation E = parse_zip32_derivation E OrchardPool"
definition parse_orchard_output :: "env \<Rightarrow> unit papp" where
  "parse_orchard_output E = parse_output E OrchardPool"
definition parse_orchard_enc_ciphertext_len :: "env \<Rightarrow> unit papp" where
  "parse_orchard_enc_ciphertext_len E = parse_enc_ciphertext_len E OrchardPool"
definition parse_orchard_enc_ciphertext :: "env \<Rightarrow> unit papp" where
  "parse_orchard_enc_ciphertext E = parse_enc_ciphertext E OrchardPool"
definition parse_orchard_out_ciphertext_len :: "env \<Rightarrow> unit papp" where
  "parse_orchard_out_ciphertext_len E = parse_out_ciphertext_len E OrchardPool"
definition parse_orchard_out_ciphertext :: "env \<Rightarrow> unit papp" where
  "parse_orchard_out_ciphertext E = parse_out_ciphertext E OrchardPool"
definition parse_orchard_output_metadata :: "env \<Rightarrow> unit papp" where
  "parse_orchard_output_metadata E = parse_output_metadata E OrchardPool"
definition parse_orchard_trailer :: "env \<Rightarrow> unit papp" where
  "parse_orchard_trailer E = parse_trailer E OrchardPool"
definition ensure_signature_digest_for_orchard :: "env \<Rightarrow> nat \<Rightarrow> unit papp" where
  "ensure_signature_digest_for_orchard E = ensure_signature_digest E OrchardPool"
definition orchard_action_signing_data :: "nat \<Rightarrow> (bip32_path \<times> bytes) papp" where
  "orchard_action_signing_data = action_signing_data OrchardPool"
definition mark_orchard_action_signed :: "nat \<Rightarrow> nat papp" where
  "mark_orchard_action_signed = mark_action_signed OrchardPool"

definition parse_ironwood_action :: "env \<Rightarrow> unit papp" where
  "parse_ironwood_action E = parse_action E IronwoodPool"
definition parse_ironwood_zip32_derivation :: "env \<Rightarrow> unit papp" where
  "parse_ironwood_zip32_derivation E = parse_zip32_derivation E IronwoodPool"
definition parse_ironwood_output :: "env \<Rightarrow> unit papp" where
  "parse_ironwood_output E = parse_output E IronwoodPool"
definition parse_ironwood_enc_ciphertext_len :: "env \<Rightarrow> unit papp" where
  "parse_ironwood_enc_ciphertext_len E = parse_enc_ciphertext_len E IronwoodPool"
definition parse_ironwood_enc_ciphertext :: "env \<Rightarrow> unit papp" where
  "parse_ironwood_enc_ciphertext E = parse_enc_ciphertext E IronwoodPool"
definition parse_ironwood_out_ciphertext_len :: "env \<Rightarrow> unit papp" where
  "parse_ironwood_out_ciphertext_len E = parse_out_ciphertext_len E IronwoodPool"
definition parse_ironwood_out_ciphertext :: "env \<Rightarrow> unit papp" where
  "parse_ironwood_out_ciphertext E = parse_out_ciphertext E IronwoodPool"
definition parse_ironwood_output_metadata :: "env \<Rightarrow> unit papp" where
  "parse_ironwood_output_metadata E = parse_output_metadata E IronwoodPool"
definition parse_ironwood_trailer :: "env \<Rightarrow> unit papp" where
  "parse_ironwood_trailer E = parse_trailer E IronwoodPool"
definition ensure_signature_digest_for_ironwood :: "env \<Rightarrow> nat \<Rightarrow> unit papp" where
  "ensure_signature_digest_for_ironwood E = ensure_signature_digest E IronwoodPool"
definition ironwood_action_signing_data :: "nat \<Rightarrow> (bip32_path \<times> bytes) papp" where
  "ironwood_action_signing_data = action_signing_data IronwoodPool"
definition mark_ironwood_action_signed :: "nat \<Rightarrow> nat papp" where
  "mark_ironwood_action_signed = mark_action_signed IronwoodPool"

lemmas pool_entry_defs = parse_orchard_action_def parse_orchard_zip32_derivation_def
  parse_orchard_output_def parse_orchard_enc_ciphertext_len_def parse_orchard_enc_ciphertext_def
  parse_orchard_out_ciphertext_len_def parse_orchard_out_ciphertext_def
  parse_orchard_output_metadata_def parse_orchard_trailer_def parse_ironwood_action_def
  parse_ironwood_zip32_derivation_def parse_ironwood_output_def
  parse_ironwood_enc_ciphertext_len_def parse_ironwood_enc_ciphertext_def
  parse_ironwood_out_ciphertext_len_def parse_ironwood_out_ciphertext_def
  parse_ironwood_output_metadata_def parse_ironwood_trailer_def
  ensure_signature_digest_for_orchard_def orchard_action_signing_data_def
  mark_orchard_action_signed_def ensure_signature_digest_for_ironwood_def
  ironwood_action_signing_data_def mark_ironwood_action_signed_def

end
