(* ===== verification/Pczt_Dispatch.thy ===== *)
theory Pczt_Dispatch
  imports Pczt_Shielded
begin

text \<open>
  The entry points of the PCZT parser in \<open>src/src/parser/pczt.rs\<close>: the header packet, the four
  packet loops that dispatch on the parser state, and \<open>finish_pczt\<close>.  Each loop runs with the
  length of the packet as fuel.
\<close>

definition packet_left :: "world \<Rightarrow> bool" where
  "packet_left s \<longleftrightarrow> remaining_len s > 0"

definition on_packet :: "bytes \<Rightarrow> unit papp \<Rightarrow> unit papp" where
  "on_packet data step =
     reset_on_error (bnd (reader_new data) (\<lambda>_. while_sm (length data) packet_left step))"

definition parse_header :: "env \<Rightarrow> bytes \<Rightarrow> unit papp" where
  "parse_header E data = reset_on_error (
     bnd (get_p pz_state) (\<lambda>st.
     bnd (ensure (st = WaitHeaderAndGlobal) (Sw BadState)) (\<lambda>_.
     seqs [
       reader_new data,
       mod_ti (\<lambda>_. tx_info_default),
       init_v5_tx_hashers E,
       mod_ti (\<lambda>t. t\<lparr> tx_version := Some TxV5, total_amount := 0 \<rparr>),
       parse_pczt_header E,
       parse_global E,
       ensure_group_end ''Unexpected PCZT header data after global fields'',
       set_state WaitTransparentInputsCount])))"

definition transparent_inputs_step :: "env \<Rightarrow> unit papp" where
  "transparent_inputs_step E = bnd (get_p pz_state) (\<lambda>st. case st of
       WaitTransparentInputsCount \<Rightarrow> parse_transparent_inputs_start E
     | WaitTransparentInput \<Rightarrow> parse_transparent_input E
     | WaitTransparentInputScript \<Rightarrow> parse_transparent_input_script_start E
     | ProcessTransparentInputScript size1 remaining_size \<Rightarrow>
         parse_transparent_input_script E size1 remaining_size
     | WaitTransparentInputSighashType \<Rightarrow> parse_transparent_input_sighash_type E
     | WaitTransparentInputBip32Derivation \<Rightarrow> parse_transparent_input_bip32_derivation E
     | _ \<Rightarrow> throw (Sw BadState))"

definition transparent_outputs_step :: "env \<Rightarrow> unit papp" where
  "transparent_outputs_step E = bnd (get_p pz_state) (\<lambda>st. case st of
       TransparentInputsDone \<Rightarrow> parse_transparent_outputs_start E
     | WaitTransparentOutput \<Rightarrow> parse_transparent_output E
     | WaitTransparentOutputScript \<Rightarrow> parse_transparent_output_script_start E
     | ProcessTransparentOutputScript size1 remaining_size \<Rightarrow>
         parse_transparent_output_script E size1 remaining_size
     | WaitTransparentOutputBip32Derivation \<Rightarrow> parse_transparent_output_bip32_derivation E
     | _ \<Rightarrow> throw (Sw BadState))"

definition orchard_step :: "env \<Rightarrow> unit papp" where
  "orchard_step E = bnd (get_p pz_state) (\<lambda>st. case st of
       TransparentOutputsDone \<Rightarrow> parse_orchard_actions_start E
     | WaitOrchardAction \<Rightarrow> parse_orchard_action E
     | WaitOrchardZip32Derivation \<Rightarrow> parse_orchard_zip32_derivation E
     | WaitOrchardOutput \<Rightarrow> parse_orchard_output E
     | WaitOrchardEncCiphertextLen \<Rightarrow> parse_orchard_enc_ciphertext_len E
     | ProcessOrchardEncCiphertext \<Rightarrow> parse_orchard_enc_ciphertext E
     | WaitOrchardOutCiphertextLen \<Rightarrow> parse_orchard_out_ciphertext_len E
     | ProcessOrchardOutCiphertext \<Rightarrow> parse_orchard_out_ciphertext E
     | WaitOrchardOutputMetadata \<Rightarrow> parse_orchard_output_metadata E
     | WaitOrchardTrailer \<Rightarrow> parse_orchard_trailer E
     | _ \<Rightarrow> throw (Sw BadState))"

definition ironwood_step :: "env \<Rightarrow> unit papp" where
  "ironwood_step E = bnd (get_p pz_state) (\<lambda>st. case st of
       OrchardActionsDone \<Rightarrow> parse_ironwood_actions_start E
     | WaitIronwoodAction \<Rightarrow> parse_ironwood_action E
     | WaitIronwoodZip32Derivation \<Rightarrow> parse_ironwood_zip32_derivation E
     | WaitIronwoodOutput \<Rightarrow> parse_ironwood_output E
     | WaitIronwoodEncCiphertextLen \<Rightarrow> parse_ironwood_enc_ciphertext_len E
     | ProcessIronwoodEncCiphertext \<Rightarrow> parse_ironwood_enc_ciphertext E
     | WaitIronwoodOutCiphertextLen \<Rightarrow> parse_ironwood_out_ciphertext_len E
     | ProcessIronwoodOutCiphertext \<Rightarrow> parse_ironwood_out_ciphertext E
     | WaitIronwoodOutputMetadata \<Rightarrow> parse_ironwood_output_metadata E
     | WaitIronwoodTrailer \<Rightarrow> parse_ironwood_trailer E
     | _ \<Rightarrow> throw (Sw BadState))"

definition parse_transparent_inputs :: "env \<Rightarrow> bytes \<Rightarrow> unit papp" where
  "parse_transparent_inputs E data = on_packet data (transparent_inputs_step E)"

definition parse_transparent_outputs :: "env \<Rightarrow> bytes \<Rightarrow> unit papp" where
  "parse_transparent_outputs E data = on_packet data (transparent_outputs_step E)"

definition parse_orchard_actions :: "env \<Rightarrow> bytes \<Rightarrow> unit papp" where
  "parse_orchard_actions E data = on_packet data (orchard_step E)"

definition parse_ironwood_actions :: "env \<Rightarrow> bytes \<Rightarrow> unit papp" where
  "parse_ironwood_actions E data = on_packet data (ironwood_step E)"

definition finish_pczt :: "unit papp" where
  "finish_pczt = reset_on_error (
     bnd (get_p is_ready_to_sign) (\<lambda>ready.
     bnd (ensure ready (Sw BadState)) (\<lambda>_.
     mod_p (\<lambda>p. p\<lparr> pczt_finished := True \<rparr>))))"

end
