(* ===== verification/Pczt_Handlers.thy ===== *)
theory Pczt_Handlers
  imports Pczt_Dispatch
begin

text \<open>
  The PCZT command handlers, \<open>src/src/handlers/pczt.rs\<close>, and the part of \<open>src/src/main.rs\<close> that
  leads to them: decoding of the PCZT instructions, their dispatch, and what the main loop does
  after each of them.  A signature that reaches the response buffer is logged as a \<open>Signed\<close> event.
\<close>

section \<open>Errors\<close>

definition are_pczt_transparent_signatures_done :: "world \<Rightarrow> bool" where
  "are_pczt_transparent_signatures_done s \<longleftrightarrow>
     total_input_count (tx_signing_state s) = 0
     \<or> already_signed_input_count (tx_signing_state s) \<ge> total_input_count (tx_signing_state s)"

definition are_pczt_signatures_done :: "world \<Rightarrow> bool" where
  "are_pczt_signatures_done s \<longleftrightarrow>
     are_pczt_transparent_signatures_done s
     \<and> are_orchard_signatures_done (pczt_parser s) \<and> are_ironwood_signatures_done (pczt_parser s)"

text \<open>\<open>return Err(reset_pczt_parser_with_sw(ctx, sw))\<close>\<close>

definition reset_pczt_parser_with_sw :: "app_sw \<Rightarrow> 'a happ" where
  "reset_pczt_parser_with_sw sw = bnd pczt_reset (\<lambda>_. throw sw)"

fun pczt_error_sw :: "parser_error \<Rightarrow> app_sw" where
  "pczt_error_sw Hash_Err = TechnicalProblem"
| "pczt_error_sw (Sw sw) = sw"
| "pczt_error_sw UserDenied = Deny"
| "pczt_error_sw _ = IncorrectData"

definition map_pczt_parser_error :: "parser_error \<Rightarrow> 'a happ" where
  "map_pczt_parser_error e =
     bnd (when_do (e = UserDenied) set_finished) (\<lambda>_.
     bnd pczt_reset (\<lambda>_. throw (pczt_error_sw e)))"

definition on_parser_error :: "'a papp \<Rightarrow> 'a happ" where
  "on_parser_error m = catch_err m map_pczt_parser_error"

definition finish_pczt_if_requested :: "bool \<Rightarrow> unit happ" where
  "finish_pczt_if_requested requested =
     (if \<not> requested then ret () else on_parser_error finish_pczt)"

definition get_data_or_reset :: "bytes happ" where
  "get_data_or_reset = bnd (gets comm_data) (\<lambda>d.
     case d of Some data \<Rightarrow> ret data | None \<Rightarrow> reset_pczt_parser_with_sw WrongApduLength)"

section \<open>Parsing handlers\<close>

definition handler_pczt_header :: "env \<Rightarrow> unit happ" where
  "handler_pczt_header E =
     bnd (reset_for_new_transaction Signature) (\<lambda>_.
     bnd get_data_or_reset (\<lambda>data.
     on_parser_error (parse_header E data)))"

definition handler_pczt_transparent_input :: "env \<Rightarrow> bool \<Rightarrow> bool \<Rightarrow> unit happ" where
  "handler_pczt_transparent_input E first last1 =
     bnd get_data_or_reset (\<lambda>data.
     bnd (on_parser_error (parse_transparent_inputs E data)) (\<lambda>_.
     bnd (get_p is_transparent_inputs_finished) (\<lambda>fin.
     if last1 \<and> \<not> fin then reset_pczt_parser_with_sw WrongApduLength else ret ())))"

definition handler_pczt_transparent_output :: "env \<Rightarrow> bool \<Rightarrow> bool \<Rightarrow> unit happ" where
  "handler_pczt_transparent_output E first last1 =
     bnd get_data_or_reset (\<lambda>data.
     bnd (on_parser_error (parse_transparent_outputs E data)) (\<lambda>_.
     bnd (get_p is_transparent_outputs_finished) (\<lambda>fin.
     if last1 \<and> \<not> fin then reset_pczt_parser_with_sw WrongApduLength else ret ())))"

definition handler_pczt_orchard_action :: "env \<Rightarrow> bool \<Rightarrow> bool \<Rightarrow> bool \<Rightarrow> unit happ" where
  "handler_pczt_orchard_action E first last1 finished =
     bnd get_data_or_reset (\<lambda>data.
     bnd (on_parser_error (parse_orchard_actions E data)) (\<lambda>_.
     bnd (get_p is_orchard_actions_finished) (\<lambda>fin.
     if last1 \<and> \<not> fin then reset_pczt_parser_with_sw WrongApduLength
     else finish_pczt_if_requested finished)))"

definition handler_pczt_ironwood_action :: "env \<Rightarrow> bool \<Rightarrow> bool \<Rightarrow> bool \<Rightarrow> unit happ" where
  "handler_pczt_ironwood_action E first last1 finished =
     bnd get_data_or_reset (\<lambda>data.
     bnd (on_parser_error (parse_ironwood_actions E data)) (\<lambda>_.
     bnd (get_p is_ironwood_actions_finished) (\<lambda>fin.
     if last1 \<and> \<not> fin then reset_pczt_parser_with_sw WrongApduLength
     else finish_pczt_if_requested finished)))"

section \<open>Signing handlers\<close>

text \<open>A status word of a called function, with the parser reset.\<close>

definition on_sw_error :: "'a happ \<Rightarrow> 'a happ" where
  "on_sw_error m = catch_err m reset_pczt_parser_with_sw"

definition require_no_data_and_finished :: "unit happ" where
  "require_no_data_and_finished =
     bnd get_data_or_reset (\<lambda>data.
     if data \<noteq> [] then reset_pczt_parser_with_sw WrongApduLength
     else bnd (get_p is_finished) (\<lambda>fin.
          if \<not> fin then reset_pczt_parser_with_sw ConditionsOfUseNotSatisfied else ret ()))"

definition check_change_account :: "bip32_path \<Rightarrow> unit happ" where
  "check_change_account p = bnd (gets tx_info) (\<lambda>ti.
     on_sw_error (lift_r (check_change_returns_to_signing_account ti p)))"

definition finish_if_signatures_done :: "unit happ" where
  "finish_if_signatures_done = bnd (gets are_pczt_signatures_done) (\<lambda>fin.
     when_do fin (bnd set_finished (\<lambda>_. pczt_reset)))"

definition handler_pczt_sign_transparent :: "env \<Rightarrow> nat \<Rightarrow> unit happ" where
  "handler_pczt_sign_transparent E input_index =
     bnd require_no_data_and_finished (\<lambda>_.
     bnd (on_parser_error (mark_transparent_input_signed input_index)) (\<lambda>_.
     bnd (on_parser_error (use_transparent_signature_digest E input_index)) (\<lambda>sighash.
     bnd (on_parser_error (transparent_input_signing_path input_index)) (\<lambda>p.
     bnd (check_change_account p) (\<lambda>_.
     bnd (get_ti signature_digest) (\<lambda>digest.
     bnd (on_sw_error (append_signature E digest p sighash)) (\<lambda>_.
     bnd (log_event (Signed KeyTransparent input_index digest p)) (\<lambda>_.
     bnd note_signature_released (\<lambda>_.
     bnd (mod_ss (\<lambda>t. t\<lparr> already_signed_input_count :=
            usize_saturating_add (already_signed_input_count t) 1 \<rparr>)) (\<lambda>_.
     finish_if_signatures_done))))))))))"

fun key_pool_of :: "pool \<Rightarrow> key_pool" where
  "key_pool_of OrchardPool = KeyOrchard"
| "key_pool_of IronwoodPool = KeyIronwood"

definition sign_shielded :: "env \<Rightarrow> pool \<Rightarrow> nat \<Rightarrow> unit happ" where
  "sign_shielded E pl action_index =
     bnd require_no_data_and_finished (\<lambda>_.
     bnd (on_parser_error (ensure_signature_digest E pl action_index)) (\<lambda>_.
     bnd (on_parser_error (action_signing_data pl action_index)) (\<lambda>(p, alpha).
     bnd (check_change_account p) (\<lambda>_.
     bnd (on_sw_error (get_orchard_spending_key E p)) (\<lambda>sk.
     bnd (get_ti signature_digest) (\<lambda>digest.
     bnd (on_sw_error (orchard_spend_auth_signature_with_sk E sk digest alpha)) (\<lambda>auth_sig.
     bnd (on_parser_error (mark_action_signed pl action_index)) (\<lambda>signed_count.
     bnd (comm_append auth_sig) (\<lambda>_.
     bnd (log_event (Signed (key_pool_of pl) action_index digest p)) (\<lambda>_.
     bnd note_signature_released (\<lambda>_.
     finish_if_signatures_done)))))))))))"

definition handler_pczt_sign_orchard :: "env \<Rightarrow> nat \<Rightarrow> unit happ" where
  "handler_pczt_sign_orchard E action_index = sign_shielded E OrchardPool action_index"

definition handler_pczt_sign_ironwood :: "env \<Rightarrow> nat \<Rightarrow> unit happ" where
  "handler_pczt_sign_ironwood E action_index = sign_shielded E IronwoodPool action_index"

section \<open>Instructions\<close>

definition INS_PCZT_HEADER :: u8 where "INS_PCZT_HEADER = 0x52"
definition INS_PCZT_TRANSPARENT_INPUT :: u8 where "INS_PCZT_TRANSPARENT_INPUT = 0x53"
definition INS_PCZT_TRANSPARENT_OUTPUT :: u8 where "INS_PCZT_TRANSPARENT_OUTPUT = 0x54"
definition INS_PCZT_SIGN_TRANSPARENT :: u8 where "INS_PCZT_SIGN_TRANSPARENT = 0x55"
definition INS_PCZT_ORCHARD_ACTION :: u8 where "INS_PCZT_ORCHARD_ACTION = 0x56"
definition INS_PCZT_SIGN_ORCHARD :: u8 where "INS_PCZT_SIGN_ORCHARD = 0x57"
definition INS_PCZT_IRONWOOD_ACTION :: u8 where "INS_PCZT_IRONWOOD_ACTION = 0x58"
definition INS_PCZT_SIGN_IRONWOOD :: u8 where "INS_PCZT_SIGN_IRONWOOD = 0x59"
definition P1_FIRST :: u8 where "P1_FIRST = 0x00"
definition P1_NEXT :: u8 where "P1_NEXT = 0x80"
definition P1_LAST :: u8 where "P1_LAST = 0x01"

datatype instruction =
    PcztHeader
  | PcztTransparentInput (pi_first: bool) (pi_last: bool)
  | PcztTransparentOutput (po_first: bool) (po_last: bool)
  | PcztOrchardAction (oa_first: bool) (oa_last: bool) (oa_finished: bool)
  | PcztSignTransparent (input_index: nat)
  | PcztSignOrchard (orchard_index: nat)
  | PcztIronwoodAction (ia_first: bool) (ia_last: bool) (ia_finished: bool)
  | PcztSignIronwood (ironwood_index: nat)
  | PcztInvalid (invalid_sw: app_sw)

text \<open>The PCZT arms of \<open>Instruction::try_from\<close>; \<open>None\<close> is an instruction byte outside 0x52--0x59.\<close>

definition p1_valid :: "u8 \<Rightarrow> bool" where
  "p1_valid p1 \<longleftrightarrow> p1 = P1_FIRST \<or> p1 = P1_NEXT \<or> p1 = P1_LAST"

definition p2_action_valid :: "u8 \<Rightarrow> bool" where
  "p2_action_valid p2 \<longleftrightarrow> p2 = P2_PCZT_CONTINUE \<or> p2 = P2_PCZT_FINISHED"

definition decode_pczt :: "u8 \<Rightarrow> u8 \<Rightarrow> u8 \<Rightarrow> instruction option" where
  "decode_pczt ins p1 p2 =
     (if ins = INS_PCZT_HEADER \<and> p1 = P1_FIRST \<and> p2 = P2_PCZT_CONTINUE then Some PcztHeader
      else if ins = INS_PCZT_TRANSPARENT_INPUT \<and> p2 = P2_PCZT_CONTINUE \<and> p1_valid p1
        then Some (PcztTransparentInput (p1 = P1_FIRST) (p1 = P1_LAST))
      else if ins = INS_PCZT_TRANSPARENT_OUTPUT \<and> p2 = P2_PCZT_CONTINUE \<and> p1_valid p1
        then Some (PcztTransparentOutput (p1 = P1_FIRST) (p1 = P1_LAST))
      else if ins = INS_PCZT_ORCHARD_ACTION \<and> p2_action_valid p2 \<and> p1_valid p1
        then Some (PcztOrchardAction (p1 = P1_FIRST) (p1 = P1_LAST) (p2 = P2_PCZT_FINISHED))
      else if ins = INS_PCZT_SIGN_TRANSPARENT \<and> p1 = 0 \<and> unat p2 < MAX_PCZT_TRANSPARENT_INPUTS_NUMBER
        then Some (PcztSignTransparent (unat p2))
      else if ins = INS_PCZT_SIGN_ORCHARD \<and> p1 = 0 \<and> unat p2 < MAX_PCZT_ORCHARD_ACTIONS_NUMBER
        then Some (PcztSignOrchard (unat p2))
      else if ins = INS_PCZT_IRONWOOD_ACTION \<and> p2_action_valid p2 \<and> p1_valid p1
        then Some (PcztIronwoodAction (p1 = P1_FIRST) (p1 = P1_LAST) (p2 = P2_PCZT_FINISHED))
      else if ins = INS_PCZT_SIGN_IRONWOOD \<and> p1 = 0 \<and> unat p2 < MAX_PCZT_IRONWOOD_ACTIONS_NUMBER
        then Some (PcztSignIronwood (unat p2))
      else if ins \<in> {INS_PCZT_HEADER, INS_PCZT_TRANSPARENT_INPUT, INS_PCZT_TRANSPARENT_OUTPUT,
                     INS_PCZT_ORCHARD_ACTION, INS_PCZT_SIGN_TRANSPARENT, INS_PCZT_SIGN_ORCHARD,
                     INS_PCZT_IRONWOOD_ACTION, INS_PCZT_SIGN_IRONWOOD}
        then Some (PcztInvalid WrongP1P2)
      else None)"

fun handle_pczt_apdu :: "env \<Rightarrow> instruction \<Rightarrow> unit happ" where
  "handle_pczt_apdu E PcztHeader = handler_pczt_header E"
| "handle_pczt_apdu E (PcztTransparentInput first last1) = handler_pczt_transparent_input E first last1"
| "handle_pczt_apdu E (PcztTransparentOutput first last1) = handler_pczt_transparent_output E first last1"
| "handle_pczt_apdu E (PcztOrchardAction first last1 finished) =
     handler_pczt_orchard_action E first last1 finished"
| "handle_pczt_apdu E (PcztSignTransparent i) = handler_pczt_sign_transparent E i"
| "handle_pczt_apdu E (PcztSignOrchard i) = handler_pczt_sign_orchard E i"
| "handle_pczt_apdu E (PcztIronwoodAction first last1 finished) =
     handler_pczt_ironwood_action E first last1 finished"
| "handle_pczt_apdu E (PcztSignIronwood i) = handler_pczt_sign_ironwood E i"
| "handle_pczt_apdu E (PcztInvalid sw) = bnd pczt_reset (\<lambda>_. throw sw)"

section \<open>One turn of the main loop on a PCZT command\<close>

text \<open>The part of \<open>normal_main\<close> that PCZT instructions run; the loop over all instructions is
  \<open>Legacy_Handlers.apdu_turn\<close>, shown in \<open>Device_Session\<close> to agree with this one.  The command arrives
  with empty response, the handler runs, and an error resets the whole context (every PCZT instruction
  is in the list that does).  The status word is \<open>None\<close> when the handler panicked, which ends the
  application.\<close>

definition receive :: "bytes option \<Rightarrow> world \<Rightarrow> world" where
  "receive data s = s\<lparr> comm_data := data, comm_out := [] \<rparr>"

definition main_turn :: "env \<Rightarrow> instruction \<Rightarrow> bytes option \<Rightarrow> world \<Rightarrow> app_sw option \<times> world" where
  "main_turn E ins data s =
     (case handle_pczt_apdu E ins (receive data s) of
        (Inr _, s') \<Rightarrow> (Some app_sw.Ok, s')
      | (Inl (Fail sw), s') \<Rightarrow> (Some sw, reset_ctx TrustedInput s')
      | (Inl Panic, s') \<Rightarrow> (None, s')
      | (Inl Diverge, s') \<Rightarrow> (None, s'))"

text \<open>Whether \<open>normal_main\<close> returns to the Exchange application after the turn; \<open>is_finished\<close> is read
  before the context is reset.\<close>

definition swap_exit :: "env \<Rightarrow> instruction \<Rightarrow> bytes option \<Rightarrow> world \<Rightarrow> bool" where
  "swap_exit E ins data s =
     (case handle_pczt_apdu E ins (receive data s) of
        (Inr _, s') \<Rightarrow> swap_params s' \<noteq> None \<and> is_finished_flag s'
      | (Inl _, s') \<Rightarrow> swap_params s' \<noteq> None)"

end
