(* ===== verification/Pczt_Invariant.thy ===== *)
theory Pczt_Invariant
  imports Pczt_Handlers
begin

text \<open>
  The invariant of a PCZT session.  It relates three parts of the state that the code keeps apart:
  what the parser has retained for signing, what the running hashers (and, once a section is
  closed, the digests) commit to, and what the review will show.  The transparent part is stated
  here in terms of the retained inputs and of the list of outputs absorbed so far; the shielded
  part in terms of the value sums.
\<close>

section \<open>Laws of the environment\<close>

text \<open>The documented behaviour the proofs rely on: the codecs and keys as before, a SHA-256 digest
  is 32 bytes, and the note functions of the crypto crate return errors and never panic.\<close>

definition hash_laws :: "env \<Rightarrow> bool" where
  "hash_laws E \<longleftrightarrow> (\<forall>x y. sha256_hash E x = Some y \<longrightarrow> length y = 32)"

definition note_laws :: "env \<Rightarrow> bool" where
  "note_laws E \<longleftrightarrow>
     (\<forall>k a v. clean (decipher_compact_value E k a v)) \<and> (\<forall>k a v. clean (decipher_value_with_ovk E k a v))
   \<and> (\<forall>pl a v b c. clean (case pl of OrchardPool \<Rightarrow> orchard_note_commitment_bytes E a v b c
                             | IronwoodPool \<Rightarrow> orchard_note_commitment_v3_bytes E a v b c))
   \<and> (\<forall>v r. clean (orchard_value_commitment_bytes E v r))
   \<and> (\<forall>pl k a v b c. clean (case pl of OrchardPool \<Rightarrow> orchard_spend_nullifier_bytes E k a v b c
                               | IronwoodPool \<Rightarrow> orchard_spend_nullifier_bytes_v3 E k a v b c))
   \<and> (\<forall>d. clean (diversify_hash_ledger E d)) \<and> (\<forall>k g. clean (orchard_pk_d E k g))"

definition env_laws :: "env \<Rightarrow> bool" where
  "env_laws E \<longleftrightarrow> codec_laws E \<and> hash_laws E \<and> key_laws E \<and> note_laws E"

lemma env_lawsD:
  "env_laws E \<Longrightarrow> codec_laws E" "env_laws E \<Longrightarrow> hash_laws E"
  "env_laws E \<Longrightarrow> key_laws E" "env_laws E \<Longrightarrow> note_laws E"
  by (simp_all add: env_laws_def)

text \<open>The request of the Exchange application, when there is one, lies within its buffers.\<close>

definition swap_ok :: "world \<Rightarrow> bool" where
  "swap_ok s \<longleftrightarrow> (case swap_params s of None \<Rightarrow> True | Some params \<Rightarrow> swap_params_wf params)"

section \<open>Phases of the state machine\<close>

definition active :: "pczt_parser_state \<Rightarrow> bool" where
  "active st \<longleftrightarrow> st \<noteq> WaitHeaderAndGlobal"

text \<open>The fixed-size fields of the current input, and its script, have been absorbed.\<close>

fun in_head :: "pczt_parser_state \<Rightarrow> bool" where
  "in_head WaitTransparentInputScript = True"
| "in_head (ProcessTransparentInputScript _ _) = True"
| "in_head WaitTransparentInputSighashType = True"
| "in_head WaitTransparentInputBip32Derivation = True"
| "in_head _ = False"

fun in_script :: "pczt_parser_state \<Rightarrow> bool" where
  "in_script WaitTransparentInputSighashType = True"
| "in_script WaitTransparentInputBip32Derivation = True"
| "in_script _ = False"

fun inputs_open :: "pczt_parser_state \<Rightarrow> bool" where
  "inputs_open WaitTransparentInputsCount = True"
| "inputs_open WaitTransparentInput = True"
| "inputs_open st = in_head st"

fun out_head :: "pczt_parser_state \<Rightarrow> bool" where
  "out_head WaitTransparentOutputScript = True"
| "out_head (ProcessTransparentOutputScript _ _) = True"
| "out_head WaitTransparentOutputBip32Derivation = True"
| "out_head _ = False"

fun out_script :: "pczt_parser_state \<Rightarrow> bool" where
  "out_script WaitTransparentOutputBip32Derivation = True"
| "out_script _ = False"

fun outputs_open :: "pczt_parser_state \<Rightarrow> bool" where
  "outputs_open TransparentInputsDone = True"
| "outputs_open WaitTransparentOutput = True"
| "outputs_open st = (inputs_open st \<or> out_head st)"

section \<open>Structure\<close>

fun script_ok :: "pczt_parser_state \<Rightarrow> bytes \<Rightarrow> bool" where
  "script_ok (ProcessTransparentInputScript n r) scr \<longleftrightarrow> 0 < r \<and> r \<le> n \<and> n = length scr"
| "script_ok (ProcessTransparentOutputScript n r) scr \<longleftrightarrow> 0 < r \<and> r \<le> n \<and> n = length scr"
| "script_ok _ _ \<longleftrightarrow> True"

fun field_ok :: "pczt_parser_state \<Rightarrow> bytes \<Rightarrow> bool" where
  "field_ok ProcessOrchardEncCiphertext f \<longleftrightarrow> length f < ORCHARD_ENC_CIPHERTEXT_SIZE"
| "field_ok ProcessIronwoodEncCiphertext f \<longleftrightarrow> length f < ORCHARD_ENC_CIPHERTEXT_SIZE"
| "field_ok ProcessOrchardOutCiphertext f \<longleftrightarrow> length f < ORCHARD_OUT_CIPHERTEXT_SIZE"
| "field_ok ProcessIronwoodOutCiphertext f \<longleftrightarrow> length f < ORCHARD_OUT_CIPHERTEXT_SIZE"
| "field_ok _ f \<longleftrightarrow> f = []"

definition action_ok :: "current_action_state \<Rightarrow> bool" where
  "action_ok c \<longleftrightarrow> length (ca_spend_recipient c) = 43 \<and> (\<forall>f. ca_fvk c = Some f \<longrightarrow> length f = 96)
     \<and> (\<forall>p. ca_path c = Some p \<longrightarrow> check_bip44_compliance p OnlyCoinType)"

definition struct_ok :: "pczt_parser \<Rightarrow> bool" where
  "struct_ok p \<longleftrightarrow> script_ok (pz_state p) (script_bytes p)
     \<and> field_ok (pz_state p) (pool_field_bytes p) \<and> action_ok (current_action p)"

section \<open>Transparent inputs\<close>

text \<open>A running hasher that has absorbed \<open>data\<close>, or the digest of \<open>data\<close> once it is closed.\<close>

definition digest_of :: "env \<Rightarrow> bool \<Rightarrow> blake2b_256 \<Rightarrow> bytes \<Rightarrow> bytes \<Rightarrow> bytes \<Rightarrow> bool" where
  "digest_of E running h d perso data \<longleftrightarrow>
     (if running then h = \<lparr> b_perso = perso, b_data = data, b_final = False \<rparr>
      else d = blake_of E perso data)"

definition ser_script :: "env \<Rightarrow> bytes \<Rightarrow> bytes" where
  "ser_script E scr = compact_size_write E (length scr) @ scr"

definition input_ok :: "transparent_input_record \<Rightarrow> bool" where
  "input_ok i \<longleftrightarrow> length (in_prevout i) = 36 \<and> length (in_amount i) = 8
     \<and> nat_of_le (in_amount i) \<le> MAX_MONEY \<and> output_script_is_regular (in_script_pubkey i)
     \<and> check_bip44_compliance (in_path i) OnlyCoinType"

definition input_counts_ok :: "pczt_parser \<Rightarrow> bool" where
  "input_counts_ok p \<longleftrightarrow>
     length (transparent_inputs p) = transparent_input_parsed_count p
     \<and> transparent_input_count p \<le> MAX_PCZT_TRANSPARENT_INPUTS_NUMBER
     \<and> (if pz_state p = WaitTransparentInputsCount
        then transparent_input_count p = 0 \<and> transparent_inputs p = []
        else if inputs_open (pz_state p)
        then transparent_input_parsed_count p < transparent_input_count p
        else transparent_input_parsed_count p = transparent_input_count p)"

definition current_input_ok :: "pczt_parser \<Rightarrow> bool" where
  "current_input_ok p \<longleftrightarrow>
     (in_head (pz_state p) \<longrightarrow> length (current_input_prevout p) = 36
        \<and> length (current_input_amount p) = 8 \<and> nat_of_le (current_input_amount p) \<le> MAX_MONEY)
   \<and> (in_script (pz_state p) \<longrightarrow> output_script_is_regular (current_input_script_pubkey p))"

definition input_total :: "transparent_input_record list \<Rightarrow> nat" where
  "input_total ins = (\<Sum>i\<leftarrow>ins. nat_of_le (in_amount i))"

definition prevouts_data :: "pczt_parser \<Rightarrow> bytes" where
  "prevouts_data p = concat (map in_prevout (transparent_inputs p))
     @ (if in_head (pz_state p) then current_input_prevout p else [])"

definition sequence_data :: "pczt_parser \<Rightarrow> bytes" where
  "sequence_data p = concat (map (\<lambda>i. u32_to_le_bytes (in_sequence i)) (transparent_inputs p))
     @ (if in_head (pz_state p) then u32_to_le_bytes (current_input_sequence p) else [])"

definition amounts_data :: "pczt_parser \<Rightarrow> bytes" where
  "amounts_data p = concat (map in_amount (transparent_inputs p))
     @ (if in_head (pz_state p) then current_input_amount p else [])"

definition scripts_data :: "env \<Rightarrow> pczt_parser \<Rightarrow> bytes" where
  "scripts_data E p = concat (map (\<lambda>i. ser_script E (in_script_pubkey i)) (transparent_inputs p))
     @ (if in_script (pz_state p) then ser_script E (current_input_script_pubkey p) else [])"

definition input_digests_ok :: "env \<Rightarrow> pczt_parser \<Rightarrow> hashers \<Rightarrow> tx_info \<Rightarrow> bool" where
  "input_digests_ok E p h t \<longleftrightarrow>
     digest_of E (inputs_open (pz_state p)) (prevouts_hasher h) (prevouts_hash t)
       ZCASH_PREVOUTS_HASH_PERSONALIZATION (prevouts_data p)
   \<and> digest_of E (inputs_open (pz_state p)) (sequence_hasher h) (sequence_hash t)
       ZCASH_SEQUENCE_HASH_PERSONALIZATION (sequence_data p)
   \<and> digest_of E (inputs_open (pz_state p)) (amounts_hasher h) (amounts_hash t)
       ZCASH_TRANSPARENT_AMOUNTS_HASH_PERSONALIZATION (amounts_data p)
   \<and> digest_of E (inputs_open (pz_state p)) (scripts_hasher h) (scripts_hash t)
       ZCASH_TRANSPARENT_SCRIPTS_HASH_PERSONALIZATION (scripts_data E p)"

definition inputs_ok :: "env \<Rightarrow> pczt_parser \<Rightarrow> hashers \<Rightarrow> tx_info \<Rightarrow> bool" where
  "inputs_ok E p h t \<longleftrightarrow>
     input_counts_ok p \<and> list_all input_ok (transparent_inputs p) \<and> current_input_ok p
   \<and> unat (total_amount t) = input_total (transparent_inputs p)
       + (if in_head (pz_state p) then nat_of_le (current_input_amount p) else 0)
   \<and> input_digests_ok E p h t"

section \<open>Transparent outputs\<close>

type_synonym raw_output = "u64 \<times> bytes"

definition ser_output :: "env \<Rightarrow> raw_output \<Rightarrow> bytes" where
  "ser_output E r = u64_to_le_bytes (fst r) @ ser_script E (snd r)"

text \<open>An output kept off the review: it pays to the hash of a key the device derives itself, on
  the change branch of the recorded account.\<close>

definition own_change :: "env \<Rightarrow> bytes \<Rightarrow> u32 option \<Rightarrow> bool" where
  "own_change E scr account \<longleftrightarrow> account \<noteq> None \<and> (\<exists>p key pk h.
     check_bip44_compliance p (Full True) \<and> derivation_account p = account
     \<and> extended_public_key_try_from E p = Inr key \<and> compressed_public_key key = Inr pk
     \<and> hash160 E pk = Inr h \<and> scr = p2pkh_script h)"

definition displays :: "env \<Rightarrow> u32 option \<Rightarrow> raw_output \<Rightarrow> tx_output \<Rightarrow> bool" where
  "displays E account r out \<longleftrightarrow>
     out_amount out = fst r \<and> from_output_script E (snd r) = Inr (out_address out)
     \<and> out_memo out = None \<and> (out_is_change out \<longrightarrow> own_change E (snd r) account)"

definition transparent_outs :: "tx_info \<Rightarrow> tx_output list" where
  "transparent_outs t = filter (\<lambda>out. out_pool out = PoolTransparent) (outputs t)"

definition shielded_outs :: "tx_info \<Rightarrow> tx_output list" where
  "shielded_outs t = filter (\<lambda>out. out_pool out = PoolOrchard) (outputs t)"

definition amount_sum :: "tx_output list \<Rightarrow> nat" where
  "amount_sum outs = (\<Sum>out\<leftarrow>outs. unat (out_amount out))"

definition output_counts_ok :: "raw_output list \<Rightarrow> pczt_parser \<Rightarrow> bool" where
  "output_counts_ok raws p \<longleftrightarrow>
     length raws = transparent_output_parsed_count p
     \<and> transparent_output_count p \<le> MAX_PCZT_TRANSPARENT_OUTPUTS_NUMBER
     \<and> list_all (\<lambda>r. unat (fst r) \<le> MAX_MONEY) raws
     \<and> (if inputs_open (pz_state p) \<or> pz_state p = TransparentInputsDone
        then raws = [] \<and> transparent_output_count p = 0 \<and> total_output_amount p = 0
        else if outputs_open (pz_state p)
        then transparent_output_parsed_count p < transparent_output_count p
        else transparent_output_parsed_count p = transparent_output_count p)"

definition outputs_data :: "env \<Rightarrow> raw_output list \<Rightarrow> pczt_parser \<Rightarrow> bytes" where
  "outputs_data E raws p = concat (map (ser_output E) raws)
     @ (if out_head (pz_state p) then u64_to_le_bytes (current_output_amount p) else [])
     @ (if out_script (pz_state p) then ser_script E (script_bytes p) else [])"

definition outputs_ok :: "env \<Rightarrow> raw_output list \<Rightarrow> pczt_parser \<Rightarrow> hashers \<Rightarrow> tx_info \<Rightarrow> bool" where
  "outputs_ok E raws p h t \<longleftrightarrow>
     output_counts_ok raws p
   \<and> (inputs_open (pz_state p) \<or> pz_state p = TransparentInputsDone \<longrightarrow>
        outputs t = [] \<and> \<not> is_change_found t)
   \<and> list_all2 (displays E (change_account t)) raws (transparent_outs t)
   \<and> (out_head (pz_state p) \<longrightarrow> unat (current_output_amount p) \<le> MAX_MONEY)
   \<and> (out_head (pz_state p) \<and> pz_state p \<noteq> WaitTransparentOutputScript \<longrightarrow> change_pk_hash t = None)
   \<and> unat (total_output_amount p) = amount_sum (transparent_outs t)
       + (if out_head (pz_state p) then unat (current_output_amount p) else 0)
   \<and> digest_of E (outputs_open (pz_state p)) (outputs_hasher h) (outputs_hash t)
       ZCASH_OUTPUTS_HASH_PERSONALIZATION (outputs_data E raws p)"

section \<open>Hidden change and shielded values\<close>

definition change_ok :: "tx_info \<Rightarrow> bool" where
  "change_ok t \<longleftrightarrow>
     length (filter out_is_change (outputs t)) \<le> (if is_change_found t then 1 else 0)
   \<and> (list_ex out_is_change (outputs t) \<longrightarrow> change_account t \<noteq> None)"

definition budget_ok :: "tx_info \<Rightarrow> bool" where
  "budget_ok t \<longleftrightarrow>
     length (shielded_outs t) \<le> displayed_shielded_outputs t + (if is_change_found t then 1 else 0)
   \<and> displayed_shielded_outputs t \<le> MAX_PCZT_SHIELDED_DISPLAYED_OUTPUTS_NUMBER
   \<and> retained_memo_bytes t \<le> MAX_RETAINED_MEMO_BYTES"

datatype phase = NotStarted | Opened | Closing | Closed

fun pool_phase :: "pool \<Rightarrow> pczt_parser_state \<Rightarrow> phase" where
  "pool_phase OrchardPool st =
     (if st = WaitOrchardTrailer then Closing
      else if st = OrchardActionsDone \<or> is_ironwood_state st then Closed
      else if is_orchard_state st then Opened else NotStarted)"
| "pool_phase IronwoodPool st =
     (if st = WaitIronwoodTrailer then Closing
      else if st = IronwoodActionsDone then Closed
      else if is_ironwood_state st then Opened else NotStarted)"

definition empty_view :: bundle_view where
  "empty_view = \<lparr> bn_count = 0, bn_parsed = 0, bn_records = [], bn_signed = 0, bn_real = 0,
     bn_sig_digest = None, bn_balance = 0, bn_spend_sum = 0, bn_output_sum = 0, bn_present = False \<rparr>"

fun max_actions :: "pool \<Rightarrow> nat" where
  "max_actions OrchardPool = MAX_PCZT_ORCHARD_ACTIONS_NUMBER"
| "max_actions IronwoodPool = MAX_PCZT_IRONWOOD_ACTIONS_NUMBER"

text \<open>The records of a bundle: the counters count them, and only real spends are ever marked.\<close>

definition records_ok :: "bundle_view \<Rightarrow> bool" where
  "records_ok v \<longleftrightarrow>
     length (bn_records v) = bn_parsed v
   \<and> bn_real v = length (filter sr_is_real_spend (bn_records v))
   \<and> bn_signed v = length (filter sr_signed (bn_records v))
   \<and> list_all (\<lambda>r. sr_signed r \<longrightarrow> sr_is_real_spend r) (bn_records v)
   \<and> list_all (\<lambda>r. check_bip44_compliance (sr_path r) OnlyCoinType) (bn_records v)"

definition view_ok :: "phase \<Rightarrow> pool \<Rightarrow> bundle_view \<Rightarrow> bool" where
  "view_ok ph pl v \<longleftrightarrow> records_ok v \<and> bn_count v \<le> max_actions pl \<and> (case ph of
       NotStarted \<Rightarrow> v = empty_view
     | Opened \<Rightarrow> bn_parsed v < bn_count v \<and> bn_balance v = 0 \<and> bn_present v
         \<and> bn_signed v = 0 \<and> bn_sig_digest v = None
     | Closing \<Rightarrow> bn_parsed v = bn_count v \<and> bn_count v \<noteq> 0 \<and> bn_balance v = 0 \<and> bn_present v
         \<and> bn_signed v = 0 \<and> bn_sig_digest v = None
     | Closed \<Rightarrow> bn_parsed v = bn_count v \<and> (bn_present v \<longleftrightarrow> bn_count v \<noteq> 0)
         \<and> bn_balance v = int (unat (bn_spend_sum v)) - int (unat (bn_output_sum v)))"

definition shielded_ok :: "pczt_parser \<Rightarrow> tx_info \<Rightarrow> bool" where
  "shielded_ok p t \<longleftrightarrow>
     (\<forall>pl. view_ok (pool_phase pl (pz_state p)) pl (view pl p))
   \<and> unat (orchard_output_value_sum p) + unat (ironwood_output_value_sum p) = amount_sum (shielded_outs t)
   \<and> (is_ironwood_state (pz_state p) \<longrightarrow> is_v6 t)
   \<and> (is_v6_tx p \<longleftrightarrow> has_ironwood_bundle p)"

section \<open>The approval\<close>

text \<open>The value that leaves the transaction as its fee.\<close>

definition session_fee :: "pczt_parser \<Rightarrow> tx_info \<Rightarrow> int" where
  "session_fee p t = int (unat (total_amount t)) + orchard_value_balance p + ironwood_value_balance p
     - int (unat (total_output_amount p))"

text \<open>The event that shows or checks the outputs of a transaction together with its fee and its
  validity window.\<close>

fun approves :: "event \<Rightarrow> tx_info \<Rightarrow> int \<Rightarrow> bool" where
  "approves (Reviewed outs fee transfer lock expiry ok) t f \<longleftrightarrow>
     ok \<and> outs = outputs t \<and> int (unat fee) = f \<and> lock = locktime t \<and> expiry = expiry_height t"
| "approves (SwapChecked outs fee) t f \<longleftrightarrow> outs = outputs t \<and> int (unat fee) = f"
| "approves (Signed _ _ _ _) t f \<longleftrightarrow> False"

text \<open>The last time the outputs of a transaction were shown to the user or compared with the request
  of the Exchange application.\<close>

fun is_review :: "event \<Rightarrow> bool" where
  "is_review (Signed _ _ _ _) = False"
| "is_review _ = True"

definition latest_review :: "event list \<Rightarrow> event option" where
  "latest_review evs = find is_review (rev evs)"

lemma latest_review_append [simp]:
  "latest_review (evs @ [ev]) = (if is_review ev then Some ev else latest_review evs)"
  by (simp add: latest_review_def)

definition parsed_all :: "pczt_parser \<Rightarrow> tx_info \<Rightarrow> bool" where
  "parsed_all p t \<longleftrightarrow> (if is_v6 t then pz_state p = IronwoodActionsDone else pz_state p = OrchardActionsDone)"

definition review_ok :: "world \<Rightarrow> bool" where
  "review_ok s \<longleftrightarrow>
     (outputs_reviewed (pczt_parser s) \<longrightarrow>
        parsed_all (pczt_parser s) (tx_info s)
        \<and> (\<exists>ev. latest_review (events s) = Some ev \<and> approves ev (tx_info s) (session_fee (pczt_parser s) (tx_info s))))
   \<and> (\<not> outputs_reviewed (pczt_parser s) \<longrightarrow> \<not> pczt_finished (pczt_parser s))
   \<and> (\<not> pczt_finished (pczt_parser s) \<longrightarrow>
        (\<forall>pl. bn_signed (view pl (pczt_parser s)) = 0 \<and> bn_sig_digest (view pl (pczt_parser s)) = None)
        \<and> list_all (\<lambda>i. \<not> in_signed i) (transparent_inputs (pczt_parser s)))"

section \<open>The invariant\<close>

definition pinv :: "env \<Rightarrow> world \<Rightarrow> bool" where
  "pinv E s \<longleftrightarrow>
     (if active (pz_state (pczt_parser s))
      then struct_ok (pczt_parser s)
         \<and> inputs_ok E (pczt_parser s) (hashers s) (tx_info s)
         \<and> (\<exists>raws. outputs_ok E raws (pczt_parser s) (hashers s) (tx_info s))
         \<and> change_ok (tx_info s) \<and> budget_ok (tx_info s) \<and> has_version (tx_info s)
         \<and> shielded_ok (pczt_parser s) (tx_info s)
         \<and> review_ok s
      else pczt_parser s = pczt_parser_new)"

text \<open>What no parsing step touches, even when it fails.\<close>

definition parse_frame :: "world \<Rightarrow> world \<Rightarrow> bool" where
  "parse_frame s s' \<longleftrightarrow>
     swap_params s' = swap_params s \<and> has_released_signature s' = has_released_signature s
   \<and> comm_data s' = comm_data s \<and> comm_out s' = comm_out s \<and> is_finished_flag s' = is_finished_flag s
   \<and> (\<exists>evs. events s' = events s @ evs \<and> (\<forall>ev \<in> set evs. \<forall>pl i d p. ev \<noteq> Signed pl i d p))"

definition step_post :: "env \<Rightarrow> world \<Rightarrow> unit \<Rightarrow> world \<Rightarrow> bool" where
  "step_post E s u s' \<longleftrightarrow> pinv E s' \<and> remaining_len s' < remaining_len s \<and> parse_frame s s'
     \<and> \<not> pczt_finished (pczt_parser s')"

definition step_fail :: "world \<Rightarrow> parser_error fault \<Rightarrow> world \<Rightarrow> bool" where
  "step_fail s e s' \<longleftrightarrow> just_fails e \<and> parse_frame s s'"

lemma parse_frame_refl [simp]: "parse_frame s s"
  by (simp add: parse_frame_def)

lemma parse_frame_upd [simp]:
  "parse_frame s (s'\<lparr> pczt_parser := p \<rparr>) = parse_frame s s'"
  "parse_frame s (s'\<lparr> tx_info := t \<rparr>) = parse_frame s s'"
  "parse_frame s (s'\<lparr> hashers := h \<rparr>) = parse_frame s s'"
  "parse_frame s (s'\<lparr> rd_pos := n \<rparr>) = parse_frame s s'"
  "parse_frame s (s'\<lparr> rd_buf := d \<rparr>) = parse_frame s s'"
  "parse_frame s (s'\<lparr> ticks := k \<rparr>) = parse_frame s s'"
  "parse_frame s (s'\<lparr> tx_signing_state := x \<rparr>) = parse_frame s s'"
  "parse_frame s (s'\<lparr> orchard_derivations := y \<rparr>) = parse_frame s s'"
  by (simp_all add: parse_frame_def)

lemma parse_frame_trans: "parse_frame s s' \<Longrightarrow> parse_frame s' s'' \<Longrightarrow> parse_frame s s''"
  unfolding parse_frame_def by fastforce

lemma step_fail_simps [simp]:
  "step_fail s (Fail x) s' \<longleftrightarrow> parse_frame s s'"
  "\<not> step_fail s Panic s'" "\<not> step_fail s Diverge s'"
  by (simp_all add: step_fail_def)

end
