(* ===== verification/Legacy.thy ===== *)
theory Legacy
  imports Keys
begin

text \<open>
  The parsers of the legacy protocol: \<open>src/src/parser/legacy/mod.rs\<close>, \<open>transparent.rs\<close>,
  \<open>sapling.rs\<close>, \<open>orchard.rs\<close> and \<open>output_parser.rs\<close>, with the transaction id and the input digests
  of \<open>src/src/parser/compute.rs\<close> and the hashing readers of \<open>src/src/parser.rs\<close>.  The parser runs in
  two modes: it digests a whole previous transaction to vouch for one of its outputs (a trusted input),
  or it reads the inputs of the transaction to sign, once for the review and once per signature.
  Log lines are dropped.
\<close>

section \<open>Services\<close>

text \<open>What only the legacy protocol uses: the reader of a transaction version, the value balance of the
  Sapling part, HMAC-SHA256 (truncated to the eight bytes of the caller's buffer), whether the device
  absorbs bytes into a SHA-256 context, and the trusted-input key in non-volatile storage.\<close>

datatype legacy_tx_version = ReadV4 | ReadV5 | ReadV6 | ReadOther

record legacy_env =
  tx_version_read :: "bytes \<Rightarrow> (legacy_tx_version \<times> nat) option"
  zat_balance_from_i64_le_bytes :: "bytes \<Rightarrow> int option"
  hmac_sha256 :: "bytes \<Rightarrow> bytes \<Rightarrow> bytes option"
  sha256_update_ok :: "bytes \<Rightarrow> bytes \<Rightarrow> bool"
  trusted_input_key :: "bytes option"

fun stored_version :: "legacy_tx_version \<Rightarrow> tx_version_t" where
  "stored_version ReadV4 = TxV4"
| "stored_version ReadV5 = TxV5"
| "stored_version _ = TxOtherVersion"

section \<open>Access to the state\<close>

definition mod_l :: "(legacy_parser \<Rightarrow> legacy_parser) \<Rightarrow> (world, 'e, unit) sm" where
  "mod_l f = modify (legacy_parser_update f)"

definition mod_lo :: "(legacy_output_parser \<Rightarrow> legacy_output_parser) \<Rightarrow> (world, 'e, unit) sm" where
  "mod_lo f = modify (legacy_output_parser_update f)"

definition mod_tr :: "(trusted_input_info \<Rightarrow> trusted_input_info) \<Rightarrow> (world, 'e, unit) sm" where
  "mod_tr f = modify (trusted_input_info_update f)"

definition get_l :: "(legacy_parser \<Rightarrow> 'a) \<Rightarrow> (world, 'e, 'a) sm" where
  "get_l f = gets (\<lambda>s. f (legacy_parser s))"

definition set_lg :: "legacy_parser_state \<Rightarrow> (world, 'e, unit) sm" where
  "set_lg st = mod_l (\<lambda>p. p\<lparr> lg_state := st \<rparr>)"

definition legacy_version :: "supported_tx_version papp" where
  "legacy_version = bnd (gets tx_info) (\<lambda>ti. lift_r (map_err_r Sw (supported_tx_version ti)))"

text \<open>The SHA-256 context of a version 4 transaction, updated directly or through its writer.\<close>

definition v4_absorb :: "legacy_env \<Rightarrow> parser_error \<Rightarrow> bytes \<Rightarrow> unit papp" where
  "v4_absorb L e bs = bnd (gets (\<lambda>s. v4_tx_hasher (hashers s))) (\<lambda>m.
     bnd (ensure (sha256_update_ok L m bs) e) (\<lambda>_. mod_h (\<lambda>h. h\<lparr> v4_tx_hasher := m @ bs \<rparr>)))"

definition v4_update :: "legacy_env \<Rightarrow> bytes \<Rightarrow> unit papp" where
  "v4_update L bs = v4_absorb L Hash_Err bs"

definition v4_write :: "legacy_env \<Rightarrow> bytes \<Rightarrow> unit papp" where
  "v4_write L bs = v4_absorb L Io bs"

text \<open>The three-way matches on the version: version 4 absorbs into its own context, versions 5 and 6 into
  the hasher of the field.\<close>

definition versioned_update :: "env \<Rightarrow> legacy_env \<Rightarrow> hasher_ref \<Rightarrow> bytes \<Rightarrow> unit papp" where
  "versioned_update E L r bs = bnd legacy_version (\<lambda>v.
     case v of SupV4 \<Rightarrow> v4_update L bs | _ \<Rightarrow> h_update E r bs)"

definition versioned_write :: "env \<Rightarrow> legacy_env \<Rightarrow> hasher_ref \<Rightarrow> bytes \<Rightarrow> unit papp" where
  "versioned_write E L r bs = bnd legacy_version (\<lambda>v.
     case v of SupV4 \<Rightarrow> v4_write L bs | _ \<Rightarrow> h_write E r bs)"

text \<open>\<open>Script::write\<close>: the size, then the script.\<close>

definition script_encoding :: "env \<Rightarrow> bytes \<Rightarrow> bytes" where
  "script_encoding E script = compact_size_write E (length script) @ script"

section \<open>Hashing readers\<close>

definition hash_reader_chunk :: "env \<Rightarrow> hasher_ref \<Rightarrow> nat \<Rightarrow> nat papp" where
  "hash_reader_chunk E r remaining_size =
     bnd (gets remaining_len) (\<lambda>n.
     let to_read = min remaining_size n in
     bnd (gets (\<lambda>s. take to_read (remaining_slice s))) (\<lambda>bs.
     bnd (h_update E r bs) (\<lambda>_.
     bnd (advance to_read) (\<lambda>_.
     ret (remaining_size - to_read)))))"

definition hash_reader_exact :: "env \<Rightarrow> hasher_ref \<Rightarrow> nat \<Rightarrow> string \<Rightarrow> unit papp" where
  "hash_reader_exact E r n msg =
     bnd (gets remaining_len) (\<lambda>k.
     bnd (ensure (\<not> k < n) (Custom msg)) (\<lambda>_.
     bnd (gets (\<lambda>s. take n (remaining_slice s))) (\<lambda>bs.
     bnd (h_update E r bs) (\<lambda>_.
     advance n))))"

section \<open>Digests\<close>

definition write_header_version :: "env \<Rightarrow> tx_info \<Rightarrow> blake2b_256 \<Rightarrow> bool \<Rightarrow> (parser_error, blake2b_256) res"
  where
  "write_header_version E ti h v6 =
     (if v6 then blake_updates E h [u32_to_le_bytes (V6_TX_VERSION OR OVERWINTERED_FLAG),
                                    u32_to_le_bytes V6_VERSION_GROUP_ID]
      else case tx_version ti of
          None \<Rightarrow> Inl Panic
        | Some version \<Rightarrow> blake_write E h (tx_version_write E version))"

definition tx_header_hash :: "env \<Rightarrow> tx_info \<Rightarrow> u32 \<Rightarrow> bool \<Rightarrow> (parser_error, bytes) res" where
  "tx_header_hash E ti branch v6 =
     rbind (init_with_perso E ZCASH_HEADERS_HASH_PERSONALIZATION) (\<lambda>h.
     rbind (write_header_version E ti h v6) (\<lambda>h.
     rbind (blake_updates E h [u32_to_le_bytes branch, u32_to_le_bytes (locktime ti),
              u32_to_le_bytes (expiry_height ti)]) (\<lambda>h.
     rbind (blake_finalize E h) (\<lambda>(d, _). Inr d))))"

definition tx_id_v5_v6 :: "env \<Rightarrow> u32 \<Rightarrow> bool \<Rightarrow> unit papp" where
  "tx_id_v5_v6 E branch v6 =
     bnd (finalize_and_log_hash E prevouts_h) (\<lambda>prevouts_hash.
     bnd (finalize_and_log_hash E sequence_h) (\<lambda>sequence_hash.
     bnd (finalize_and_log_hash E outputs_h) (\<lambda>outputs_hash.
     bnd (gets tx_info) (\<lambda>ti.
     bnd (lift_r (tx_header_hash E ti branch v6)) (\<lambda>header_hash.
     bnd (lift_r (blake_hash E ZCASH_TRANSPARENT_HASH_PERSONALIZATION
            [prevouts_hash, sequence_hash, outputs_hash])) (\<lambda>transparent_hash.
     bnd (finalize_and_log_hash E sapling_h) (\<lambda>sapling_hash.
     bnd (finalize_and_log_hash E orchard_h) (\<lambda>orchard_hash.
     bnd (lift_r (rbind (init_with_perso E (ZCASH_TX_PERSONALIZATION_PREFIX @ u32_to_le_bytes branch)) (\<lambda>h.
            blake_updates E h [header_hash, transparent_hash, sapling_hash, orchard_hash]))) (\<lambda>h.
     bnd (if v6 then bnd (finalize_and_log_hash E ironwood_h) (\<lambda>ironwood_hash.
                     lift_r (blake_update E h ironwood_hash))
          else ret h) (\<lambda>h.
     bnd (lift_r (blake_finalize E h)) (\<lambda>(d, _).
     mod_tr (\<lambda>t. t\<lparr> ti_tx_id := d \<rparr>))))))))))))"

definition tx_id :: "env \<Rightarrow> unit papp" where
  "tx_id E =
     bnd (gets tx_info) (\<lambda>ti.
     case branch_id ti of
       None \<Rightarrow> panic
     | Some branch \<Rightarrow>
         bnd legacy_version (\<lambda>version. case version of
           SupV4 \<Rightarrow>
             bnd (gets (\<lambda>s. v4_tx_hasher (hashers s))) (\<lambda>m.
             bnd (some_or (sha256_hash E m) Hash_Err) (\<lambda>first_round_hash.
             bnd (some_or (sha256_hash E first_round_hash) Hash_Err) (\<lambda>d.
             mod_tr (\<lambda>t. t\<lparr> ti_tx_id := d \<rparr>))))
         | v \<Rightarrow> tx_id_v5_v6 E branch (v = SupV6)))"

definition finalize_signature_input_hash :: "env \<Rightarrow> unit papp" where
  "finalize_signature_input_hash E =
     bnd (finalize_and_log_hash E prevouts_h) (\<lambda>d. bnd (mod_ti (\<lambda>t. t\<lparr> prevouts_hash := d \<rparr>)) (\<lambda>_.
     bnd (finalize_and_log_hash E sequence_h) (\<lambda>d. bnd (mod_ti (\<lambda>t. t\<lparr> sequence_hash := d \<rparr>)) (\<lambda>_.
     bnd (finalize_and_log_hash E amounts_h) (\<lambda>d. bnd (mod_ti (\<lambda>t. t\<lparr> amounts_hash := d \<rparr>)) (\<lambda>_.
     bnd (finalize_and_log_hash E scripts_h) (\<lambda>d. mod_ti (\<lambda>t. t\<lparr> scripts_hash := d \<rparr>))))))))"

end
