(* ===== verification/Legacy_Parser.thy ===== *)
theory Legacy_Parser
  imports Legacy
begin

text \<open>
  The states of the legacy parser, one definition per function of \<open>src/src/parser/legacy\<close>: the header,
  the transparent inputs and outputs, the Sapling part, the Orchard and Ironwood actions and the end of
  the transaction, and the loop that runs them over a packet.
\<close>

section \<open>Header\<close>

definition legacy_init_hashers :: "env \<Rightarrow> legacy_env \<Rightarrow> legacy_parser_mode \<Rightarrow> legacy_tx_version \<Rightarrow> bool \<Rightarrow> nat \<Rightarrow> unit papp"
  where
  "legacy_init_hashers E L mode version parsed_once input_count =
     (case (mode, version, parsed_once) of
        (TrustedInput, ReadV6, _) \<Rightarrow> seqs [
          init_v5_tx_hashers E,
          h_init E orchard_h ZCASH_ORCHARD_HASH_PERSONALIZATION_V6,
          mod_ti (\<lambda>t. t\<lparr> is_v6 := True \<rparr>)]
      | (TrustedInput, ReadV5, _) \<Rightarrow> init_v5_tx_hashers E
      | (Signature, ReadV5, False) \<Rightarrow> init_v5_tx_hashers E
      | (Signature, ReadV5, True) \<Rightarrow>
          when_do (input_count \<noteq> 0) (seqs [
            h_init E prevouts_h ZCASH_TRANSPARENT_INPUT_HASH_PERSONALIZATION,
            h_init E scripts_h ZCASH_TRANSPARENT_SCRIPTS_HASH_PERSONALIZATION])
      | (TrustedInput, ReadV4, _) \<Rightarrow>
          bnd (mod_h (\<lambda>h. h\<lparr> v4_tx_hasher := [] \<rparr>)) (\<lambda>_.
          catch_err (bnd (v4_write L (tx_version_write E TxV4)) (\<lambda>_.
                     v4_write L (compact_size_write E input_count))) (\<lambda>_. panic))
      | _ \<Rightarrow> throw (Custom ''Unsupported transaction version''))"

definition parse_legacy_header :: "env \<Rightarrow> legacy_env \<Rightarrow> unit papp" where
  "parse_legacy_header E L =
     bnd (read_ext (tx_version_read L)) (\<lambda>version.
     bnd read_u32_le (\<lambda>val.
     bnd (ensure (branch_id_known E val) (Custom ''Unknown consensus branch ID'')) (\<lambda>_.
     bnd (mod_ti (\<lambda>t. t\<lparr> tx_version := Some (stored_version version), branch_id := Some val \<rparr>)) (\<lambda>_.
     bnd (read_ext (compact_size_read E)) (\<lambda>input_count.
     bnd (get_l lg_mode) (\<lambda>mode.
     bnd (gets (\<lambda>s. is_tx_parsed_once (tx_signing_state s))) (\<lambda>parsed_once.
     bnd (legacy_init_hashers E L mode version parsed_once input_count) (\<lambda>_.
     bnd (mod_ti (\<lambda>t. t\<lparr> total_amount := 0 \<rparr>)) (\<lambda>_.
     bnd (mod_l (\<lambda>p. p\<lparr> lg_input_count := input_count \<rparr>)) (\<lambda>_.
     bnd (when_do (mode = Signature \<and> \<not> parsed_once)
            (mod_ss (\<lambda>t. t\<lparr> total_input_count := input_count \<rparr>))) (\<lambda>_.
     if input_count = 0 then
       (case (mode, parsed_once) of
          (Signature, False) \<Rightarrow>
            bnd (finalize_signature_input_hash E) (\<lambda>_. set_lg LgTransactionPresignReady)
        | (Signature, True) \<Rightarrow>
            bnd (get_l lg_output_count) (\<lambda>output_count.
            bnd (get_ti sighash_type) (\<lambda>sighash.
            bnd (compute_no_transparent_input_signature_digest E output_count sighash) (\<lambda>_.
            set_lg LgTransactionReadyToSign)))
        | _ \<Rightarrow> set_lg LgInputHashingDone)
     else set_lg LgWaitInput)))))))))))"

section \<open>Transparent part\<close>

definition TRUSTED_INPUT_SIZE :: nat where "TRUSTED_INPUT_SIZE = 2 + 2 + 32 + 4 + 8"
definition TRUSTED_INPUT_TOTAL_SIZE :: nat where "TRUSTED_INPUT_TOTAL_SIZE = TRUSTED_INPUT_SIZE + 8"
definition MAX_LEGACY_SHIELDED_COUNT :: nat where "MAX_LEGACY_SHIELDED_COUNT = 10000"

definition read_bounded_shielded_count :: "env \<Rightarrow> nat papp" where
  "read_bounded_shielded_count E =
     bnd (read_ext (compact_size_read E)) (\<lambda>n.
     bnd (ensure (\<not> n > MAX_LEGACY_SHIELDED_COUNT) (Custom ''Too many shielded components'')) (\<lambda>_. ret n))"

text \<open>The end of the functions that read a script size: a zeroed buffer and the state that fills it.\<close>

definition begin_script :: "(nat \<Rightarrow> nat \<Rightarrow> legacy_parser_state) \<Rightarrow> nat \<Rightarrow> unit papp" where
  "begin_script st script_size =
     bnd (set_lg (st script_size script_size)) (\<lambda>_.
     mod_l (\<lambda>p. p\<lparr> lg_script_bytes := zeros script_size \<rparr>))"

definition parse_legacy_input :: "env \<Rightarrow> legacy_env \<Rightarrow> unit papp" where
  "parse_legacy_input E L =
     bnd (read_ext (outpoint_read E)) (\<lambda>prevout.
     bnd (versioned_write E L prevouts_h (outpoint_write E prevout)) (\<lambda>_.
     bnd (read_ext (compact_size_read E)) (\<lambda>script_size.
     bnd (ensure (\<not> script_size > MAX_SCRIPT_SIZE) (Custom ''Bad input script size'')) (\<lambda>_.
     begin_script LgProcessInputScript script_size))))"

fun trusted_input_mode_ok :: "u8 \<Rightarrow> unit papp" where
  "trusted_input_mode_ok m =
     (if m = 0x01 then ret ()
      else if m = 0x02 then throw (Custom ''Untrusted input mode is not supported for signing'')
      else throw (Custom ''Unsupported trusted input mode''))"

text \<open>The check that the trusted input was issued by this device.\<close>

definition check_trusted_input :: "legacy_env \<Rightarrow> bytes \<Rightarrow> unit papp" where
  "check_trusted_input L trusted_input =
     bnd (some_or (trusted_input_key L) (Custom ''Trusted input key not set'')) (\<lambda>key.
     bnd (some_or (hmac_sha256 L key (take TRUSTED_INPUT_SIZE trusted_input)) Hmac) (\<lambda>computed_hmac.
     ensure (secure_memcmp computed_hmac (take 8 (drop TRUSTED_INPUT_SIZE trusted_input)))
       (Custom ''Trusted input HMAC mismatch'')))"

definition parse_input_signature_mode :: "env \<Rightarrow> legacy_env \<Rightarrow> unit papp" where
  "parse_input_signature_mode E L =
     bnd read_u8 (\<lambda>m.
     bnd (trusted_input_mode_ok m) (\<lambda>_.
     bnd read_u8 (\<lambda>trusted_input_len.
     bnd (ensure (unat trusted_input_len = TRUSTED_INPUT_TOTAL_SIZE) (Custom ''Invalid trusted input size'')) (\<lambda>_.
     bnd (gets remaining_len) (\<lambda>n.
     bnd (ensure (\<not> n < TRUSTED_INPUT_TOTAL_SIZE) (Custom ''Not enough data for trusted input'')) (\<lambda>_.
     bnd (gets (\<lambda>s. take TRUSTED_INPUT_TOTAL_SIZE (remaining_slice s))) (\<lambda>trusted_input.
     bnd (check_trusted_input L trusted_input) (\<lambda>_.
     bnd (read_exact 2) (\<lambda>magic.
     bnd (read_exact 2) (\<lambda>rand_bytes.
     bnd (read_ext (outpoint_read E)) (\<lambda>prevout.
     bnd (h_write E prevouts_h (outpoint_write E prevout)) (\<lambda>_.
     bnd (read_exact 8) (\<lambda>tmp.
     bnd (h_update E amounts_h tmp) (\<lambda>_.
     bnd (some_or (zatoshis_from_nonnegative_i64_le_bytes E tmp) Balance) (\<lambda>amount.
     bnd (mod_ti (\<lambda>t. t\<lparr> total_amount := u64_saturating_add (total_amount t) amount \<rparr>)) (\<lambda>_.
     bnd (read_exact 8) (\<lambda>hmac.
     bnd (read_ext (compact_size_read E)) (\<lambda>script_size.
     bnd (ensure (\<not> script_size > MAX_SCRIPT_SIZE) (Custom ''Bad input script size'')) (\<lambda>_.
     bnd (gets (\<lambda>s. is_tx_parsed_once (tx_signing_state s))) (\<lambda>parsed_once.
     bnd (when_do parsed_once (h_update E prevouts_h (u64_to_le_bytes amount))) (\<lambda>_.
     begin_script LgProcessInputScript script_size)))))))))))))))))))))"

text \<open>Reading into \<open>script_bytes[offset..][..remaining_size]\<close>, which panics out of range: what is left to
  read.\<close>

definition read_script_part :: "nat \<Rightarrow> nat \<Rightarrow> nat papp" where
  "read_script_part size1 remaining_size =
     bnd (get_l lg_script_bytes) (\<lambda>script.
     if size1 < remaining_size \<or> size1 > length script then panic
     else
       let offset = size1 - remaining_size in
       bnd (reader_read remaining_size) (\<lambda>bs.
       bnd (mod_l (\<lambda>p. p\<lparr> lg_script_bytes := take offset script @ bs @ drop (offset + length bs) script \<rparr>)) (\<lambda>_.
       ret (remaining_size - length bs))))"

definition take_script :: "nat \<Rightarrow> string \<Rightarrow> bytes papp" where
  "take_script size1 msg =
     bnd (get_l lg_script_bytes) (\<lambda>script.
     bnd (ensure (size1 = length script) (Custom msg)) (\<lambda>_.
     bnd (mod_l (\<lambda>p. p\<lparr> lg_script_bytes := [] \<rparr>)) (\<lambda>_. ret script)))"

definition finish_signature_inputs :: "env \<Rightarrow> bool \<Rightarrow> unit papp" where
  "finish_signature_inputs E parsed_once =
     (if parsed_once then
        bnd (finalize_and_log_hash E prevouts_h) (\<lambda>txin_sig_digest.
        bnd (get_ti sighash_type) (\<lambda>sighash.
        bnd (compute_transparent_input_signature_digest E txin_sig_digest sighash) (\<lambda>_.
        set_lg LgTransactionReadyToSign)))
      else
        bnd (finalize_signature_input_hash E) (\<lambda>_.
        bnd (set_lg LgTransactionPresignReady) (\<lambda>_.
        bnd (gets remaining_len) (\<lambda>n. advance n))))"

definition parse_legacy_input_script :: "env \<Rightarrow> legacy_env \<Rightarrow> nat \<Rightarrow> nat \<Rightarrow> unit papp" where
  "parse_legacy_input_script E L size1 remaining_size =
     bnd (read_script_part size1 remaining_size) (\<lambda>new_remaining_size.
     if new_remaining_size \<noteq> 0 then set_lg (LgProcessInputScript size1 new_remaining_size)
     else
       bnd (take_script size1 ''Bad input script len'') (\<lambda>script_sig.
       bnd (versioned_write E L scripts_h (script_encoding E script_sig)) (\<lambda>_.
       bnd (read_exact 4) (\<lambda>sequence_bytes.
       let sequence = u32_from_le_bytes sequence_bytes in
       bnd (versioned_update E L sequence_h (u32_to_le_bytes sequence)) (\<lambda>_.
       bnd (gets (\<lambda>s. is_tx_parsed_once (tx_signing_state s))) (\<lambda>parsed_once.
       bnd (when_do parsed_once
              (bnd (h_write E prevouts_h (script_encoding E script_sig)) (\<lambda>_.
               h_update E prevouts_h (u32_to_le_bytes sequence)))) (\<lambda>_.
       bnd (mod_l (\<lambda>p. p\<lparr> lg_input_parsed_count := usize_saturating_add (lg_input_parsed_count p) 1 \<rparr>)) (\<lambda>_.
       bnd (gets legacy_parser) (\<lambda>p.
       if lg_input_count p = lg_input_parsed_count p then
         (if lg_mode p = Signature then finish_signature_inputs E parsed_once
          else set_lg LgInputHashingDone)
       else set_lg LgWaitInput)))))))))"

definition parse_input_hashing_done :: "env \<Rightarrow> legacy_env \<Rightarrow> unit papp" where
  "parse_input_hashing_done E L =
     bnd (read_ext (compact_size_read E)) (\<lambda>output_count.
     bnd (bnd legacy_version (\<lambda>v. when_do (v = SupV4) (v4_write L (compact_size_write E output_count)))) (\<lambda>_.
     bnd (mod_l (\<lambda>p. p\<lparr> lg_output_count := output_count \<rparr>)) (\<lambda>_.
     set_lg LgWaitOutput)))"

definition parse_legacy_output :: "env \<Rightarrow> legacy_env \<Rightarrow> unit papp" where
  "parse_legacy_output E L =
     bnd (read_exact 8) (\<lambda>tmp.
     bnd (some_or (zatoshis_from_nonnegative_i64_le_bytes E tmp) Balance) (\<lambda>amount.
     bnd (gets (\<lambda>s. input_idx (trusted_input_info s))) (\<lambda>idx.
     bnd (some_or idx (Custom ''Trusted input index not set'')) (\<lambda>requested_idx.
     bnd (get_l lg_output_parsed_count) (\<lambda>parsed.
     bnd (when_do (requested_idx = word_of_nat parsed)
            (mod_tr (\<lambda>t. t\<lparr> ti_amount := amount, is_input_processed := True \<rparr>))) (\<lambda>_.
     bnd (versioned_update E L outputs_h (u64_to_le_bytes amount)) (\<lambda>_.
     bnd (read_ext (compact_size_read E)) (\<lambda>script_size.
     bnd (ensure (\<not> script_size > MAX_SCRIPT_SIZE) (Custom ''Bad output script size'')) (\<lambda>_.
     begin_script LgProcessOutputScript script_size)))))))))"

definition parse_legacy_output_script :: "env \<Rightarrow> legacy_env \<Rightarrow> nat \<Rightarrow> nat \<Rightarrow> unit papp" where
  "parse_legacy_output_script E L size1 remaining_size =
     bnd (read_script_part size1 remaining_size) (\<lambda>new_remaining_size.
     if new_remaining_size \<noteq> 0 then set_lg (LgProcessOutputScript size1 new_remaining_size)
     else
       bnd (take_script size1 ''Bad output script len'') (\<lambda>script_pubkey.
       bnd (versioned_write E L outputs_h (script_encoding E script_pubkey)) (\<lambda>_.
       bnd (mod_l (\<lambda>p. p\<lparr> lg_output_parsed_count := usize_saturating_add (lg_output_parsed_count p) 1 \<rparr>)) (\<lambda>_.
       bnd (gets legacy_parser) (\<lambda>p.
       set_lg (if lg_output_count p = lg_output_parsed_count p then LgOutputHashingDone else LgWaitOutput))))))"

section \<open>Sapling part\<close>

definition ZCASH_SAPLING_SPENDS_HASH_PERSONALIZATION :: bytes where
  "ZCASH_SAPLING_SPENDS_HASH_PERSONALIZATION = str_bytes ''ZTxIdSSpendsHash''"
definition ZCASH_SAPLING_SPENDS_COMPACT_HASH_PERSONALIZATION :: bytes where
  "ZCASH_SAPLING_SPENDS_COMPACT_HASH_PERSONALIZATION = str_bytes ''ZTxIdSSpendCHash''"
definition ZCASH_SAPLING_SPENDS_NONCOMPACT_HASH_PERSONALIZATION :: bytes where
  "ZCASH_SAPLING_SPENDS_NONCOMPACT_HASH_PERSONALIZATION = str_bytes ''ZTxIdSSpendNHash''"
definition ZCASH_SAPLING_OUTPUTS_HASH_PERSONALIZATION :: bytes where
  "ZCASH_SAPLING_OUTPUTS_HASH_PERSONALIZATION = str_bytes ''ZTxIdSOutputHash''"
definition ZCASH_SAPLING_OUTPUTS_COMPACT_HASH_PERSONALIZATION :: bytes where
  "ZCASH_SAPLING_OUTPUTS_COMPACT_HASH_PERSONALIZATION = str_bytes ''ZTxIdSOutC__Hash''"
definition ZCASH_SAPLING_OUTPUTS_MEMOS_HASH_PERSONALIZATION :: bytes where
  "ZCASH_SAPLING_OUTPUTS_MEMOS_HASH_PERSONALIZATION = str_bytes ''ZTxIdSOutM__Hash''"
definition ZCASH_SAPLING_OUTPUTS_NONCOMPACT_HASH_PERSONALIZATION :: bytes where
  "ZCASH_SAPLING_OUTPUTS_NONCOMPACT_HASH_PERSONALIZATION = str_bytes ''ZTxIdSOutN__Hash''"
definition ZCASH_SAPLING_SPENDS_NONCOMPACT_HASH_PERSONALIZATION_V6 :: bytes where
  "ZCASH_SAPLING_SPENDS_NONCOMPACT_HASH_PERSONALIZATION_V6 = str_bytes ''ZTxIdSSpendNH_v6''"

lemmas sapling_perso_defs = ZCASH_SAPLING_SPENDS_HASH_PERSONALIZATION_def ZCASH_SAPLING_SPENDS_COMPACT_HASH_PERSONALIZATION_def ZCASH_SAPLING_SPENDS_NONCOMPACT_HASH_PERSONALIZATION_def ZCASH_SAPLING_OUTPUTS_HASH_PERSONALIZATION_def ZCASH_SAPLING_OUTPUTS_COMPACT_HASH_PERSONALIZATION_def ZCASH_SAPLING_OUTPUTS_MEMOS_HASH_PERSONALIZATION_def ZCASH_SAPLING_OUTPUTS_NONCOMPACT_HASH_PERSONALIZATION_def ZCASH_SAPLING_SPENDS_NONCOMPACT_HASH_PERSONALIZATION_V6_def

lemma sapling_perso_lengths [simp]:
  "length ZCASH_SAPLING_SPENDS_HASH_PERSONALIZATION = 16"
  "length ZCASH_SAPLING_SPENDS_COMPACT_HASH_PERSONALIZATION = 16"
  "length ZCASH_SAPLING_SPENDS_NONCOMPACT_HASH_PERSONALIZATION = 16"
  "length ZCASH_SAPLING_OUTPUTS_HASH_PERSONALIZATION = 16"
  "length ZCASH_SAPLING_OUTPUTS_COMPACT_HASH_PERSONALIZATION = 16"
  "length ZCASH_SAPLING_OUTPUTS_MEMOS_HASH_PERSONALIZATION = 16"
  "length ZCASH_SAPLING_OUTPUTS_NONCOMPACT_HASH_PERSONALIZATION = 16"
  "length ZCASH_SAPLING_SPENDS_NONCOMPACT_HASH_PERSONALIZATION_V6 = 16"
  by (simp_all add: sapling_perso_defs str_bytes_def)

definition SAPLING_OUTPUTS_COMPACT_SIZE :: nat where "SAPLING_OUTPUTS_COMPACT_SIZE = 32 + 32 + 52"
definition SAPLING_OUTPUTS_NONCOMPACT_SIZE :: nat where "SAPLING_OUTPUTS_NONCOMPACT_SIZE = 32 + 16 + 80"
definition SAPLING_MEMO_SIZE :: nat where "SAPLING_MEMO_SIZE = 512"

section \<open>Actions\<close>

definition ORCHARD_ACTIONS_COMPACT_SIZE :: nat where "ORCHARD_ACTIONS_COMPACT_SIZE = 32 + 32 + 32 + 52"
definition ORCHARD_ACTIONS_NONCOMPACT_SIZE :: nat where "ORCHARD_ACTIONS_NONCOMPACT_SIZE = 32 + 32 + 16 + 80"
definition ACTIONS_DIGEST_DATA_SIZE :: nat where "ACTIONS_DIGEST_DATA_SIZE = 1 + 8"
definition ACTIONS_DIGEST_DATA_SIZE_V5 :: nat where
  "ACTIONS_DIGEST_DATA_SIZE_V5 = ACTIONS_DIGEST_DATA_SIZE + 32"
definition LEGACY_MEMO_SIZE :: nat where "LEGACY_MEMO_SIZE = 512"

fun compact_personalization :: "action_bundle \<Rightarrow> bytes" where
  "compact_personalization BundleOrchard = ZCASH_ORCHARD_ACTIONS_COMPACT_HASH_PERSONALIZATION"
| "compact_personalization BundleIronwood = ZCASH_IRONWOOD_ACTIONS_COMPACT_HASH_PERSONALIZATION"

fun memos_personalization :: "action_bundle \<Rightarrow> bytes" where
  "memos_personalization BundleOrchard = ZCASH_ORCHARD_ACTIONS_MEMOS_HASH_PERSONALIZATION"
| "memos_personalization BundleIronwood = ZCASH_IRONWOOD_ACTIONS_MEMOS_HASH_PERSONALIZATION"

fun noncompact_personalization :: "action_bundle \<Rightarrow> bytes" where
  "noncompact_personalization BundleOrchard = ZCASH_ORCHARD_ACTIONS_NONCOMPACT_HASH_PERSONALIZATION"
| "noncompact_personalization BundleIronwood = ZCASH_IRONWOOD_ACTIONS_NONCOMPACT_HASH_PERSONALIZATION"

fun bundle_hasher :: "action_bundle \<Rightarrow> hasher_ref" where
  "bundle_hasher BundleOrchard = orchard_h"
| "bundle_hasher BundleIronwood = ironwood_h"

fun action_count :: "action_bundle \<Rightarrow> legacy_parser \<Rightarrow> nat" where
  "action_count BundleOrchard p = lg_orchard_action_count p"
| "action_count BundleIronwood p = lg_ironwood_action_count p"

definition next_action_bundle :: "action_bundle option \<Rightarrow> legacy_parser \<Rightarrow> action_bundle option" where
  "next_action_bundle current p =
     (if current = None \<and> lg_orchard_action_count p > 0 then Some BundleOrchard
      else if (current = None \<or> current = Some BundleOrchard) \<and> lg_ironwood_action_count p > 0
      then Some BundleIronwood else None)"

definition enter_next_action_bundle :: "env \<Rightarrow> action_bundle option \<Rightarrow> unit papp" where
  "enter_next_action_bundle E current =
     bnd (gets (\<lambda>s. next_action_bundle current (legacy_parser s))) (\<lambda>next_bundle. case next_bundle of
       Some bundle \<Rightarrow> seqs [
         h_init E tx_compact_h (compact_personalization bundle),
         mod_l (\<lambda>p. p\<lparr> lg_action_parsed_count := 0 \<rparr>),
         set_lg (LgProcessActionsCompact bundle)]
     | None \<Rightarrow> set_lg LgProcessExtra)"

definition parse_actions_compact :: "env \<Rightarrow> action_bundle \<Rightarrow> unit papp" where
  "parse_actions_compact E bundle =
     bnd (hash_reader_exact E tx_compact_h ORCHARD_ACTIONS_COMPACT_SIZE
            ''Not enough data for shielded compact action'') (\<lambda>_.
     bnd (mod_l (\<lambda>p. p\<lparr> lg_action_parsed_count := lg_action_parsed_count p + 1 \<rparr>)) (\<lambda>_.
     bnd (gets legacy_parser) (\<lambda>p.
     when_do (lg_action_parsed_count p = action_count bundle p)
       (bnd (h_init E tx_memo_h (memos_personalization bundle)) (\<lambda>_.
        let memos_size = action_count bundle p * LEGACY_MEMO_SIZE in
        bnd (ensure (memos_size \<le> USIZE_MAX) (Custom ''Action count overflows the memo section size'')) (\<lambda>_.
        set_lg (LgProcessActionsMemo bundle memos_size memos_size)))))))"

definition parse_actions_memo :: "env \<Rightarrow> action_bundle \<Rightarrow> nat \<Rightarrow> nat \<Rightarrow> unit papp" where
  "parse_actions_memo E bundle size1 remaining_size =
     bnd (hash_reader_chunk E tx_memo_h remaining_size) (\<lambda>new_remaining_size.
     if new_remaining_size = 0 then seqs [
       h_init E tx_non_compact_h (noncompact_personalization bundle),
       mod_l (\<lambda>p. p\<lparr> lg_action_parsed_count := 0 \<rparr>),
       set_lg (LgProcessActionsNonCompact bundle)]
     else set_lg (LgProcessActionsMemo bundle size1 new_remaining_size))"

definition parse_actions_noncompact :: "env \<Rightarrow> action_bundle \<Rightarrow> unit papp" where
  "parse_actions_noncompact E bundle =
     bnd (hash_reader_exact E tx_non_compact_h ORCHARD_ACTIONS_NONCOMPACT_SIZE
            ''Not enough data for shielded non-compact action'') (\<lambda>_.
     bnd (mod_l (\<lambda>p. p\<lparr> lg_action_parsed_count := lg_action_parsed_count p + 1 \<rparr>)) (\<lambda>_.
     bnd (gets legacy_parser) (\<lambda>p.
     when_do (lg_action_parsed_count p = action_count bundle p) (set_lg (LgProcessActionsHashing bundle)))))"

definition parse_actions_hashing :: "env \<Rightarrow> action_bundle \<Rightarrow> unit papp" where
  "parse_actions_hashing E bundle =
     bnd (finalize_and_log_hash E tx_compact_h) (\<lambda>compact_digest.
     bnd (finalize_and_log_hash E tx_memo_h) (\<lambda>memo_digest.
     bnd (finalize_and_log_hash E tx_non_compact_h) (\<lambda>non_compact_digest.
     bnd legacy_version (\<lambda>v.
     let digest_data_size = (if v = SupV6 then ACTIONS_DIGEST_DATA_SIZE else ACTIONS_DIGEST_DATA_SIZE_V5) in
     seqs [
       h_update E (bundle_hasher bundle) compact_digest,
       h_update E (bundle_hasher bundle) memo_digest,
       h_update E (bundle_hasher bundle) non_compact_digest,
       hash_reader_exact E (bundle_hasher bundle) digest_data_size
         ''Not enough data for shielded digest data'',
       enter_next_action_bundle E (Some bundle)]))))"

section \<open>Shielded counts and the Sapling states\<close>

definition parse_output_hashing_done :: "env \<Rightarrow> unit papp" where
  "parse_output_hashing_done E =
     bnd (read_bounded_shielded_count E) (\<lambda>n. bnd (mod_l (\<lambda>p. p\<lparr> lg_sapling_spend_count := n \<rparr>)) (\<lambda>_.
     bnd (read_bounded_shielded_count E) (\<lambda>n. bnd (mod_l (\<lambda>p. p\<lparr> lg_sapling_output_count := n \<rparr>)) (\<lambda>_.
     bnd (read_bounded_shielded_count E) (\<lambda>n. bnd (mod_l (\<lambda>p. p\<lparr> lg_orchard_action_count := n \<rparr>)) (\<lambda>_.
     bnd legacy_version (\<lambda>v.
     bnd (when_do (v = SupV6) (bnd (read_bounded_shielded_count E) (\<lambda>n.
            mod_l (\<lambda>p. p\<lparr> lg_ironwood_action_count := n \<rparr>)))) (\<lambda>_.
     bnd (gets legacy_parser) (\<lambda>p.
     bnd (ensure (\<not> (v = SupV4 \<and> (lg_sapling_spend_count p > 0 \<or> lg_sapling_output_count p > 0
              \<or> lg_orchard_action_count p > 0)))
            (Custom ''V4 transaction with shielded components is not supported'')) (\<lambda>_.
     if lg_sapling_spend_count p > 0 \<or> lg_sapling_output_count p > 0 then set_lg LgProcessSapling
     else enter_next_action_bundle E None))))))))))"

definition parse_sapling :: "env \<Rightarrow> legacy_env \<Rightarrow> unit papp" where
  "parse_sapling E L =
     bnd (read_exact 8) (\<lambda>tmp.
     bnd (some_or (zat_balance_from_i64_le_bytes L tmp) Balance) (\<lambda>balance.
     bnd (mod_l (\<lambda>p. p\<lparr> lg_sapling_balance := balance \<rparr>)) (\<lambda>_.
     bnd (gets legacy_parser) (\<lambda>p.
     if lg_sapling_spend_count p > 0 then
       bnd legacy_version (\<lambda>v.
       bnd (if v = SupV6 then ret (None, ZCASH_SAPLING_SPENDS_NONCOMPACT_HASH_PERSONALIZATION_V6)
            else bnd (read_exact 32) (\<lambda>anchor.
                 ret (Some anchor, ZCASH_SAPLING_SPENDS_NONCOMPACT_HASH_PERSONALIZATION)))
         (\<lambda>(anchor, non_compact_personalization). seqs [
         h_init E tx_compact_h ZCASH_SAPLING_SPENDS_COMPACT_HASH_PERSONALIZATION,
         h_init E tx_non_compact_h non_compact_personalization,
         set_lg (LgProcessSaplingSpends anchor)]))
     else if lg_sapling_output_count p > 0 then
       bnd (lift_r (blake_hash E ZCASH_SAPLING_SPENDS_HASH_PERSONALIZATION [])) (\<lambda>sapling_spend. seqs [
         h_update E sapling_h sapling_spend,
         h_init E tx_compact_h ZCASH_SAPLING_OUTPUTS_COMPACT_HASH_PERSONALIZATION,
         set_lg LgProcessSaplingOutputsCompact])
     else set_lg LgProcessExtra))))"

definition parse_sapling_spends :: "env \<Rightarrow> bytes option \<Rightarrow> unit papp" where
  "parse_sapling_spends E anchor =
     bnd (read_exact 32) (\<lambda>cv.
     bnd (h_update E tx_non_compact_h cv) (\<lambda>_.
     bnd (case anchor of Some a \<Rightarrow> h_update E tx_non_compact_h a | None \<Rightarrow> ret ()) (\<lambda>_.
     bnd (read_exact 32) (\<lambda>nullifier.
     bnd (h_update E tx_compact_h nullifier) (\<lambda>_.
     bnd (read_exact 32) (\<lambda>rk.
     bnd (h_update E tx_non_compact_h rk) (\<lambda>_.
     bnd (mod_l (\<lambda>p. p\<lparr> lg_sapling_spend_parsed_count := lg_sapling_spend_parsed_count p + 1 \<rparr>)) (\<lambda>_.
     bnd (gets legacy_parser) (\<lambda>p.
     when_do (lg_sapling_spend_count p = lg_sapling_spend_parsed_count p)
       (set_lg LgProcessSaplingSpendsHashing))))))))))"

definition finish_sapling :: "env \<Rightarrow> bytes \<Rightarrow> unit papp" where
  "finish_sapling E sapling_output_digest =
     bnd (h_update E sapling_h sapling_output_digest) (\<lambda>_.
     bnd (get_l lg_sapling_balance) (\<lambda>balance.
     bnd (h_update E sapling_h (i64_to_le_bytes balance)) (\<lambda>_.
     enter_next_action_bundle E None)))"

definition parse_sapling_spends_hashing :: "env \<Rightarrow> unit papp" where
  "parse_sapling_spends_hashing E =
     bnd (finalize_and_log_hash E tx_compact_h) (\<lambda>compact_digest.
     bnd (finalize_and_log_hash E tx_non_compact_h) (\<lambda>non_compact_digest.
     bnd (lift_r (blake_hash E ZCASH_SAPLING_SPENDS_HASH_PERSONALIZATION
            [compact_digest, non_compact_digest])) (\<lambda>sapling_spend.
     bnd (h_update E sapling_h sapling_spend) (\<lambda>_.
     bnd (get_l lg_sapling_output_count) (\<lambda>n.
     if n > 0 then
       bnd (h_init E tx_compact_h ZCASH_SAPLING_OUTPUTS_COMPACT_HASH_PERSONALIZATION) (\<lambda>_.
       set_lg LgProcessSaplingOutputsCompact)
     else
       bnd (lift_r (blake_hash E ZCASH_SAPLING_OUTPUTS_HASH_PERSONALIZATION [])) (\<lambda>sapling_output.
       finish_sapling E sapling_output))))))"

definition parse_sapling_outputs_compact :: "env \<Rightarrow> unit papp" where
  "parse_sapling_outputs_compact E =
     bnd (hash_reader_exact E tx_compact_h SAPLING_OUTPUTS_COMPACT_SIZE
            ''Not enough data for sapling compact output'') (\<lambda>_.
     bnd (mod_l (\<lambda>p. p\<lparr> lg_sapling_output_parsed_count := lg_sapling_output_parsed_count p + 1 \<rparr>)) (\<lambda>_.
     bnd (gets legacy_parser) (\<lambda>p.
     when_do (lg_sapling_output_count p = lg_sapling_output_parsed_count p)
       (bnd (h_init E tx_memo_h ZCASH_SAPLING_OUTPUTS_MEMOS_HASH_PERSONALIZATION) (\<lambda>_.
        set_lg (LgProcessSaplingOutputsMemo (lg_sapling_output_count p * SAPLING_MEMO_SIZE)
                  (lg_sapling_output_count p * SAPLING_MEMO_SIZE)))))))"

definition parse_sapling_outputs_memo :: "env \<Rightarrow> nat \<Rightarrow> nat \<Rightarrow> unit papp" where
  "parse_sapling_outputs_memo E size1 remaining_size =
     bnd (hash_reader_chunk E tx_memo_h remaining_size) (\<lambda>new_remaining_size.
     if new_remaining_size = 0 then seqs [
       h_init E tx_non_compact_h ZCASH_SAPLING_OUTPUTS_NONCOMPACT_HASH_PERSONALIZATION,
       mod_l (\<lambda>p. p\<lparr> lg_sapling_output_parsed_count := 0 \<rparr>),
       set_lg LgProcessSaplingOutputsNonCompact]
     else set_lg (LgProcessSaplingOutputsMemo size1 new_remaining_size))"

definition parse_sapling_outputs_non_compact :: "env \<Rightarrow> unit papp" where
  "parse_sapling_outputs_non_compact E =
     bnd (hash_reader_exact E tx_non_compact_h SAPLING_OUTPUTS_NONCOMPACT_SIZE
            ''Not enough data for sapling non compact output'') (\<lambda>_.
     bnd (mod_l (\<lambda>p. p\<lparr> lg_sapling_output_parsed_count := lg_sapling_output_parsed_count p + 1 \<rparr>)) (\<lambda>_.
     bnd (gets legacy_parser) (\<lambda>p.
     when_do (lg_sapling_output_count p = lg_sapling_output_parsed_count p)
       (set_lg LgProcessSaplingOutputHashing))))"

definition parse_sapling_output_hashing :: "env \<Rightarrow> unit papp" where
  "parse_sapling_output_hashing E =
     bnd (finalize_and_log_hash E tx_compact_h) (\<lambda>compact_digest.
     bnd (finalize_and_log_hash E tx_memo_h) (\<lambda>memo_digest.
     bnd (finalize_and_log_hash E tx_non_compact_h) (\<lambda>non_compact_digest.
     bnd (lift_r (blake_hash E ZCASH_SAPLING_OUTPUTS_HASH_PERSONALIZATION
            [compact_digest, memo_digest, non_compact_digest])) (\<lambda>sapling_output.
     finish_sapling E sapling_output))))"

section \<open>End of the transaction\<close>

definition parse_process_extra :: "env \<Rightarrow> legacy_env \<Rightarrow> unit papp" where
  "parse_process_extra E L =
     bnd read_u32_le (\<lambda>lock.
     bnd (mod_ti (\<lambda>t. t\<lparr> locktime := lock \<rparr>)) (\<lambda>_.
     bnd (read_ext (compact_size_read E)) (\<lambda>extra_data_len.
     bnd (gets remaining_len) (\<lambda>n.
     bnd (ensure (extra_data_len = n) (Custom ''Invalid extra data length'')) (\<lambda>_.
     bnd read_u32_le (\<lambda>expiry.
     bnd (mod_ti (\<lambda>t. t\<lparr> expiry_height := expiry \<rparr>)) (\<lambda>_.
     bnd legacy_version (\<lambda>v.
     bnd (when_do (v = SupV4)
            (bnd (gets remaining_slice) (\<lambda>rest. seqs [
               v4_update L (u32_to_le_bytes lock),
               v4_update L (u32_to_le_bytes expiry),
               v4_update L rest]))) (\<lambda>_.
     bnd (set_lg LgTransactionParsed) (\<lambda>_.
     tx_id E))))))))))"

section \<open>The loop\<close>

definition lg_is_finished :: "legacy_parser \<Rightarrow> bool" where
  "lg_is_finished p \<longleftrightarrow> lg_state p = LgTransactionParsed"

definition is_presign_ready :: "legacy_parser \<Rightarrow> bool" where
  "is_presign_ready p \<longleftrightarrow> lg_state p = LgTransactionPresignReady"

definition lg_is_ready_to_sign :: "legacy_parser \<Rightarrow> bool" where
  "lg_is_ready_to_sign p \<longleftrightarrow> lg_state p = LgTransactionReadyToSign"

text \<open>The three final states leave the loop whatever the packet still holds.\<close>

definition lg_final :: "legacy_parser \<Rightarrow> bool" where
  "lg_final p \<longleftrightarrow> lg_is_finished p \<or> is_presign_ready p \<or> lg_is_ready_to_sign p"

definition legacy_step :: "env \<Rightarrow> legacy_env \<Rightarrow> unit papp" where
  "legacy_step E L = bnd (gets legacy_parser) (\<lambda>p. case lg_state p of
       LgNone \<Rightarrow> parse_legacy_header E L
     | LgWaitInput \<Rightarrow>
         if lg_mode p = Signature then parse_input_signature_mode E L else parse_legacy_input E L
     | LgProcessInputScript size1 remaining_size \<Rightarrow> parse_legacy_input_script E L size1 remaining_size
     | LgInputHashingDone \<Rightarrow> parse_input_hashing_done E L
     | LgWaitOutput \<Rightarrow> parse_legacy_output E L
     | LgProcessOutputScript size1 remaining_size \<Rightarrow> parse_legacy_output_script E L size1 remaining_size
     | LgOutputHashingDone \<Rightarrow> parse_output_hashing_done E
     | LgProcessSapling \<Rightarrow> parse_sapling E L
     | LgProcessSaplingSpends anchor \<Rightarrow> parse_sapling_spends E anchor
     | LgProcessSaplingSpendsHashing \<Rightarrow> parse_sapling_spends_hashing E
     | LgProcessSaplingOutputsCompact \<Rightarrow> parse_sapling_outputs_compact E
     | LgProcessSaplingOutputsMemo size1 remaining_size \<Rightarrow>
         parse_sapling_outputs_memo E size1 remaining_size
     | LgProcessSaplingOutputsNonCompact \<Rightarrow> parse_sapling_outputs_non_compact E
     | LgProcessSaplingOutputHashing \<Rightarrow> parse_sapling_output_hashing E
     | LgProcessActionsCompact bundle \<Rightarrow> parse_actions_compact E bundle
     | LgProcessActionsMemo bundle size1 remaining_size \<Rightarrow>
         parse_actions_memo E bundle size1 remaining_size
     | LgProcessActionsNonCompact bundle \<Rightarrow> parse_actions_noncompact E bundle
     | LgProcessActionsHashing bundle \<Rightarrow> parse_actions_hashing E bundle
     | LgProcessExtra \<Rightarrow> parse_process_extra E L
     | _ \<Rightarrow> ret ())"

text \<open>Three states consume nothing, each followed by one that does, so twice the packet is fuel enough.\<close>

definition legacy_parse :: "env \<Rightarrow> legacy_env \<Rightarrow> bytes \<Rightarrow> unit papp" where
  "legacy_parse E L data =
     bnd (reader_new data) (\<lambda>_.
     while_sm (2 * length data + 2) (\<lambda>s. remaining_len s > 0 \<and> \<not> lg_final (legacy_parser s)) (legacy_step E L))"

end
