(* ===== verification/Legacy_Output.thy ===== *)
theory Legacy_Output
  imports Legacy_Parser
begin

text \<open>
  The outputs of the transaction the legacy protocol signs: \<open>src/src/parser/legacy/output_parser.rs\<close>.
\<close>

definition set_lo :: "legacy_output_parser_state \<Rightarrow> (world, 'e, unit) sm" where
  "set_lo st = mod_lo (\<lambda>p. p\<lparr> lo_state := st \<rparr>)"

definition lo_is_finished :: "legacy_output_parser \<Rightarrow> bool" where
  "lo_is_finished p \<longleftrightarrow> lo_state p = LoOutputProcessingDone"

definition finalize_outputs :: "env \<Rightarrow> unit papp" where
  "finalize_outputs E =
     bnd (gets tx_info) (\<lambda>ti.
     bnd (ensure (outputs ti \<noteq> []) (Custom ''No transparent outputs to display'')) (\<lambda>_.
     bnd (gets (\<lambda>s. lo_total_output_amount (legacy_output_parser s))) (\<lambda>total_output.
     bnd (some_or (u64_checked_sub (total_amount ti) total_output) (Custom ''Failed to calculate fees'')) (\<lambda>fee.
     bnd (gets swap_params) (\<lambda>swap.
     bnd (case swap of
            Some params \<Rightarrow>
              bnd (lift_r (check_swap_params params (outputs ti) fee)) (\<lambda>_.
              log_event (SwapChecked (outputs ti) fee))
          | None \<Rightarrow>
              bnd (when_do (\<not> list_ex (\<lambda>out. \<not> out_is_change out) (outputs ti))
                     (mod_ti (\<lambda>t. t\<lparr> outputs := map (\<lambda>out. out\<lparr> out_is_change := False \<rparr>) (outputs t) \<rparr>))) (\<lambda>_.
              mod_ti (\<lambda>t. t\<lparr> fees := fee \<rparr>))) (\<lambda>_.
     bnd (finalize_and_log_hash E outputs_h) (\<lambda>d.
     mod_ti (\<lambda>t. t\<lparr> outputs_hash := d \<rparr>))))))))"

definition lo_number_of_outputs :: "env \<Rightarrow> unit papp" where
  "lo_number_of_outputs E =
     bnd (read_ext (compact_size_read E)) (\<lambda>output_count.
     bnd (ensure (\<not> output_count > MAX_OUTPUTS_NUMBER) (Custom ''Too many outputs'')) (\<lambda>_.
     bnd (h_init E outputs_h ZCASH_OUTPUTS_HASH_PERSONALIZATION) (\<lambda>_.
     bnd (mod_lo (\<lambda>p. p\<lparr> lo_output_count := output_count \<rparr>)) (\<lambda>_.
     set_lo LoParsingOutput))))"

definition lo_parse_output :: "env \<Rightarrow> unit papp" where
  "lo_parse_output E =
     bnd (read_exact 8) (\<lambda>tmp.
     bnd (some_or (zatoshis_from_nonnegative_i64_le_bytes E tmp) Balance) (\<lambda>amount.
     bnd (h_update E outputs_h (u64_to_le_bytes amount)) (\<lambda>_.
     bnd (mod_lo (\<lambda>p. p\<lparr> lo_current_output_amount := amount,
            lo_total_output_amount := u64_saturating_add (lo_total_output_amount p) amount \<rparr>)) (\<lambda>_.
     bnd (read_ext (compact_size_read E)) (\<lambda>script_size.
     bnd (ensure (\<not> script_size > MAX_SCRIPT_SIZE) (Custom ''Bad output script size'')) (\<lambda>_.
     bnd (mod_lo (\<lambda>p. p\<lparr> lo_script_bytes := zeros script_size \<rparr>)) (\<lambda>_.
     set_lo (LoProcessOutputScript script_size script_size))))))))"

text \<open>The classification and the record of a complete output.\<close>

definition lo_push_output :: "env \<Rightarrow> bytes \<Rightarrow> unit papp" where
  "lo_push_output E script =
     bnd (gets (\<lambda>s. lo_current_output_amount (legacy_output_parser s))) (\<lambda>amount.
     bnd (gets tx_info) (\<lambda>ti.
     let disp = check_output_displayable script amount (change_pk_hash ti) in
     if disp = CdChange \<or> disp = CdDisplayable
     then
       let is_change = (disp = CdChange) in
       bnd (ensure (\<not> (is_change \<and> is_change_found ti)) (Custom ''Multiple change outputs detected'')) (\<lambda>_.
       bnd (lift_r (map_err_r Sw (from_output_script E script))) (\<lambda>address.
       bnd (mod_ti (\<lambda>t. t\<lparr> outputs := outputs t @ [\<lparr>
              out_amount = amount, out_address = address, out_is_change = is_change,
              out_memo = None, out_pool = PoolTransparent \<rparr>] \<rparr>)) (\<lambda>_.
       when_do is_change (mod_ti (\<lambda>t. t\<lparr> is_change_found := True \<rparr>)))))
     else throw (Custom ''Unsupported transparent output script cannot be safely reviewed'')))"

definition lo_process_script :: "env \<Rightarrow> nat \<Rightarrow> nat \<Rightarrow> unit papp" where
  "lo_process_script E size1 remaining_size =
     bnd (gets (\<lambda>s. lo_script_bytes (legacy_output_parser s))) (\<lambda>script.
     if size1 < remaining_size \<or> size1 > length script then panic
     else
       let offset = size1 - remaining_size in
       bnd (reader_read remaining_size) (\<lambda>bs.
       bnd (mod_lo (\<lambda>p. p\<lparr> lo_script_bytes := take offset script @ bs @ drop (offset + length bs) script \<rparr>)) (\<lambda>_.
       let new_remaining_size = remaining_size - length bs in
       if new_remaining_size \<noteq> 0 then set_lo (LoProcessOutputScript size1 new_remaining_size)
       else
         bnd (gets (\<lambda>s. lo_script_bytes (legacy_output_parser s))) (\<lambda>script.
         bnd (mod_lo (\<lambda>p. p\<lparr> lo_script_bytes := [] \<rparr>)) (\<lambda>_.
         bnd (h_write E outputs_h (script_encoding E script)) (\<lambda>_.
         bnd (lo_push_output E script) (\<lambda>_.
         bnd (mod_lo (\<lambda>p. p\<lparr> lo_output_parsed_count := usize_saturating_add (lo_output_parsed_count p) 1 \<rparr>)) (\<lambda>_.
         bnd (gets legacy_output_parser) (\<lambda>p.
         if lo_output_count p = lo_output_parsed_count p
         then bnd (finalize_outputs E) (\<lambda>_. set_lo LoOutputProcessingDone)
         else set_lo LoParsingOutput)))))))))"

definition lo_step :: "env \<Rightarrow> unit papp" where
  "lo_step E = bnd (gets (\<lambda>s. lo_state (legacy_output_parser s))) (\<lambda>st. case st of
       LoParsingNumberOfOutputs \<Rightarrow> lo_number_of_outputs E
     | LoParsingOutput \<Rightarrow> lo_parse_output E
     | LoProcessOutputScript size1 remaining_size \<Rightarrow> lo_process_script E size1 remaining_size
     | LoOutputProcessingDone \<Rightarrow> ret ())"

definition lo_parse :: "env \<Rightarrow> bytes \<Rightarrow> unit papp" where
  "lo_parse E data =
     bnd (reader_new data) (\<lambda>_.
     while_sm (2 * length data + 2)
       (\<lambda>s. remaining_len s > 0 \<and> \<not> lo_is_finished (legacy_output_parser s)) (lo_step E))"

end
