(* ===== verification/Legacy_Handlers.thy ===== *)
theory Legacy_Handlers
  imports Legacy_Output Pczt_Handlers Account
begin

text \<open>
  The commands of the legacy protocol, \<open>src/src/handlers/get_trusted_input.rs\<close> and \<open>sign_tx.rs\<close>, and
  the main loop of \<open>src/src/main.rs\<close> over every instruction: decoding, dispatch, the status screen and
  the reset after an error.  A legacy signature is logged as a \<open>Signed\<close> event once it is in the
  response buffer.  Log lines are dropped.
\<close>

section \<open>Trusted inputs\<close>

definition MAGIC_TRUSTED_INPUT :: u8 where "MAGIC_TRUSTED_INPUT = 0x32"

fun legacy_error_sw :: "parser_error \<Rightarrow> app_sw" where
  "legacy_error_sw Hash_Err = TechnicalProblem"
| "legacy_error_sw _ = IncorrectData"

text \<open>The guard of the packets that continue a transaction.\<close>

definition require_legacy_round :: "unit happ" where
  "require_legacy_round =
     bnd (get_p is_session_active) (\<lambda>active.
     bnd (ensure (\<not> active) BadState) (\<lambda>_.
     bnd (gets is_finished_flag) (\<lambda>fin. ensure (\<not> fin) BadState)))"

definition begin_trusted_input :: "bytes \<Rightarrow> bytes happ" where
  "begin_trusted_input data =
     bnd (reset_for_new_transaction TrustedInput) (\<lambda>_.
     bnd (lift_r (read_u32 data True False)) (\<lambda>idx.
     bnd (set_transaction_trusted_input_idx idx) (\<lambda>_. ret (drop 4 data))))"

definition issue_trusted_input :: "env \<Rightarrow> legacy_env \<Rightarrow> unit happ" where
  "issue_trusted_input E L =
     bnd (gets trusted_input_info) (\<lambda>t.
     bnd (ensure (is_input_processed t) IncorrectData) (\<lambda>_.
     bnd (fill_bytes E 4) (\<lambda>nonce.
     bnd (comm_append [MAGIC_TRUSTED_INPUT, 0x00]) (\<lambda>_.
     bnd (comm_append (drop 2 nonce)) (\<lambda>_.
     bnd (comm_append (ti_tx_id t)) (\<lambda>_.
     bnd (case input_idx t of None \<Rightarrow> panic | Some idx \<Rightarrow> comm_append (u32_to_le_bytes idx)) (\<lambda>_.
     bnd (comm_append (u64_to_le_bytes (ti_amount t))) (\<lambda>_.
     bnd (some_or (trusted_input_key L) TechnicalProblem) (\<lambda>key.
     bnd (gets (\<lambda>s. take TRUSTED_INPUT_SIZE (comm_out s))) (\<lambda>msg.
     bnd (some_or (hmac_sha256 L key msg) TechnicalProblem) (\<lambda>signature.
     comm_append signature)))))))))))"

definition handler_get_trusted_input :: "env \<Rightarrow> legacy_env \<Rightarrow> bool \<Rightarrow> unit happ" where
  "handler_get_trusted_input E L first =
     bnd comm_get_data (\<lambda>data.
     bnd (when_do (\<not> first) require_legacy_round) (\<lambda>_.
     bnd (if first then begin_trusted_input data else ret data) (\<lambda>data.
     bnd (map_err legacy_error_sw (legacy_parse E L data)) (\<lambda>_.
     bnd (gets legacy_parser) (\<lambda>p.
     when_do (lg_is_finished p) (issue_trusted_input E L))))))"

section \<open>The inputs of the transaction to sign\<close>

definition resume_signing_round :: "unit happ" where
  "resume_signing_round =
     bnd (get_ti is_v6) (\<lambda>v6.
     bnd (ensure (\<not> v6) BadState) (\<lambda>_.
     bnd (gets (\<lambda>s. is_tx_parsed_once (tx_signing_state s))) (\<lambda>reviewed.
     bnd (ensure reviewed BadState) (\<lambda>_.
     bnd (mod_l (\<lambda>_. legacy_parser_new Signature)) (\<lambda>_.
     bnd (gets (\<lambda>s. lo_output_count (legacy_output_parser s))) (\<lambda>n.
     mod_l (\<lambda>p. p\<lparr> lg_output_count := n \<rparr>)))))))"

definition handler_hash_input_start :: "env \<Rightarrow> legacy_env \<Rightarrow> bool \<Rightarrow> bool \<Rightarrow> unit happ" where
  "handler_hash_input_start E L first continue_hashing =
     bnd (when_do (\<not> (first \<and> \<not> continue_hashing)) require_legacy_round) (\<lambda>_.
     bnd (if continue_hashing then resume_signing_round
          else when_do first (reset_for_new_transaction Signature)) (\<lambda>_.
     bnd comm_get_data (\<lambda>data.
     map_err legacy_error_sw (legacy_parse E L data))))"

section \<open>Its outputs\<close>

text \<open>A change path replaces the one installed before, whatever was classified with it.\<close>

definition install_change_path :: "env \<Rightarrow> bytes \<Rightarrow> unit happ" where
  "install_change_path E data =
     bnd (lift_r (bip32_try_from_bytes data)) (\<lambda>p.
     bnd (ensure (check_bip44_compliance p (Full True)) ConditionsOfUseNotSatisfied) (\<lambda>_.
     bnd (lift_r (extended_public_key_try_from E p)) (\<lambda>key.
     bnd (lift_r (compressed_public_key_hash160 E key)) (\<lambda>pk_hash.
     bnd (mod_ti (\<lambda>t. t\<lparr> change_pk_hash := Some pk_hash \<rparr>)) (\<lambda>_.
     mod_ti (\<lambda>t. t\<lparr> change_account := derivation_account p \<rparr>))))))"

fun output_error_sw :: "parser_error \<Rightarrow> app_sw" where
  "output_error_sw Hash_Err = TechnicalProblem"
| "output_error_sw (Sw sw) = sw"
| "output_error_sw UserDenied = Deny"
| "output_error_sw _ = IncorrectData"

definition on_output_error :: "parser_error \<Rightarrow> 'a happ" where
  "on_output_error e = bnd (when_do (e = UserDenied) set_finished) (\<lambda>_. throw (output_error_sw e))"

definition handler_hash_input_finalize_full :: "env \<Rightarrow> bool \<Rightarrow> unit happ" where
  "handler_hash_input_finalize_full E is_change_info =
     bnd comm_get_data (\<lambda>data.
     bnd (ensure (data \<noteq> []) WrongApduLength) (\<lambda>_.
     bnd (gets (\<lambda>s. is_presign_ready (legacy_parser s) \<and> \<not> lo_is_finished (legacy_output_parser s))) (\<lambda>ready.
     bnd (ensure ready ConditionsOfUseNotSatisfied) (\<lambda>_.
     if is_change_info then install_change_path E data
     else catch_err (lo_parse E data) on_output_error))))"

section \<open>The review and the signatures\<close>

definition parse_extra_data :: "bytes \<Rightarrow> (app_sw, u32 \<times> u8 \<times> u32) res" where
  "parse_extra_data buf =
     (if length buf < 9 then err WrongApduLength
      else
        let lock = u32_from_be_bytes (take 4 buf); sighash = buf ! 4;
            expiry = u32_from_be_bytes (take 4 (drop 5 buf))
        in if sighash \<noteq> SIGHASH_ALL then err IncorrectData else Inr (lock, sighash, expiry))"

definition EXTRA_HEADER_DATA_LEN :: nat where "EXTRA_HEADER_DATA_LEN = 11"

text \<open>The user's review, or the approval of the Exchange application that stands in for it.\<close>

definition legacy_review :: "env \<Rightarrow> u32 \<Rightarrow> u32 \<Rightarrow> unit happ" where
  "legacy_review E lock expiry =
     bnd (gets swap_params) (\<lambda>swap.
     when_do (swap = None)
       (bnd (gets tx_info) (\<lambda>ti.
        bnd (ui_display_tx E (outputs ti) (fees ti) (classify True False (outputs ti)) lock expiry) (\<lambda>approved.
        if \<not> approved then bnd set_finished (\<lambda>_. throw Deny) else ret ()))))"

definition hash_sign_header :: "env \<Rightarrow> bytes \<Rightarrow> unit happ" where
  "hash_sign_header E data =
     bnd (ensure (length data = EXTRA_HEADER_DATA_LEN) WrongApduLength) (\<lambda>_.
     bnd (lift_r (parse_extra_data (drop 2 data))) (\<lambda>(lock, sighash, expiry).
     bnd (mod_ti (\<lambda>t. t\<lparr> locktime := lock, sighash_type := sighash, expiry_height := expiry \<rparr>)) (\<lambda>_.
     bnd set_extra_header_data (\<lambda>_.
     bnd (legacy_review E lock expiry) (\<lambda>_.
     mod_ss (\<lambda>t. t\<lparr> is_tx_parsed_once := True \<rparr>))))))"

definition count_legacy_signature :: "unit happ" where
  "count_legacy_signature =
     bnd (mod_ss (\<lambda>t. t\<lparr> already_signed_input_count :=
            usize_saturating_add (already_signed_input_count t) 1 \<rparr>)) (\<lambda>_.
     bnd (gets tx_signing_state) (\<lambda>t.
     when_do (already_signed_input_count t = max (total_input_count t) 1) set_finished))"

definition hash_sign_signature :: "env \<Rightarrow> bytes \<Rightarrow> unit happ" where
  "hash_sign_signature E data =
     bnd (gets (\<lambda>s. lg_is_ready_to_sign (legacy_parser s))) (\<lambda>ready.
     bnd (ensure ready ConditionsOfUseNotSatisfied) (\<lambda>_.
     bnd (lift_r (index data 0)) (\<lambda>n.
     let path_len = unat n * 4 + 1 in
     bnd (ensure (\<not> length data < path_len) WrongApduLength) (\<lambda>_.
     bnd (lift_r (bip32_try_from_bytes (take path_len data))) (\<lambda>p.
     bnd (ensure (check_bip44_compliance p OnlyCoinType) ConditionsOfUseNotSatisfied) (\<lambda>_.
     bnd (gets tx_info) (\<lambda>ti.
     bnd (lift_r (check_change_returns_to_signing_account ti p)) (\<lambda>_.
     bnd (append_signature E (signature_digest ti) p (sighash_type ti)) (\<lambda>_.
     bnd (gets (\<lambda>s. already_signed_input_count (tx_signing_state s))) (\<lambda>i.
     bnd (log_event (Signed KeyLegacy i (signature_digest ti) p)) (\<lambda>_.
     bnd note_signature_released (\<lambda>_.
     count_legacy_signature))))))))))))"

definition handler_hash_sign :: "env \<Rightarrow> unit happ" where
  "handler_hash_sign E =
     bnd (get_p is_session_active) (\<lambda>active.
     bnd (ensure (\<not> active) BadState) (\<lambda>_.
     bnd comm_get_data (\<lambda>data.
     bnd (ensure (data \<noteq> []) WrongApduLength) (\<lambda>_.
     bnd (gets (\<lambda>s. lo_is_finished (legacy_output_parser s) \<and> \<not> is_extra_header_data_set s)) (\<lambda>header.
     if header then hash_sign_header E data else hash_sign_signature E data)))))"

section \<open>Instructions\<close>

definition INS_GET_WALLET_PUBLIC_KEY :: u8 where "INS_GET_WALLET_PUBLIC_KEY = 0x40"
definition INS_GET_TRUSTED_INPUT :: u8 where "INS_GET_TRUSTED_INPUT = 0x42"
definition INS_HASH_INPUT_START :: u8 where "INS_HASH_INPUT_START = 0x44"
definition INS_HASH_SIGN :: u8 where "INS_HASH_SIGN = 0x48"
definition INS_HASH_INPUT_FINALIZE_FULL :: u8 where "INS_HASH_INPUT_FINALIZE_FULL = 0x4A"
definition INS_GET_FIRMWARE_VERSION :: u8 where "INS_GET_FIRMWARE_VERSION = 0xC4"
definition INS_GET_VK :: u8 where "INS_GET_VK = 0x50"
definition INS_GET_SHIELD_ADDR :: u8 where "INS_GET_SHIELD_ADDR = 0x51"
definition P1_GET_PUBLIC_KEY_NO_DISPLAY :: u8 where "P1_GET_PUBLIC_KEY_NO_DISPLAY = 0x00"
definition P1_GET_PUBLIC_KEY_DISPLAY :: u8 where "P1_GET_PUBLIC_KEY_DISPLAY = 0x01"
definition P1_GET_VK_FIRST :: u8 where "P1_GET_VK_FIRST = 0x00"
definition P1_GET_VK_CONTINUE :: u8 where "P1_GET_VK_CONTINUE = 0x80"
definition P1_HASH_INPUT_START_FIRST :: u8 where "P1_HASH_INPUT_START_FIRST = 0x00"
definition P1_HASH_INPUT_START_NEXT :: u8 where "P1_HASH_INPUT_START_NEXT = 0x80"
definition P2_HASH_INPUT_START_SAPLING :: u8 where "P2_HASH_INPUT_START_SAPLING = 0x05"
definition P2_HASH_INPUT_START_CONTINUE :: u8 where "P2_HASH_INPUT_START_CONTINUE = 0x80"
definition P1_FINALIZE_FULL_MORE :: u8 where "P1_FINALIZE_FULL_MORE = 0x00"
definition P1_FINALIZE_FULL_LAST :: u8 where "P1_FINALIZE_FULL_LAST = 0x80"
definition P1_FINALIZE_FULL_CHANGEINFO :: u8 where "P1_FINALIZE_FULL_CHANGEINFO = 0xFF"
definition P2_FINALIZE_FULL_DEFAULT :: u8 where "P2_FINALIZE_FULL_DEFAULT = 0x00"

datatype apdu =
    GetVersion
  | GetPubkey (pk_display: bool)
  | GetShieldedAddr (sa_display: bool) (sa_mode: p2_shielded_addr_mode)
  | GetVk (vk_mode: p2_vk_mode) (vk_continue: bool)
  | GetTrustedInput (gti_first: bool) (gti_next: bool)
  | HashInputStart (his_first: bool) (his_continue: bool)
  | HashFinalizeFull (hff_is_change: bool)
  | HashSign
  | PcztCommand (pczt_instruction: instruction)

definition p2_vk_mode_try_from :: "u8 \<Rightarrow> (app_sw, p2_vk_mode) res" where
  "p2_vk_mode_try_from v =
     (if v = 0x00 then Inr Ufvk else if v = 0x01 then Inr OrchardFvk else err WrongP1P2)"

definition p2_shielded_addr_mode_try_from :: "u8 \<Rightarrow> (app_sw, p2_shielded_addr_mode) res" where
  "p2_shielded_addr_mode_try_from v =
     (if v = 0x00 then Inr UAddress else if v = 0x01 then Inr OrchardAddress else err WrongP1P2)"

text \<open>\<open>Instruction::try_from\<close>: the PCZT arms are \<open>decode_pczt\<close>, whose instruction bytes no other arm
  has; an unmatched P1 or P2 of a known instruction falls to the last arm but one.\<close>

definition decode_apdu :: "u8 \<Rightarrow> u8 \<Rightarrow> u8 \<Rightarrow> (app_sw, apdu) res" where
  "decode_apdu ins p1 p2 =
     (if ins = INS_GET_FIRMWARE_VERSION \<and> p1 = 0 \<and> p2 = 0 then Inr GetVersion
      else if ins = INS_GET_WALLET_PUBLIC_KEY \<and> p1 \<in> {P1_GET_PUBLIC_KEY_NO_DISPLAY, P1_GET_PUBLIC_KEY_DISPLAY} \<and> p2 = 0
        then Inr (GetPubkey (p1 = P1_GET_PUBLIC_KEY_DISPLAY))
      else if ins = INS_GET_VK \<and> p1 \<in> {P1_GET_VK_FIRST, P1_GET_VK_CONTINUE}
        then rbind (p2_vk_mode_try_from p2) (\<lambda>mode. Inr (GetVk mode (p1 = P1_GET_VK_CONTINUE)))
      else if ins = INS_GET_SHIELD_ADDR \<and> p1 \<in> {P1_GET_PUBLIC_KEY_NO_DISPLAY, P1_GET_PUBLIC_KEY_DISPLAY}
        then rbind (p2_shielded_addr_mode_try_from p2) (\<lambda>mode.
          Inr (GetShieldedAddr (p1 AND P1_GET_PUBLIC_KEY_DISPLAY \<noteq> 0) mode))
      else if ins = INS_GET_TRUSTED_INPUT \<and> p1 \<in> {P1_FIRST, P1_NEXT} \<and> p2 = 0
        then Inr (GetTrustedInput (p1 = P1_FIRST) (p1 = P1_NEXT))
      else if ins = INS_HASH_INPUT_START \<and> p1 \<in> {P1_HASH_INPUT_START_FIRST, P1_HASH_INPUT_START_NEXT}
          \<and> p2 \<in> {P2_HASH_INPUT_START_SAPLING, P2_HASH_INPUT_START_CONTINUE}
        then Inr (HashInputStart (p1 = P1_HASH_INPUT_START_FIRST)
                    (p1 = P1_HASH_INPUT_START_FIRST \<and> p2 = P2_HASH_INPUT_START_CONTINUE))
      else if ins = INS_HASH_INPUT_FINALIZE_FULL
          \<and> p1 \<in> {P1_FINALIZE_FULL_MORE, P1_FINALIZE_FULL_LAST, P1_FINALIZE_FULL_CHANGEINFO}
          \<and> p2 = P2_FINALIZE_FULL_DEFAULT
        then Inr (HashFinalizeFull (p1 = P1_FINALIZE_FULL_CHANGEINFO))
      else if ins = INS_HASH_SIGN \<and> p1 = 0 \<and> p2 = 0 then Inr HashSign
      else case decode_pczt ins p1 p2 of
        Some i \<Rightarrow> Inr (PcztCommand i)
      | None \<Rightarrow>
          if ins \<in> {INS_GET_WALLET_PUBLIC_KEY, INS_GET_TRUSTED_INPUT, INS_HASH_INPUT_START, INS_HASH_SIGN,
                    INS_HASH_INPUT_FINALIZE_FULL, INS_GET_FIRMWARE_VERSION, INS_GET_VK, INS_GET_SHIELD_ADDR}
          then err WrongP1P2 else err InsNotSupported)"

fun handle_apdu :: "env \<Rightarrow> account_env \<Rightarrow> legacy_env \<Rightarrow> apdu \<Rightarrow> unit happ" where
  "handle_apdu E A L GetVersion = handler_get_version A"
| "handle_apdu E A L (GetPubkey display) = handler_get_public_key E A display"
| "handle_apdu E A L (GetVk mode continue_response) = handler_get_vk E A mode continue_response"
| "handle_apdu E A L (GetShieldedAddr display mode) = handler_get_shielded_addr E A mode display"
| "handle_apdu E A L (GetTrustedInput first next1) = handler_get_trusted_input E L first"
| "handle_apdu E A L (HashInputStart first continue_hashing) = handler_hash_input_start E L first continue_hashing"
| "handle_apdu E A L (HashFinalizeFull is_change) = handler_hash_input_finalize_full E is_change"
| "handle_apdu E A L HashSign = handler_hash_sign E"
| "handle_apdu E A L (PcztCommand i) = handle_pczt_apdu E i"

section \<open>The main loop\<close>

datatype status_type = AddressStatus | TransactionStatus

text \<open>The status screen after a command, and whether it is shown at all.\<close>

fun status_screen :: "apdu \<Rightarrow> app_sw \<Rightarrow> world \<Rightarrow> status_type option" where
  "status_screen (GetPubkey True) sw s = (if sw \<in> {Deny, app_sw.Ok} then Some AddressStatus else None)"
| "status_screen (GetShieldedAddr True UAddress) sw s =
     (if sw \<in> {Deny, app_sw.Ok} then Some AddressStatus else None)"
| "status_screen (GetVk mode c) sw s =
     (if sw \<in> {Deny, app_sw.Ok} \<and> is_vk_display_finished s then Some AddressStatus else None)"
| "status_screen (HashFinalizeFull c) sw s =
     (if sw = Deny \<and> is_finished_flag s then Some TransactionStatus else None)"
| "status_screen HashSign sw s =
     (if sw \<in> {app_sw.Ok, Deny} \<and> is_finished_flag s then Some TransactionStatus else None)"
| "status_screen (PcztCommand (PcztOrchardAction a b c)) sw s =
     (if sw = Deny \<and> is_finished_flag s then Some TransactionStatus else None)"
| "status_screen (PcztCommand (PcztIronwoodAction a b c)) sw s =
     (if sw = Deny \<and> is_finished_flag s then Some TransactionStatus else None)"
| "status_screen (PcztCommand (PcztSignTransparent i)) sw s =
     (if sw = app_sw.Ok \<and> is_finished_flag s then Some TransactionStatus else None)"
| "status_screen (PcztCommand (PcztSignOrchard i)) sw s =
     (if sw = app_sw.Ok \<and> is_finished_flag s then Some TransactionStatus else None)"
| "status_screen (PcztCommand (PcztSignIronwood i)) sw s =
     (if sw = app_sw.Ok \<and> is_finished_flag s then Some TransactionStatus else None)"
| "status_screen _ sw s = None"

definition show_status_and_home_if_needed :: "apdu \<Rightarrow> app_sw \<Rightarrow> world \<Rightarrow> (status_type \<times> bool) option \<times> world"
  where
  "show_status_and_home_if_needed ins sw s =
     (if swap_params s \<noteq> None then (None, s)
      else case status_screen ins sw s of
          None \<Rightarrow> (None, s)
        | Some t \<Rightarrow> (Some (t, sw = app_sw.Ok),
            case ins of GetVk _ _ \<Rightarrow> s\<lparr> is_vk_display_finished := False \<rparr> | _ \<Rightarrow> s))"

text \<open>The instructions whose error resets the context: those that work on a transaction.\<close>

fun resets_on_error :: "apdu \<Rightarrow> bool" where
  "resets_on_error GetVersion = False"
| "resets_on_error (GetPubkey display) = False"
| "resets_on_error (GetShieldedAddr display mode) = False"
| "resets_on_error (GetVk mode c) = False"
| "resets_on_error _ = True"

text \<open>A turn: the status word (\<open>None\<close> when the handler panicked, which ends the application), whether
  \<open>normal_main\<close> returns to the Exchange application, and the state of the next turn.\<close>

definition apdu_turn :: "env \<Rightarrow> account_env \<Rightarrow> legacy_env \<Rightarrow> apdu \<Rightarrow> bytes option \<Rightarrow> world \<Rightarrow>
    app_sw option \<times> bool \<times> world" where
  "apdu_turn E A L ins data s =
     (case handle_apdu E A L ins (receive data s) of
        (Inr _, s1) \<Rightarrow>
          let s2 = snd (show_status_and_home_if_needed ins app_sw.Ok s1)
          in (Some app_sw.Ok, swap_params s2 \<noteq> None \<and> is_finished_flag s2, s2)
      | (Inl (Fail sw), s1) \<Rightarrow>
          let s2 = snd (show_status_and_home_if_needed ins sw s1);
              s3 = if resets_on_error ins then reset_ctx TrustedInput s2 else s2
          in (Some sw, swap_params s3 \<noteq> None, s3)
      | (Inl _, s1) \<Rightarrow> (None, False, s1))"

end
