(* ===== verification/Pczt_Footprint.thy ===== *)
theory Pczt_Footprint
  imports Pczt_Invariant
begin

text \<open>
  What the parsing steps leave untouched.  A footprint is a part of the state that depends on
  neither the reader, the hashers, the transaction data nor any field of the parser but the count of
  inputs; every step but those that open the inputs or review the outputs keeps every footprint.
  The interface is instantiated with the log of events and with the signing counters.
\<close>

section \<open>Keeping a part of the state\<close>

named_theorems keeps_rules \<open>what keeps a part of the state\<close>

definition keeps :: "('s \<Rightarrow> 'x) \<Rightarrow> ('s, 'e, 'a) sm \<Rightarrow> bool" where
  "keeps f m \<longleftrightarrow> (\<forall>s. f (snd (m s)) = f s)"

lemma keepsD: "keeps f m \<Longrightarrow> m s = (r, s') \<Longrightarrow> f s' = f s"
  unfolding keeps_def by (metis snd_conv)

lemma keeps_pure [keeps_rules]:
  "keeps f (ret a)" "keeps f (throw e)" "keeps f panic" "keeps f diverge" "keeps f (gets g)"
  "keeps f (ensure b e)" "keeps f (some_or x e)" "keeps f (lift_r r)"
  by (simp_all add: keeps_def ret_def throw_def panic_def diverge_def gets_def ensure_def some_or_def
      lift_r_def split: option.split)

lemma keeps_bnd [keeps_rules]: "keeps f m \<Longrightarrow> (\<And>a. keeps f (k a)) \<Longrightarrow> keeps f (bnd m k)"
  by (auto simp: keeps_def bnd_def split: prod.split sum.split) (metis snd_conv)+

lemma keeps_modify: "(\<And>s. f (g s) = f s) \<Longrightarrow> keeps f (modify g)"
  by (simp add: keeps_def modify_def)

lemma keeps_if [keeps_rules]: "(b \<Longrightarrow> keeps f m) \<Longrightarrow> (\<not> b \<Longrightarrow> keeps f k) \<Longrightarrow> keeps f (if b then m else k)"
  by simp

lemma keeps_when [keeps_rules]: "(b \<Longrightarrow> keeps f m) \<Longrightarrow> keeps f (when_do b m)"
  unfolding when_do_def by (simp add: keeps_pure)

lemma keeps_seqs [keeps_rules]:
  "keeps f (seqs [])" "keeps f m \<Longrightarrow> keeps f (seqs ms) \<Longrightarrow> keeps f (seqs (m # ms))"
proof -
  show "keeps f (seqs [])" by (simp add: seqs.simps keeps_pure)
  show "keeps f m \<Longrightarrow> keeps f (seqs ms) \<Longrightarrow> keeps f (seqs (m # ms))"
    by (cases ms) (simp_all add: seqs.simps keeps_bnd)
qed

lemma keeps_cases [keeps_rules]:
  "keeps f m \<Longrightarrow> (\<And>a. keeps f (k a)) \<Longrightarrow> keeps f (case x of None \<Rightarrow> m | Some a \<Rightarrow> k a)"
  "(\<And>a b. keeps f (h a b)) \<Longrightarrow> keeps f (case y of (a, b) \<Rightarrow> h a b)"
  "(\<And>a. keeps f (l a)) \<Longrightarrow> keeps f (Let z l)"
  by (auto split: option.split prod.split)

lemma keeps_map_err [keeps_rules]: "keeps f m \<Longrightarrow> keeps f (map_err g m)"
  unfolding keeps_def map_err_def by (auto split: sum.splits fault.splits prod.splits) (metis snd_conv)+

lemma keeps_catch_err [keeps_rules]:
  "keeps f m \<Longrightarrow> (\<And>e. keeps f (h e)) \<Longrightarrow> keeps f (catch_err m h)"
  unfolding keeps_def catch_err_def by (auto split: sum.splits fault.splits prod.splits) (metis snd_conv)+

section \<open>Footprints\<close>

locale footprint =
  fixes f :: "world \<Rightarrow> 'x"
  assumes off_reader: "f (s\<lparr> rd_pos := n \<rparr>) = f s" "f (s\<lparr> rd_buf := d \<rparr>) = f s"
    and off_services: "f (s\<lparr> ticks := n \<rparr>) = f s" "f (s\<lparr> orchard_derivations := n \<rparr>) = f s"
    and off_data: "f (s\<lparr> hashers := h \<rparr>) = f s" "f (s\<lparr> tx_info := t \<rparr>) = f s"
    and off_parser: "transparent_input_count p = transparent_input_count (pczt_parser s)
        \<Longrightarrow> outputs_reviewed p = outputs_reviewed (pczt_parser s) \<Longrightarrow> f (s\<lparr> pczt_parser := p \<rparr>) = f s"
begin

lemmas off = off_reader off_services off_data off_parser

lemma keeps_reads:
  "keeps f (reader_new data)" "keeps f (reader_read n)" "keeps f (read_exact n)" "keeps f read_u8"
  "keeps f read_u32_le" "keeps f read_u64_le" "keeps f (read_ext r)" "keeps f (advance n)"
  unfolding reader_new_def reader_read_def read_exact_def read_u8_def read_u32_le_def
      read_u64_le_def read_ext_def advance_def
  by (intro keeps_rules keeps_modify; simp only: off)+

lemma keeps_state:
  "(\<And>p. transparent_input_count (g p) = transparent_input_count p) \<Longrightarrow>
     (\<And>p. outputs_reviewed (g p) = outputs_reviewed p) \<Longrightarrow> keeps f (mod_p g)"
  "keeps f (mod_ca c)" "keeps f (mod_ti t)" "keeps f (mod_h h)" "keeps f (set_state st)"
  "keeps f (get_p q)" "keeps f (get_ca qc)" "keeps f (get_ti qt)" "keeps f (get_b pl qb)" "keeps f (mod_b pl qm)"
proof -
  have p: "keeps f (mod_p g)" if "\<And>p. transparent_input_count (g p) = transparent_input_count p"
    "\<And>p. outputs_reviewed (g p) = outputs_reviewed p" for g
    unfolding mod_p_def by (rule keeps_modify) (simp add: update_fun_eq(1) [of g] off that)
  show "(\<And>p. transparent_input_count (g p) = transparent_input_count p) \<Longrightarrow>
     (\<And>p. outputs_reviewed (g p) = outputs_reviewed p) \<Longrightarrow> keeps f (mod_p g)"
    "keeps f (mod_ca c)" "keeps f (set_state st)" "keeps f (mod_b pl qm)"
    unfolding mod_ca_def set_state_def mod_b_def by (rule p; simp add: current_action_update_eq [of c])+
  show "keeps f (mod_ti t)" "keeps f (mod_h h)"
    unfolding mod_ti_def mod_h_def
    by (rule keeps_modify, simp add: update_fun_eq(2) [of t] update_fun_eq(3) [of h] off)+
  show "keeps f (get_p q)" "keeps f (get_ca qc)" "keeps f (get_ti qt)" "keeps f (get_b pl qb)"
    unfolding get_b_def get_p_def get_ca_def get_ti_def by (rule keeps_pure)+
qed

lemma keeps_services:
  "keeps f (h_init E r perso)" "keeps f (h_update E r bs)" "keeps f (h_write E r bs)"
  "keeps f (finalize_and_log_hash E r)" "keeps f (try_reserve_exact E n)"
  unfolding h_init_def h_update_def h_write_def finalize_and_log_hash_def try_reserve_exact_def
  by (intro keeps_rules keeps_state keeps_modify; simp only: off)+

lemmas keeps_basic = keeps_rules keeps_reads keeps_state keeps_services keeps_modify

lemma keeps_shared:
  "keeps f read_optional_u32" "keeps f (ensure_group_end msg)" "keeps f claim_displayed_shielded_output"
  "keeps f (record_hidden_shielded_change_account path1)" "keeps f (try_retain E bs)"
  "keeps f (clear_orchard_spending_key)" "keeps f (write_transparent_script E r scr)"
  "keeps f (get_orchard_spending_key E path1)" "keeps f (reset_bundle_state pl n)"
  "keeps f (lift_crypto g y)" "keeps f (lift_sw z)"
  unfolding read_optional_u32_def ensure_group_end_def claim_displayed_shielded_output_def
    record_hidden_shielded_change_account_def try_retain_def clear_orchard_spending_key_def
    write_transparent_script_def get_orchard_spending_key_def derive_orchard_sk_bytes_def
    consume_orchard_derivation_budget_def reset_bundle_state_def reset_current_action_def
    lift_crypto_def lift_sw_def
  by (intro keeps_basic; simp add: off)+

lemma keeps_memo: "keeps f (memo_display E memo)"
  unfolding memo_display_def
  by (intro keeps_basic keeps_shared)

lemmas keeps_more = keeps_basic keeps_shared keeps_memo

section \<open>The transparent section\<close>

lemma keeps_scripts:
  "keeps f (set_transparent_script_process_state kind n m)" "keeps f (finish_transparent_script E kind n)"
  "keeps f (parse_transparent_script E kind n m)" "keeps f (parse_transparent_script_start E kind)"
  unfolding parse_transparent_script_start_def parse_transparent_script_def
    set_transparent_script_process_state_def finish_transparent_script_def
    finish_transparent_input_script_def finish_transparent_output_script_def reader_read_def [symmetric]
  by (cases kind; simp only: transparent_script_kind.case; (intro keeps_more; simp add: off; fail))+

lemma keeps_finalize:
  "keeps f (finalize_transparent_inputs E)" "keeps f (finalize_transparent_outputs E)"
  unfolding finalize_transparent_inputs_def finalize_transparent_outputs_def
  by (intro keeps_more; simp add: off; fail)+

lemma keeps_transparent:
  "keeps f (parse_transparent_input E)" "keeps f (parse_transparent_output E)"
  "keeps f (parse_transparent_input_sighash_type E)" "keeps f (finish_transparent_output E)"
  unfolding parse_transparent_input_def parse_transparent_output_def
    parse_transparent_input_sighash_type_def finish_transparent_output_def
  by (intro keeps_more keeps_finalize; simp add: off; fail)+

lemma keeps_derivations:
  "keeps f (parse_transparent_input_bip32_derivation E)" "keeps f (parse_transparent_output_bip32_derivation E)"
  unfolding parse_transparent_input_bip32_derivation_def parse_transparent_output_bip32_derivation_def
    finish_transparent_input_bip32_derivation_def finish_transparent_output_bip32_derivation_def
  by (intro keeps_more keeps_finalize keeps_transparent; simp add: off; fail)+

lemma keeps_transparent_steps:
  "keeps f (parse_transparent_outputs_start E) \<Longrightarrow> keeps f (transparent_outputs_step E)"
  unfolding transparent_outputs_step_def parse_transparent_output_script_start_def parse_transparent_output_script_def
  by (intro keeps_more; rename_tac st; case_tac st; simp add: keeps_more keeps_scripts keeps_transparent keeps_derivations)

lemma keeps_inputs:
  "keeps f (parse_transparent_input_script_start E)" "keeps f (parse_transparent_input_script E n m)"
  unfolding parse_transparent_input_script_start_def parse_transparent_input_script_def
  by (rule keeps_scripts)+

section \<open>The shielded sections\<close>

lemma keeps_fields:
  "keeps f (ensure_apdu_group_end pl)" "keeps f (read_value E e1 e2)" "keeps f (read_large_vec n)"
  "keeps f (parse_action E pl)" "keeps f (parse_output E pl)"
  unfolding ensure_apdu_group_end_def read_value_def read_large_vec_def parse_action_def parse_output_def
  by (intro keeps_more; simp add: off; fail)+

lemma keeps_ciphertexts:
  "keeps f (parse_enc_ciphertext E pl)" "keeps f (parse_out_ciphertext E pl)"
  "keeps f (parse_enc_ciphertext_len E pl)" "keeps f (parse_out_ciphertext_len E pl)"
  unfolding parse_enc_ciphertext_len_def parse_out_ciphertext_len_def parse_enc_ciphertext_def
    parse_out_ciphertext_def finish_enc_ciphertext_def finish_out_ciphertext_def
  by (intro keeps_more keeps_fields; simp add: off; fail)+

lemma keeps_checks:
  "keeps f (verify_current_cv_net E pl)" "keeps f (verify_current_spend_nullifier E pl fvk)"
  "keeps f (verify_current_rk E pl ask)" "keeps f (validate_deciphered_output pl out)"
  "keeps f (output_memo_display E out b)" "keeps f (push_deciphered_output E pl out net b)"
  "keeps f (validate_current_dummy_output E pl)"
  unfolding verify_current_cv_net_def verify_current_spend_nullifier_def verify_current_rk_def
    validate_deciphered_output_def output_memo_display_def push_deciphered_output_def
    validate_current_dummy_output_def
  by (intro keeps_more; simp add: off; fail)+

lemma keeps_decipher: "keeps f (decipher_result r)"
  unfolding decipher_result_def by (auto intro: keeps_rules split: sum.split fault.split)

lemma keeps_validate:
  "keeps f (validate_current_output E pl enc outc)" "keeps f (validate_with_lent_ciphertext E pl outc)"
  unfolding validate_with_lent_ciphertext_def validate_current_output_def try_decipher_current_output_def
  by (intro keeps_more keeps_checks keeps_decipher; simp add: off; fail)+

lemma keeps_records:
  "keeps f (finish_current_action E pl)" "keeps f (parse_output_metadata E pl)"
  "keeps f (parse_zip32_derivation E pl)"
  unfolding parse_output_metadata_def read_output_fields_def finish_current_action_def
    parse_zip32_derivation_def finish_zip32_derivation_def reset_current_action_def
  by (intro keeps_more keeps_fields keeps_checks keeps_validate; simp add: off; fail)+

text \<open>The closing of a bundle, up to the review that may follow it.\<close>

lemma keeps_closing:
  assumes "keeps f (finalize_actions E pl)"
  shows "keeps f (finish_anchor E pl anchor)" "keeps f (parse_trailer E pl)"
proof -
  have sd: "keeps f (set_pool_digest pl d)" for d by (cases pl) (simp_all add: keeps_state)
  show "keeps f (finish_anchor E pl anchor)" "keeps f (parse_trailer E pl)"
    unfolding parse_trailer_def finish_anchor_def finish_value_sum_sign_def
    by (intro keeps_more keeps_fields assms sd; simp add: off; fail)+
qed

lemma keeps_orchard_start:
  "keeps f (finalize_orchard_actions E) \<Longrightarrow> keeps f (parse_orchard_actions_start E)"
  unfolding parse_orchard_actions_start_def reset_orchard_bundle_state_def
  by (intro keeps_more; simp add: off)

lemma keeps_ironwood_start:
  "keeps f (finalize_ironwood_actions E) \<Longrightarrow> keeps f (parse_ironwood_actions_start E)"
  unfolding parse_ironwood_actions_start_def reset_ironwood_bundle_state_def
  by (intro keeps_more; simp add: off)

lemmas keeps_pool = keeps_fields keeps_ciphertexts keeps_records

lemma keeps_pool_steps:
  assumes "\<And>pl. keeps f (finalize_actions E pl)"
  shows "keeps f (orchard_step E)" "keeps f (ironwood_step E)"
  unfolding orchard_step_def ironwood_step_def pool_entry_defs
  using assms [of OrchardPool] assms [of IronwoodPool]
  by (intro keeps_more; rename_tac st; case_tac st; simp add: keeps_more keeps_pool keeps_closing assms
      keeps_orchard_start keeps_ironwood_start)+

end

section \<open>The signing counters\<close>

definition ledger :: "world \<Rightarrow> tx_signing_state \<times> nat" where
  "ledger s = (tx_signing_state s, transparent_input_count (pczt_parser s))"

interpretation ledger: footprint ledger
  by unfold_locales (simp_all add: ledger_def)

lemma ledger_mod_p:
  "(\<And>p. transparent_input_count (g p) = transparent_input_count p) \<Longrightarrow> keeps ledger (mod_p g)"
  unfolding mod_p_def by (rule keeps_modify) (simp add: update_fun_eq(1) [of g] ledger_def)

lemma ledger_review: "keeps ledger (review_outputs E)"
proof -
  have l: "keeps ledger (log_event ev)" for ev :: event
    unfolding log_event_def by (rule keeps_modify) (simp add: ledger_def)
  have d: "keeps ledger (ui_display_tx E outs fee transfer lock expiry)" for outs fee transfer lock expiry
    unfolding ui_display_tx_def log_event_def by (intro keeps_rules keeps_modify; simp add: ledger_def)
  show ?thesis
    unfolding review_outputs_def by (intro keeps_rules l d; (rule ledger_mod_p; simp; fail)?; intro ledger.keeps_state; simp)
qed

lemma ledger_finalize: "keeps ledger (finalize_actions E pl)"
  by (cases pl) (simp_all add: finalize_orchard_actions_def finalize_ironwood_actions_def,
    (intro ledger.keeps_more ledger_review; simp)+)

lemma ledger_outputs_start: "keeps ledger (parse_transparent_outputs_start E)"
  unfolding parse_transparent_outputs_start_def
  by (intro keeps_rules; (rule ledger_mod_p; simp; fail)?; intro ledger.keeps_more ledger.keeps_finalize; simp)

lemma ledger_steps:
  "keeps ledger (transparent_outputs_step E)" "keeps ledger (orchard_step E)" "keeps ledger (ironwood_step E)"
  by (rule ledger.keeps_transparent_steps ledger_outputs_start ledger.keeps_pool_steps ledger_finalize)+

lemma ledger_inputs_step:
  assumes "pz_state (pczt_parser s) \<noteq> WaitTransparentInputsCount"
  shows "ledger (snd (transparent_inputs_step E s)) = ledger s"
proof -
  have k: "keeps ledger (case st of
       WaitTransparentInputsCount \<Rightarrow> ret ()
     | WaitTransparentInput \<Rightarrow> parse_transparent_input E
     | WaitTransparentInputScript \<Rightarrow> parse_transparent_input_script_start E
     | ProcessTransparentInputScript size1 remaining_size \<Rightarrow>
         parse_transparent_input_script E size1 remaining_size
     | WaitTransparentInputSighashType \<Rightarrow> parse_transparent_input_sighash_type E
     | WaitTransparentInputBip32Derivation \<Rightarrow> parse_transparent_input_bip32_derivation E
     | _ \<Rightarrow> throw (Sw BadState))" for st
    by (cases st; simp add: ledger.keeps_inputs ledger.keeps_transparent ledger.keeps_derivations keeps_rules)
  show ?thesis
    using assms k [of "pz_state (pczt_parser s)"]
    by (cases "pz_state (pczt_parser s)")
      (simp_all add: transparent_inputs_step_def bnd_def get_p_def gets_def keeps_def)
qed

section \<open>The log\<close>

text \<open>The log of events, together with the flag that a review sets.\<close>

definition trail :: "world \<Rightarrow> event list \<times> bool" where
  "trail s = (events s, outputs_reviewed (pczt_parser s))"

interpretation log: footprint trail
  by unfold_locales (simp_all add: trail_def)

text \<open>A program that logs at most one event, a review, which it then only survives as the last word:
  if it goes on without an error the outputs are approved.\<close>

definition logged :: "world \<Rightarrow> world \<Rightarrow> bool" where
  "logged s s' \<longleftrightarrow> (\<exists>ev. is_review ev \<and> events s' = events s @ [ev])"

definition settled :: "world \<Rightarrow> world \<Rightarrow> bool" where
  "settled s s' \<longleftrightarrow> events s' = events s \<and> (outputs_reviewed (pczt_parser s') \<longrightarrow> outputs_reviewed (pczt_parser s))"

lemma settled_refl [simp]: "settled s s"
  by (simp add: settled_def)

lemma trail_settled: "trail s' = trail s \<Longrightarrow> settled s s'"
  by (simp add: trail_def settled_def)

definition reviews :: "(world, 'e, 'a) sm \<Rightarrow> bool" where
  "reviews m \<longleftrightarrow> (\<forall>s. wp m
     (\<lambda>_ s'. settled s s' \<or> logged s s' \<and> outputs_reviewed (pczt_parser s'))
     (\<lambda>_ s'. events s' = events s \<or> logged s s') s)"

lemma reviews_keeps: "keeps trail m \<Longrightarrow> reviews m"
  unfolding reviews_def by (auto intro!: wpI dest: keepsD simp: trail_def settled_def)

lemma reviews_bnd:
  assumes "keeps trail m" "\<And>a. reviews (k a)"
  shows "reviews (bnd m k)"
  unfolding reviews_def wp_bnd
proof
  fix s
  show "wp m (\<lambda>a. wp (k a) (\<lambda>_ s'. settled s s' \<or> logged s s' \<and> outputs_reviewed (pczt_parser s'))
      (\<lambda>_ s'. events s' = events s \<or> logged s s')) (\<lambda>_ s'. events s' = events s \<or> logged s s') s"
  proof (rule wpI)
    fix a s1 assume "m s = (Inr a, s1)"
    then have "trail s1 = trail s" by (rule keepsD [OF assms(1)])
    then have e: "settled s1 = settled s" "logged s1 = logged s" "events s1 = events s"
      by (auto simp: trail_def settled_def logged_def fun_eq_iff)
    show "wp (k a) (\<lambda>_ s'. settled s s' \<or> logged s s' \<and> outputs_reviewed (pczt_parser s'))
      (\<lambda>_ s'. events s' = events s \<or> logged s s') s1"
      using assms(2) [unfolded reviews_def, rule_format, of a s1] by (simp add: e)
  qed (use assms(1) in \<open>auto dest: keepsD simp: trail_def\<close>)
qed

lemma reviews_review:
  assumes "\<And>u. keeps trail (k u)"
  shows "reviews (bnd (review_outputs E) k)"
  unfolding reviews_def wp_bnd
proof
  fix s
  have k: "wp (k u) (\<lambda>_ s'. settled s s' \<or> logged s s' \<and> outputs_reviewed (pczt_parser s'))
      (\<lambda>_ s'. events s' = events s \<or> logged s s') s1"
    if "logged s s1" "outputs_reviewed (pczt_parser s1)" for u s1
    by (rule wpI) (use that in \<open>auto dest!: keepsD [OF assms] simp: logged_def trail_def settled_def\<close>)
  show "wp (review_outputs E) (\<lambda>a. wp (k a)
      (\<lambda>_ s'. settled s s' \<or> logged s s' \<and> outputs_reviewed (pczt_parser s'))
      (\<lambda>_ s'. events s' = events s \<or> logged s s')) (\<lambda>_ s'. events s' = events s \<or> logged s s') s"
    unfolding review_outputs_def ui_display_tx_def
    apply (simp add: wp_simps vc_simps Let_def cong: wp_cong split del: if_split)
    apply (intro conjI allI impI k)
    by (simp_all add: logged_def settled_def)
qed

lemma reviews_finalize:
  "reviews (finalize_orchard_actions E)" "reviews (finalize_ironwood_actions E)" "reviews (finalize_actions E pl)"
proof -
  show o: "reviews (finalize_orchard_actions E)"
    unfolding finalize_orchard_actions_def get_p_def
    by (intro reviews_bnd log.keeps_more) (simp, intro conjI impI reviews_keeps log.keeps_more reviews_review keeps_rules)
  show i: "reviews (finalize_ironwood_actions E)"
    unfolding finalize_ironwood_actions_def get_p_def
    by (intro reviews_bnd log.keeps_more reviews_review keeps_rules)
  show "reviews (finalize_actions E pl)" by (cases pl) (simp_all add: o i)
qed

lemma reviews_if: "reviews m \<Longrightarrow> reviews k \<Longrightarrow> reviews (if b then m else k)"
  by simp

lemma reviews_let: "(\<And>a. reviews (l a)) \<Longrightarrow> reviews (Let z l)"
  by simp

lemma reviews_closing: "reviews (parse_trailer E pl)"
proof -
  have sd: "keeps trail (set_pool_digest pl d :: unit papp)" for d
    by (cases pl) (simp_all add: log.keeps_state)
  have v: "keeps trail (finish_value_sum_sign pl b)" for b
    unfolding finish_value_sum_sign_def by (intro log.keeps_more)
  show ?thesis
    unfolding parse_trailer_def finish_anchor_def
    by (intro reviews_bnd reviews_let log.keeps_more log.keeps_fields reviews_finalize v sd)
qed

lemma reviews_starts:
  "reviews (parse_orchard_actions_start E)" "reviews (parse_ironwood_actions_start E)"
  unfolding parse_orchard_actions_start_def parse_ironwood_actions_start_def
      reset_orchard_bundle_state_def reset_ironwood_bundle_state_def
    by (intro reviews_bnd reviews_if log.keeps_more reviews_finalize reviews_keeps; simp)+

text \<open>The sections that open withdraw the approval.\<close>

definition settles :: "(world, 'e, 'a) sm \<Rightarrow> bool" where
  "settles m \<longleftrightarrow> (\<forall>s. settled s (snd (m s)))"

lemma settles_keeps: "keeps trail m \<Longrightarrow> settles m"
  by (simp add: settles_def keeps_def trail_settled)

lemma settled_trans: "settled s s' \<Longrightarrow> settled s' s'' \<Longrightarrow> settled s s''"
  by (simp add: settled_def)

lemma settles_bnd:
  assumes "settles m" "\<And>a. settles (k a)"
  shows "settles (bnd m k)"
  unfolding settles_def
proof
  fix s
  show "settled s (snd (bnd m k s))"
  proof (cases "m s")
    case (Pair r s1)
    have m: "settled s s1" using assms(1) Pair unfolding settles_def by (metis snd_conv)
    then show ?thesis
      using assms(2) [unfolded settles_def] Pair
      by (cases r) (auto simp: bnd_def intro: settled_trans)
  qed
qed

lemma settles_seqs: "settles (seqs [])" "settles m \<Longrightarrow> settles (seqs ms) \<Longrightarrow> settles (seqs (m # ms))"
proof -
  show "settles (seqs [])" by (intro settles_keeps keeps_rules)
  then show "settles m \<Longrightarrow> settles (seqs ms) \<Longrightarrow> settles (seqs (m # ms))"
    by (cases ms) (simp_all add: seqs.simps settles_bnd)
qed

lemma settles_modify:
  "(\<And>p. outputs_reviewed (g p) \<Longrightarrow> outputs_reviewed p) \<Longrightarrow> settles (mod_p g)" "settles (mod_ss h)"
  by (simp_all add: settles_def mod_p_def mod_ss_def modify_def settled_def update_fun_eq(1) [of g])

lemma reviews_opens:
  "reviews (parse_transparent_inputs_start E)" "reviews (parse_transparent_outputs_start E)"
proof -
  have r: "reviews m" if "settles m" for m :: "unit papp"
    using that unfolding settles_def reviews_def
    by (intro allI wpI) (metis snd_conv settled_def)+
  show "reviews (parse_transparent_inputs_start E)" "reviews (parse_transparent_outputs_start E)"
    unfolding parse_transparent_inputs_start_def parse_transparent_outputs_start_def reset_orchard_bundle_state_def
    by (intro r settles_bnd settles_seqs; (rule settles_modify; simp; fail)?;
      intro settles_keeps log.keeps_more log.keeps_finalize; simp)+
qed

lemma reviews_steps:
  "reviews (transparent_inputs_step E)" "reviews (transparent_outputs_step E)"
  "reviews (orchard_step E)" "reviews (ironwood_step E)"
proof -
  have cs: "reviews (bnd (get_p pz_state) k)" if "\<And>st. reviews (k st)" for k :: "pczt_parser_state \<Rightarrow> unit papp"
    by (intro reviews_bnd log.keeps_more that)
  note r = reviews_closing reviews_starts reviews_opens
    reviews_keeps [OF keeps_pure(2)] log.keeps_pool [THEN reviews_keeps] log.keeps_inputs [THEN reviews_keeps]
    log.keeps_scripts [THEN reviews_keeps]
    log.keeps_transparent [THEN reviews_keeps] log.keeps_derivations [THEN reviews_keeps]
  show "reviews (transparent_inputs_step E)"
    unfolding transparent_inputs_step_def
    by (intro cs) (rename_tac st, case_tac st, simp_all add: r)
  have os: "reviews (bnd (mod_ti g) (\<lambda>_. parse_transparent_script_start E kind))" for g kind
    by (intro reviews_keeps keeps_bnd log.keeps_state log.keeps_scripts)
  show "reviews (transparent_outputs_step E)"
    unfolding transparent_outputs_step_def parse_transparent_output_script_start_def parse_transparent_output_script_def
    by (intro cs) (rename_tac st, case_tac st, simp_all add: r os)
  show "reviews (orchard_step E)" "reviews (ironwood_step E)"
    unfolding orchard_step_def ironwood_step_def pool_entry_defs
    by (intro cs, rename_tac st, case_tac st, simp_all add: r)+
qed

end
