(* ===== verification/Legacy_Frame.thy ===== *)
theory Legacy_Frame
  imports Legacy_Handlers Pczt_Footprint
begin

text \<open>
  What the legacy parsers leave untouched: the PCZT session, the log, the response, the flags of the
  context and the review mark.  The parser of the inputs works on the reader, the hashers, the
  transaction data, the trusted input and itself; it finds the requested output only when one was
  requested, and it is ready to sign only on the second pass over the inputs of a transaction to sign.
  The parser of the outputs also logs a swap check.  None of this rests on a law of the services.
\<close>

section \<open>The frame of the legacy parser\<close>

definition lfoot :: "world \<Rightarrow> (pczt_parser \<times> event list \<times> create_tx_params option \<times> bool)
    \<times> (bytes option \<times> bytes \<times> bool \<times> bool) \<times> (legacy_output_parser \<times> pending_vk_response option \<times> bool)
    \<times> nat \<times> nat \<times> bool \<times> nat \<times> bool \<times> legacy_parser_mode" where
  "lfoot s = ((pczt_parser s, events s, swap_params s, has_released_signature s),
     (comm_data s, comm_out s, is_extra_header_data_set s, is_finished_flag s),
     (legacy_output_parser s, vk_response s, is_vk_display_finished s),
     orchard_derivations s, ticks s, is_tx_parsed_once (tx_signing_state s),
     already_signed_input_count (tx_signing_state s),
     input_idx (trusted_input_info s) = None \<and> is_input_processed (trusted_input_info s),
     lg_mode (legacy_parser s))"

text \<open>What decides the end of a pass over the inputs: the mode and whether the outputs are reviewed.  The
  two final states of a transaction to sign are reached in its mode only, the second one after the
  review.\<close>

definition lkey :: "world \<Rightarrow> legacy_parser_mode \<times> bool" where
  "lkey s = (lg_mode (legacy_parser s), is_tx_parsed_once (tx_signing_state s))"

definition ends_ok :: "world \<Rightarrow> bool" where
  "ends_ok s \<longleftrightarrow>
     (lg_state (legacy_parser s) \<in> {LgTransactionPresignReady, LgTransactionReadyToSign} \<longrightarrow> fst (lkey s) = Signature)
   \<and> (lg_state (legacy_parser s) = LgTransactionReadyToSign \<longrightarrow> snd (lkey s))"

definition lrel :: "world \<Rightarrow> world \<Rightarrow> bool" where
  "lrel s s' \<longleftrightarrow> lfoot s' = lfoot s \<and> (ends_ok s \<longrightarrow> ends_ok s')"

lemma lrel_refl [simp]: "lrel s s"
  by (simp add: lrel_def)

lemma lrel_trans: "lrel s s' \<Longrightarrow> lrel s' s'' \<Longrightarrow> lrel s s''"
  by (simp add: lrel_def)

lemma lkey_foot: "lfoot s' = lfoot s \<Longrightarrow> lkey s' = lkey s"
  by (simp add: lfoot_def lkey_def)

lemma lrelI:
  assumes "lfoot s' = lfoot s" "lg_state (legacy_parser s') = lg_state (legacy_parser s)"
  shows "lrel s s'"
  using assms lkey_foot [OF assms(1)] by (simp add: lrel_def ends_ok_def)

lemma legacy_update_eq:
  "legacy_parser_update f s = s\<lparr> legacy_parser := f (legacy_parser s) \<rparr>"
  "legacy_output_parser_update g s = s\<lparr> legacy_output_parser := g (legacy_output_parser s) \<rparr>"
  "trusted_input_info_update h s = s\<lparr> trusted_input_info := h (trusted_input_info s) \<rparr>"
  for s :: world
  by (rule world.equality; simp)+

lemma wp_legacy_access [wp_simps]:
  "wp (mod_l f) Q R s = Q () (s\<lparr> legacy_parser := f (legacy_parser s) \<rparr>)"
  "wp (mod_lo g) Q R s = Q () (s\<lparr> legacy_output_parser := g (legacy_output_parser s) \<rparr>)"
  "wp (mod_tr h) Q R s = Q () (s\<lparr> trusted_input_info := h (trusted_input_info s) \<rparr>)"
  "wp (set_lg st) Q R s = Q () (s\<lparr> legacy_parser := (legacy_parser s)\<lparr> lg_state := st \<rparr> \<rparr>)"
  "wp (set_lo st') Q R s = Q () (s\<lparr> legacy_output_parser := (legacy_output_parser s)\<lparr> lo_state := st' \<rparr> \<rparr>)"
  unfolding mod_l_def mod_lo_def mod_tr_def set_lg_def set_lo_def wp_modify
  by (simp_all only: legacy_update_eq(1) [of f s] legacy_update_eq(2) [of g s] legacy_update_eq(3) [of h s]
      legacy_update_eq(1) [of "\<lambda>p. p\<lparr> lg_state := st \<rparr>" s] legacy_update_eq(2) [of "\<lambda>p. p\<lparr> lo_state := st' \<rparr>" s])

lemma wp_get_l [wp_simps]: "wp (get_l f) Q R s = Q (f (legacy_parser s)) s"
  by (simp add: get_l_def wp_simps)

section \<open>Programs that stay within the frame\<close>

text \<open>A program stays within the frame if its end is related to its start, for the modes \<open>c\<close> it runs in.\<close>

named_theorems stays_rules \<open>what stays within the frame of the legacy parser\<close>

definition stays :: "(legacy_parser_mode \<times> bool \<Rightarrow> bool) \<Rightarrow> (world, 'e, 'a) sm \<Rightarrow> bool" where
  "stays c m \<longleftrightarrow> (\<forall>s. c (lkey s) \<longrightarrow> lrel s (snd (m s)))"

lemma staysD: "stays c m \<Longrightarrow> c (lkey s) \<Longrightarrow> m s = (r, s') \<Longrightarrow> lrel s s'"
  unfolding stays_def by (metis snd_conv)

lemma stays_pure [stays_rules]:
  "stays c (ret a)" "stays c (throw e)" "stays c panic" "stays c diverge" "stays c (gets g)"
  "stays c (ensure b e)" "stays c (some_or x e)" "stays c (lift_r r)"
  by (simp_all add: stays_def ret_def throw_def panic_def diverge_def gets_def ensure_def some_or_def
      lift_r_def split: option.split)

lemma stays_bnd [stays_rules]:
  assumes "stays c m" "\<And>a. stays c (k a)"
  shows "stays c (bnd m k)"
  unfolding stays_def
proof (intro allI impI)
  fix s assume c: "c (lkey s)"
  obtain r s1 where m: "m s = (r, s1)" by (rule prod.exhaust)
  have r1: "lrel s s1" using assms(1) c m by (rule staysD)
  then have "c (lkey s1)" using c lkey_foot [of s1 s] by (simp add: lrel_def)
  then have "lrel s1 (snd (k a s1))" for a using assms(2) by (simp add: stays_def)
  then show "lrel s (snd (bnd m k s))"
    using r1 by (cases r) (auto simp: bnd_def m intro: lrel_trans)
qed

text \<open>What the program has read of the mode.\<close>

lemma stays_known:
  "(\<And>mode. stays (\<lambda>x. c x \<and> fst x = mode) (k mode)) \<Longrightarrow> stays c (bnd (get_l lg_mode) k)"
  "(\<And>b. stays (\<lambda>x. c x \<and> snd x = b) (k2 b)) \<Longrightarrow>
     stays c (bnd (gets (\<lambda>s. is_tx_parsed_once (tx_signing_state s))) k2)"
  "(\<And>p. stays (\<lambda>x. c x \<and> fst x = lg_mode p) (k3 p)) \<Longrightarrow> stays c (bnd (gets legacy_parser) k3)"
  by (simp_all add: stays_def bnd_def get_l_def gets_def lkey_def)

lemma stays_modify: "(\<And>s. c (lkey s) \<Longrightarrow> lrel s (g s)) \<Longrightarrow> stays c (modify g)"
  by (simp add: stays_def modify_def)

lemma stays_if [stays_rules]: "(b \<Longrightarrow> stays c m) \<Longrightarrow> (\<not> b \<Longrightarrow> stays c k) \<Longrightarrow> stays c (if b then m else k)"
  by simp

lemma stays_when [stays_rules]: "(b \<Longrightarrow> stays c m) \<Longrightarrow> stays c (when_do b m)"
  unfolding when_do_def by (simp add: stays_pure)

lemma stays_seqs [stays_rules]:
  "stays c (seqs [])" "stays c m \<Longrightarrow> stays c (seqs ms) \<Longrightarrow> stays c (seqs (m # ms))"
proof -
  show "stays c (seqs [])" by (simp add: seqs.simps stays_pure)
  show "stays c m \<Longrightarrow> stays c (seqs ms) \<Longrightarrow> stays c (seqs (m # ms))"
    by (cases ms) (simp_all add: seqs.simps stays_bnd)
qed

lemma stays_cases [stays_rules]:
  "stays c m \<Longrightarrow> (\<And>a. stays c (k a)) \<Longrightarrow> stays c (case x of None \<Rightarrow> m | Some a \<Rightarrow> k a)"
  "(\<And>a b. stays c (h a b)) \<Longrightarrow> stays c (case y of (a, b) \<Rightarrow> h a b)"
  "(\<And>a. stays c (l a)) \<Longrightarrow> stays c (Let z l)"
  "stays c m1 \<Longrightarrow> stays c m2 \<Longrightarrow> stays c m3 \<Longrightarrow> stays c (case v of SupV4 \<Rightarrow> m1 | SupV5 \<Rightarrow> m2 | SupV6 \<Rightarrow> m3)"
  by (auto split: option.split prod.split supported_tx_version.split)

lemma stays_catch_err [stays_rules]:
  assumes "stays c m" "\<And>e. stays c (h e)"
  shows "stays c (catch_err m h)"
  unfolding stays_def
proof (intro allI impI)
  fix s assume c: "c (lkey s)"
  obtain r s1 where m: "m s = (r, s1)" by (rule prod.exhaust)
  have r1: "lrel s s1" using assms(1) c m by (rule staysD)
  then have "c (lkey s1)" using c lkey_foot [of s1 s] by (simp add: lrel_def)
  then have "lrel s1 (snd (h e s1))" for e using assms(2) by (simp add: stays_def)
  then show "lrel s (snd (catch_err m h s))"
    using r1 by (auto simp: catch_err_def m intro: lrel_trans split: sum.split fault.split)
qed

lemma stays_while: "stays c m \<Longrightarrow> stays c (while_sm n b m)"
proof (induction n)
  case (Suc n)
  then have "stays c (bnd m (\<lambda>_. while_sm n b m))" by (intro stays_bnd) simp
  then show ?case by (simp add: stays_def)
qed (simp add: stays_def)

section \<open>The steps of the legacy parser\<close>

lemma stays_reads:
  "stays c (reader_new data)" "stays c (reader_read n)" "stays c (read_exact n)" "stays c read_u8"
  "stays c read_u32_le" "stays c (read_ext r)" "stays c (advance n)"
  unfolding reader_new_def reader_read_def read_exact_def read_u8_def read_u32_le_def read_ext_def advance_def
  by (intro stays_rules stays_modify lrelI; simp add: lfoot_def)+

lemma stays_state:
  "stays c (mod_ti t)" "stays c (mod_h h)" "stays c (get_ti q)" "stays c (get_l ql)"
  "(\<And>p. lg_mode (g p) = lg_mode p \<and> lg_state (g p) = lg_state p) \<Longrightarrow> stays c (mod_l g)"
  "(\<And>t. input_idx (k t) = input_idx t \<and> is_input_processed (k t) = is_input_processed t) \<Longrightarrow> stays c (mod_tr k)"
  "(\<And>x. is_tx_parsed_once (m x) = is_tx_parsed_once x \<and> already_signed_input_count (m x) = already_signed_input_count x)
     \<Longrightarrow> stays c (mod_ss m)"
  unfolding mod_ti_def mod_h_def mod_l_def mod_tr_def get_ti_def get_l_def mod_ss_def
  by (intro stays_modify stays_pure lrelI; simp add: lfoot_def legacy_update_eq(1) [of g] legacy_update_eq(3) [of k])+

lemma lrel_set_lg:
  assumes "st = LgTransactionPresignReady \<Longrightarrow> fst (lkey s) = Signature"
    and "st = LgTransactionReadyToSign \<Longrightarrow> fst (lkey s) = Signature \<and> snd (lkey s)"
  shows "lrel s (legacy_parser_update (\<lambda>p. p\<lparr> lg_state := st \<rparr>) s)"
  unfolding legacy_update_eq(1) [of "\<lambda>p. p\<lparr> lg_state := st \<rparr>"]
  using assms by (auto simp: lrel_def ends_ok_def lfoot_def lkey_def)

lemma stays_set_lg:
  "st \<notin> {LgTransactionPresignReady, LgTransactionReadyToSign} \<Longrightarrow> stays c (set_lg st)"
  "(\<And>x. c x \<Longrightarrow> fst x = Signature) \<Longrightarrow> stays c (set_lg LgTransactionPresignReady)"
  "(\<And>x. c x \<Longrightarrow> fst x = Signature \<and> snd x) \<Longrightarrow> stays c (set_lg LgTransactionReadyToSign)"
  unfolding set_lg_def mod_l_def by (rule stays_modify, rule lrel_set_lg; simp; fail)+

lemma stays_hashes:
  "stays c (h_init E r perso)" "stays c (h_update E r bs)" "stays c (h_write E r bs)"
  "stays c (finalize_and_log_hash E r)"
  unfolding h_init_def h_update_def h_write_def finalize_and_log_hash_def
  by (intro stays_rules stays_state)+

lemmas stays_basic = stays_rules stays_reads stays_state stays_set_lg(1) stays_hashes

lemma stays_version: "stays c legacy_version"
  unfolding legacy_version_def by (intro stays_basic)

lemma stays_v4:
  "stays c (v4_absorb L e bs)" "stays c (v4_update L bs)" "stays c (v4_write L bs)"
  "stays c (versioned_update E L r bs)" "stays c (versioned_write E L r bs)"
  unfolding v4_update_def v4_write_def v4_absorb_def versioned_update_def versioned_write_def
  by (intro stays_basic stays_version)+

lemma stays_readers:
  "stays c (hash_reader_chunk E r n)" "stays c (hash_reader_exact E r n msg)"
  "stays c (read_bounded_shielded_count E)"
  "(\<And>k. st k k \<notin> {LgTransactionPresignReady, LgTransactionReadyToSign}) \<Longrightarrow> stays c (begin_script st n)"
  "stays c (read_script_part n m)" "stays c (take_script n msg)" "stays c (check_trusted_input L ti)"
  "stays c (trusted_input_mode_ok m1)"
  unfolding hash_reader_chunk_def hash_reader_exact_def read_bounded_shielded_count_def begin_script_def
    read_script_part_def take_script_def check_trusted_input_def trusted_input_mode_ok.simps
  by (intro stays_basic; simp)+

lemma stays_digests:
  "stays c (finalize_signature_input_hash E)" "stays c (compute_no_transparent_input_signature_digest E n t)"
  "stays c (compute_transparent_input_signature_digest E d t)" "stays c (init_v5_tx_hashers E)"
  unfolding finalize_signature_input_hash_def compute_no_transparent_input_signature_digest_def
    compute_transparent_input_signature_digest_def finalize_signature_hash_def compute_header_digest_def
    finalize_signature_hash_from_transparent_digest_def init_v5_tx_hashers_def
  by (intro stays_basic)+

lemma stays_tx_id: "stays c (tx_id E)"
  unfolding tx_id_def tx_id_v5_v6_def by (intro stays_basic stays_version; simp)

lemmas stays_shared = stays_basic stays_version stays_v4 stays_readers stays_digests stays_tx_id

lemma stays_finish:
  "(\<And>x. c x \<Longrightarrow> fst x = Signature \<and> snd x = b) \<Longrightarrow> stays c (finish_signature_inputs E b)"
  unfolding finish_signature_inputs_def
  by (intro stays_shared stays_set_lg(2,3)) auto

lemma stays_init_hashers: "stays c (legacy_init_hashers E L mode version parsed n)"
  unfolding legacy_init_hashers_def
  by (cases mode; cases version; cases parsed; simp only: prod.case legacy_parser_mode.case legacy_tx_version.case
      bool.case; intro stays_shared)

lemma stays_header: "stays c (parse_legacy_header E L)"
proof -
  have k: "stays d (case (mode, parsed) of (Signature, False) \<Rightarrow> m1 | (Signature, True) \<Rightarrow> m2 | _ \<Rightarrow> m3)"
    if "mode = Signature \<Longrightarrow> \<not> parsed \<Longrightarrow> stays d m1" "mode = Signature \<Longrightarrow> parsed \<Longrightarrow> stays d m2" "stays d m3"
    for d mode parsed and m1 m2 m3 :: "unit papp"
    using that by (cases mode; cases parsed) simp_all
  show ?thesis
    unfolding parse_legacy_header_def
    apply (rule stays_bnd, intro stays_basic, rule stays_bnd, intro stays_basic, rule stays_bnd, intro stays_basic,
        rule stays_bnd, intro stays_basic, rule stays_bnd, intro stays_basic)
    apply (rule stays_known(1))
    apply (rule stays_known(2))
    apply (intro stays_bnd stays_if stays_when stays_init_hashers k stays_state stays_digests stays_set_lg(2,3))
    by (simp_all add: stays_set_lg(1))
qed

lemma stays_bundles: "stays c (enter_next_action_bundle E b)" "stays c (finish_sapling E d)"
  unfolding finish_sapling_def enter_next_action_bundle_def by (intro stays_shared; simp)+

lemma stays_requested:
  assumes "stays c rest"
  shows "stays c (bnd (gets (\<lambda>s. input_idx (trusted_input_info s))) (\<lambda>idx.
     bnd (some_or idx e) (\<lambda>requested_idx. bnd (get_l g) (\<lambda>parsed.
     bnd (when_do (requested_idx = word_of_nat parsed)
       (mod_tr (\<lambda>t. t\<lparr> ti_amount := a, is_input_processed := True \<rparr>))) (\<lambda>_. rest)))))"
proof -
  have same: "lrel s (s\<lparr> trusted_input_info := t \<rparr>)" "lkey (s\<lparr> trusted_input_info := t \<rparr>) = lkey s"
    if "input_idx (trusted_input_info s) = Some i" "input_idx t = Some i" for s t i
    using that by (auto intro!: lrelI simp: lfoot_def lkey_def)
  have r: "c (lkey s) \<Longrightarrow> lrel s (snd (rest s))" for s using assms by (simp add: stays_def)
  show ?thesis
    unfolding stays_def
  proof (intro allI impI)
    fix s assume c: "c (lkey s)"
    show "lrel s (snd (bnd (gets (\<lambda>s. input_idx (trusted_input_info s))) (\<lambda>idx.
        bnd (some_or idx e) (\<lambda>requested_idx. bnd (get_l g) (\<lambda>parsed.
        bnd (when_do (requested_idx = word_of_nat parsed)
          (mod_tr (\<lambda>t. t\<lparr> ti_amount := a, is_input_processed := True \<rparr>))) (\<lambda>_. rest)))) s))"
      using c
      by (cases "input_idx (trusted_input_info s)")
        (auto simp: bnd_def gets_def some_or_def ret_def throw_def get_l_def when_do_def mod_tr_def modify_def
          legacy_update_eq(3) [of "\<lambda>t. t\<lparr> ti_amount := a, is_input_processed := True \<rparr>"] same
          intro!: r lrel_trans [OF same(1) r])
  qed
qed

lemma stays_output: "stays c (parse_legacy_output E L)"
  unfolding parse_legacy_output_def
  by (rule stays_bnd, intro stays_basic, rule stays_bnd, intro stays_basic, rule stays_requested,
      intro stays_shared, simp)

lemma stays_input_script: "stays c (parse_legacy_input_script E L n m)"
proof -
  have tail: "stays c (bnd (gets (\<lambda>s. is_tx_parsed_once (tx_signing_state s))) (\<lambda>parsed_once.
      bnd (mm parsed_once) (\<lambda>_.
      bnd (mod_l (\<lambda>p. p\<lparr> lg_input_parsed_count := usize_saturating_add (lg_input_parsed_count p) 1 \<rparr>)) (\<lambda>_.
      bnd (gets legacy_parser) (\<lambda>p.
      if lg_input_count p = lg_input_parsed_count p then
        (if lg_mode p = Signature then finish_signature_inputs E parsed_once else set_lg LgInputHashingDone)
      else set_lg LgWaitInput)))))"
    if "\<And>b d. stays d (mm b)" for mm :: "bool \<Rightarrow> unit papp"
    apply (rule stays_known(2))
    apply (rule stays_bnd, rule that)
    apply (rule stays_bnd, rule stays_state, simp)
    apply (rule stays_known(3))
    apply (intro stays_if stays_finish stays_set_lg(1))
    by simp_all
  show ?thesis
    unfolding parse_legacy_input_script_def Let_def
    by (intro stays_shared tail; simp)
qed

lemma stays_transparent:
  "stays c (parse_input_signature_mode E L)" "stays c (parse_legacy_input E L)"
  "stays c (parse_input_hashing_done E L)"
  "stays c (parse_legacy_output_script E L n m)"
  "stays c (parse_output_hashing_done E)" "stays c (parse_process_extra E L)"
  unfolding parse_input_signature_mode_def parse_legacy_input_def 
    parse_input_hashing_done_def parse_legacy_output_script_def
    parse_output_hashing_done_def parse_process_extra_def
  by (intro stays_shared stays_bundles; simp)+

lemma stays_sapling:
  "stays c (parse_sapling E L)" "stays c (parse_sapling_spends E anchor)"
  "stays c (parse_sapling_spends_hashing E)" "stays c (parse_sapling_outputs_compact E)"
  "stays c (parse_sapling_outputs_memo E n m)" "stays c (parse_sapling_outputs_non_compact E)"
  "stays c (parse_sapling_output_hashing E)"
  unfolding parse_sapling_def parse_sapling_spends_def parse_sapling_spends_hashing_def
    parse_sapling_outputs_compact_def parse_sapling_outputs_memo_def parse_sapling_outputs_non_compact_def
    parse_sapling_output_hashing_def
  by (intro stays_shared stays_bundles; simp)+

lemma stays_actions:
  "stays c (parse_actions_compact E b)" "stays c (parse_actions_memo E b n m)"
  "stays c (parse_actions_noncompact E b)" "stays c (parse_actions_hashing E b)"
  unfolding parse_actions_compact_def parse_actions_memo_def parse_actions_noncompact_def parse_actions_hashing_def
  by (intro stays_shared stays_bundles; simp)+

lemma stays_step: "stays c (legacy_step E L)"
  unfolding legacy_step_def
  by (intro stays_basic; rename_tac p; case_tac "lg_state p";
      simp add: stays_header stays_input_script stays_transparent stays_output stays_sapling stays_actions stays_pure)

lemma stays_parse: "stays c (legacy_parse E L data)"
  unfolding legacy_parse_def by (intro stays_basic stays_while stays_step)

text \<open>Whatever packet the legacy parser is given, and whether or not it succeeds.\<close>

lemma legacy_parse_frame: "wp (legacy_parse E L data) (\<lambda>_. lrel s) (\<lambda>_. lrel s) s"
  by (rule wpI; rule staysD [OF stays_parse [of "\<lambda>_. True"]]; simp)

lemma lfoot_parse: "keeps lfoot (legacy_parse E L data)"
  using stays_parse [of "\<lambda>_. True" E L data] by (simp add: stays_def keeps_def lrel_def)

end
