(* ===== verification/Legacy_Steps.thy ===== *)
theory Legacy_Steps
  imports Legacy_Frame
begin

text \<open>
  The legacy parser never panics and its loop ends: the structural invariant of its states, and what
  each step does to it and to the measure of the loop.  The steps of a previous transaction (mode
  \<open>TrustedInput\<close>) are settled here.
\<close>

section \<open>Laws of the services\<close>

text \<open>A version is read from at most the bytes that are there, HMAC-SHA256 fills the eight bytes it is
  given, and a fresh SHA-256 context absorbs the version and the input count (the calls the source
  expects never to fail).\<close>

definition legacy_laws :: "env \<Rightarrow> legacy_env \<Rightarrow> bool" where
  "legacy_laws E L \<longleftrightarrow>
     (\<forall>bs v n. tx_version_read L bs = Some (v, n) \<longrightarrow> 1 \<le> n \<and> n \<le> length bs)
   \<and> (\<forall>key msg tag. hmac_sha256 L key msg = Some tag \<longrightarrow> length tag = 8)
   \<and> sha256_update_ok L [] (tx_version_write E TxV4)
   \<and> (\<forall>n. sha256_update_ok L (tx_version_write E TxV4) (compact_size_write E n))"

lemma tx_version_readD: "legacy_laws E L \<Longrightarrow> tx_version_read L bs = Some (v, n) \<Longrightarrow> 1 \<le> n \<and> n \<le> length bs"
  unfolding legacy_laws_def by blast

section \<open>The structural invariant and the measure\<close>

fun lg_script_ok :: "legacy_parser_state \<Rightarrow> bytes \<Rightarrow> bool" where
  "lg_script_ok (LgProcessInputScript n r) scr \<longleftrightarrow> r \<le> n \<and> n = length scr"
| "lg_script_ok (LgProcessOutputScript n r) scr \<longleftrightarrow> r \<le> n \<and> n = length scr"
| "lg_script_ok _ scr \<longleftrightarrow> True"

text \<open>A transaction whose version the application handles.\<close>

definition versioned :: "tx_info \<Rightarrow> bool" where
  "versioned t \<longleftrightarrow> has_version t \<and> (\<exists>v. supported_tx_version t = Inr v)"

definition lg_ok :: "world \<Rightarrow> bool" where
  "lg_ok s \<longleftrightarrow> (lg_state (legacy_parser s) \<noteq> LgNone \<longrightarrow> versioned (tx_info s))
     \<and> lg_script_ok (lg_state (legacy_parser s)) (lg_script_bytes (legacy_parser s))"

fun lg_rank :: "legacy_parser_state \<Rightarrow> nat" where
  "lg_rank (LgProcessOutputScript n r) = 1"
| "lg_rank LgProcessSaplingSpendsHashing = 1"
| "lg_rank (LgProcessSaplingOutputsMemo n r) = 1"
| "lg_rank LgProcessSaplingOutputHashing = 1"
| "lg_rank (LgProcessActionsMemo b n r) = 1"
| "lg_rank _ = 0"

definition lg_measure :: "world \<Rightarrow> nat" where
  "lg_measure s = 2 * remaining_len s + lg_rank (lg_state (legacy_parser s))"

text \<open>What a step of a previous transaction does.\<close>

definition trusted_post :: "world \<Rightarrow> unit \<Rightarrow> world \<Rightarrow> bool" where
  "trusted_post s u s' \<longleftrightarrow> lg_ok s' \<and> lg_mode (legacy_parser s') = TrustedInput
     \<and> lg_state (legacy_parser s') \<notin> {LgTransactionPresignReady, LgTransactionReadyToSign}
     \<and> lg_measure s' < lg_measure s"

definition fails :: "'e fault \<Rightarrow> world \<Rightarrow> bool" where
  "fails e s \<longleftrightarrow> just_fails e"

lemma fails_simps [simp]: "fails (Fail x) s" "\<not> fails Panic s" "\<not> fails Diverge s"
  by (simp_all add: fails_def)

lemma blake_fails: "blake_hash E perso cs = Inl e \<Longrightarrow> length perso = 16 \<Longrightarrow> fails e s"
  unfolding fails_def by (rule blake_hash_fault)

section \<open>Weakest preconditions of the shared pieces\<close>

lemma wp_legacy_version [wp_simps]:
  "supported_tx_version (tx_info s) = Inr v \<Longrightarrow> wp legacy_version Q R s = Q v s"
  by (simp add: legacy_version_def wp_simps)

lemma wp_v4 [wp_simps]:
  "wp (v4_update L bs) Q R s = (if sha256_update_ok L (v4_tx_hasher (hashers s)) bs
     then Q () (s\<lparr> hashers := (hashers s)\<lparr> v4_tx_hasher := v4_tx_hasher (hashers s) @ bs \<rparr> \<rparr>) else R (Fail Hash_Err) s)"
  "wp (v4_write L bs) Q R s = (if sha256_update_ok L (v4_tx_hasher (hashers s)) bs
     then Q () (s\<lparr> hashers := (hashers s)\<lparr> v4_tx_hasher := v4_tx_hasher (hashers s) @ bs \<rparr> \<rparr>) else R (Fail Io) s)"
  by (simp_all add: v4_update_def v4_write_def v4_absorb_def wp_simps)

definition absorb :: "supported_tx_version \<Rightarrow> hasher_ref \<Rightarrow> bytes \<Rightarrow> hashers \<Rightarrow> hashers" where
  "absorb v r bs h = (if v = SupV4 then h\<lparr> v4_tx_hasher := v4_tx_hasher h @ bs \<rparr>
     else snd r (\<lambda>_. (fst r h)\<lparr> b_data := b_data (fst r h) @ bs \<rparr>) h)"

definition absorbs :: "env \<Rightarrow> legacy_env \<Rightarrow> supported_tx_version \<Rightarrow> hasher_ref \<Rightarrow> bytes \<Rightarrow> hashers \<Rightarrow> bool" where
  "absorbs E L v r bs h \<longleftrightarrow> (if v = SupV4 then sha256_update_ok L (v4_tx_hasher h) bs
     else blake2b_update_ok E (fst r h) bs)"

lemma wp_versioned [wp_simps]:
  assumes "supported_tx_version (tx_info s) = Inr v"
  shows "wp (versioned_update E L r bs) Q R s = (if absorbs E L v r bs (hashers s)
      then Q () (s\<lparr> hashers := absorb v r bs (hashers s) \<rparr>) else R (Fail Hash_Err) s)"
    "wp (versioned_write E L r bs) Q R s = (if absorbs E L v r bs (hashers s)
      then Q () (s\<lparr> hashers := absorb v r bs (hashers s) \<rparr>) else R (Fail Io) s)"
  using assms by (cases v; simp add: versioned_update_def versioned_write_def wp_simps absorb_def absorbs_def)+

lemma take_remaining: "take (min n (remaining_len s)) (remaining_slice s) = take n (remaining_slice s)"
  by (simp add: min_def flip: length_remaining_slice)

lemma wp_hash_reader_exact [wp_simps]:
  "wp (hash_reader_exact E r n msg) Q R s =
     (if remaining_len s < n then R (Fail (Custom msg)) s
      else wp (h_update E r (take n (remaining_slice s))) (\<lambda>_ s'. Q () (s'\<lparr> rd_pos := rd_pos s + n \<rparr>)) R s)"
  by (auto simp: hash_reader_exact_def wp_simps remaining_len_def)

lemma wp_hash_reader_chunk [wp_simps]:
  "wp (hash_reader_chunk E r n) Q R s =
     wp (h_update E r (take n (remaining_slice s)))
       (\<lambda>_ s'. Q (n - min n (remaining_len s)) (s'\<lparr> rd_pos := rd_pos s + min n (remaining_len s) \<rparr>)) R s"
  by (simp add: hash_reader_chunk_def wp_simps Let_def take_remaining) (auto simp: remaining_len_def)

lemma wp_read_bounded [wp_simps]:
  "wp (read_bounded_shielded_count E) Q R s = (case compact_size_read E (remaining_slice s) of
      None \<Rightarrow> R (Fail Io) s
    | Some x \<Rightarrow> if MAX_LEGACY_SHIELDED_COUNT < fst x
        then R (Fail (Custom ''Too many shielded components'')) (s\<lparr> rd_pos := rd_pos s + snd x \<rparr>)
        else Q (fst x) (s\<lparr> rd_pos := rd_pos s + snd x \<rparr>))"
  by (auto simp: read_bounded_shielded_count_def wp_simps split: option.split)

lemma wp_begin_script [wp_simps]:
  "wp (begin_script st n) Q R s =
     Q () (s\<lparr> legacy_parser := (legacy_parser s)\<lparr> lg_state := st n n, lg_script_bytes := zeros n \<rparr> \<rparr>)"
  by (simp add: begin_script_def wp_simps)

definition splice :: "nat \<Rightarrow> bytes \<Rightarrow> bytes \<Rightarrow> bytes" where
  "splice offset bs script = take offset script @ bs @ drop (offset + length bs) script"

lemma length_splice [simp]: "offset + length bs \<le> length script \<Longrightarrow> length (splice offset bs script) = length script"
  by (simp add: splice_def)

lemma wp_read_script_part:
  assumes "lg_script_bytes (legacy_parser s) = scr" "r \<le> length scr"
    and "Q (r - min (remaining_len s) r) (s\<lparr> rd_pos := rd_pos s + min (remaining_len s) r,
      legacy_parser := (legacy_parser s)\<lparr> lg_script_bytes := splice (length scr - r) (take r (remaining_slice s)) scr \<rparr> \<rparr>)"
  shows "wp (read_script_part (length scr) r) Q R s"
  using assms by (simp add: read_script_part_def wp_simps Let_def splice_def min.commute)

lemma wp_take_script [wp_simps]:
  "wp (take_script n msg) Q R s =
     (if n = length (lg_script_bytes (legacy_parser s))
      then Q (lg_script_bytes (legacy_parser s)) (s\<lparr> legacy_parser := (legacy_parser s)\<lparr> lg_script_bytes := [] \<rparr> \<rparr>)
      else R (Fail (Custom msg)) s)"
  by (simp add: take_script_def wp_simps)

lemma remaining_simps [simp]:
  "remaining_len (s\<lparr> rd_pos := rd_pos s + n \<rparr>) = remaining_len s - n"
  by (simp add: remaining_len_def)

section \<open>The steps of a previous transaction\<close>

text \<open>What is known before a step: its state, a version the application handles, and input left.\<close>

definition trusted_pre :: "legacy_parser_state \<Rightarrow> world \<Rightarrow> bool" where
  "trusted_pre st s \<longleftrightarrow> lg_ok s \<and> lg_mode (legacy_parser s) = TrustedInput \<and> lg_state (legacy_parser s) = st
     \<and> 0 < remaining_len s"

lemma trusted_preE:
  assumes "trusted_pre st s" "st \<noteq> LgNone"
  obtains v where "supported_tx_version (tx_info s) = Inr v" "has_version (tx_info s)" "versioned (tx_info s)"
    "lg_script_ok st (lg_script_bytes (legacy_parser s))"
    "lg_mode (legacy_parser s) = TrustedInput" "lg_state (legacy_parser s) = st" "0 < remaining_len s"
  using assms unfolding trusted_pre_def lg_ok_def versioned_def by blast

lemmas trusted_defs = trusted_post_def lg_ok_def lg_measure_def

lemma compact_size_rem:
  assumes "codec_laws E" "compact_size_read E (remaining_slice s) = Some (n, k)"
  shows "1 \<le> k \<and> k \<le> length (rd_buf s) - rd_pos s"
  using compact_size_readD [OF assms] by (simp add: remaining_len_def)

lemmas trusted_simps = wp_simps vc_simps trusted_defs remaining_len_def

lemma input_wp:
  assumes E: "codec_laws E" and pre: "trusted_pre LgWaitInput s"
  shows "wp (parse_legacy_input E L) (trusted_post s) fails s"
proof -
  obtain v where v: "supported_tx_version (tx_info s) = Inr v" "versioned (tx_info s)" "lg_mode (legacy_parser s) = TrustedInput"
    using pre by (rule trusted_preE) simp
  show ?thesis
    unfolding parse_legacy_input_def
    by (auto simp: trusted_simps v cong: wp_cong dest!: outpoint_readD [OF E] split del: if_split)
qed

lemma input_script_wp:
  assumes E: "codec_laws E" and pre: "trusted_pre (LgProcessInputScript n r) s"
  shows "wp (parse_legacy_input_script E L n r) (trusted_post s) fails s"
proof -
  obtain v where v: "supported_tx_version (tx_info s) = Inr v" "versioned (tx_info s)" "lg_mode (legacy_parser s) = TrustedInput"
    "r \<le> n" "n = length (lg_script_bytes (legacy_parser s))" "lg_state (legacy_parser s) = LgProcessInputScript n r"
    "0 < remaining_len s"
    using pre by (rule trusted_preE) auto
  show ?thesis
    unfolding parse_legacy_input_script_def wp_bnd v(5)
    apply (rule wp_read_script_part [OF refl])
    subgoal using v(4,5) by simp
    using v(1-4,6,7) by (auto simp: trusted_simps v(5) [symmetric] Let_def cong: wp_cong split del: if_split)
qed

lemma outputs_count_wp:
  assumes E: "codec_laws E" and pre: "trusted_pre LgInputHashingDone s"
  shows "wp (parse_input_hashing_done E L) (trusted_post s) fails s"
proof -
  obtain v where v: "supported_tx_version (tx_info s) = Inr v" "versioned (tx_info s)" "lg_mode (legacy_parser s) = TrustedInput"
    "lg_state (legacy_parser s) = LgInputHashingDone" "0 < remaining_len s"
    using pre by (rule trusted_preE) simp
  show ?thesis
    using v(5) unfolding parse_input_hashing_done_def
    by (auto simp: trusted_simps v cong: wp_cong dest!: compact_size_rem [OF E] split del: if_split)
qed

lemma output_wp:
  assumes E: "codec_laws E" and pre: "trusted_pre LgWaitOutput s"
  shows "wp (parse_legacy_output E L) (trusted_post s) fails s"
proof -
  obtain v where v: "supported_tx_version (tx_info s) = Inr v" "versioned (tx_info s)" "lg_mode (legacy_parser s) = TrustedInput"
    "lg_state (legacy_parser s) = LgWaitOutput" "0 < remaining_len s"
    using pre by (rule trusted_preE) simp
  show ?thesis
    using v(5) unfolding parse_legacy_output_def
    by (auto simp: trusted_simps v cong: wp_cong split del: if_split)
qed

lemma output_script_wp:
  assumes E: "codec_laws E" and pre: "trusted_pre (LgProcessOutputScript n r) s"
  shows "wp (parse_legacy_output_script E L n r) (trusted_post s) fails s"
proof -
  obtain v where v: "supported_tx_version (tx_info s) = Inr v" "versioned (tx_info s)" "lg_mode (legacy_parser s) = TrustedInput"
    "r \<le> n" "n = length (lg_script_bytes (legacy_parser s))" "lg_state (legacy_parser s) = LgProcessOutputScript n r"
    "0 < remaining_len s"
    using pre by (rule trusted_preE) auto
  show ?thesis
    unfolding parse_legacy_output_script_def wp_bnd v(5)
    apply (rule wp_read_script_part [OF refl])
    subgoal using v(4,5) by simp
    using v(1-4,6,7) apply (auto simp: trusted_simps v(5) [symmetric] cong: wp_cong split del: if_split)
    by (auto simp: min_def split: if_splits)
qed

lemma bundle_perso_lengths [simp]:
  "length (compact_personalization b) = 16" "length (memos_personalization b) = 16"
  "length (noncompact_personalization b) = 16"
  by (cases b; simp)+

lemma wp_enter_bundle:
  assumes "\<And>st p. st \<in> {LgProcessExtra, LgProcessActionsCompact BundleOrchard, LgProcessActionsCompact BundleIronwood}
      \<Longrightarrow> lg_mode p = lg_mode (legacy_parser s) \<Longrightarrow> (\<And>h. Q () (s\<lparr> hashers := h, legacy_parser := p\<lparr> lg_state := st \<rparr> \<rparr>))"
    and "R (Fail Hash_Err) s"
  shows "wp (enter_next_action_bundle E b) Q R s"
proof -
  have same: "s\<lparr> legacy_parser := p \<rparr> = s\<lparr> hashers := hashers s, legacy_parser := p \<rparr>" for p by simp
  show ?thesis
    unfolding enter_next_action_bundle_def
    apply (simp add: wp_simps vc_simps cong: wp_cong)
    apply (intro conjI allI impI)
    subgoal by (subst same) (rule assms(1); simp)
    subgoal for bd using assms(1) [of "LgProcessActionsCompact bd" "(legacy_parser s)\<lparr> lg_action_parsed_count := 0 \<rparr>"]
      by (cases bd) simp_all
    by (rule assms(2))
qed

text \<open>A step whose last call enters the next bundle.\<close>

lemma enter_bundle_post:
  assumes "versioned (tx_info s)" "lg_mode (legacy_parser s) = TrustedInput"
    and "2 * remaining_len s < lg_measure s0"
  shows "wp (enter_next_action_bundle E b) (trusted_post s0) fails s"
  by (rule wp_enter_bundle) (use assms in \<open>auto simp: trusted_defs remaining_len_def\<close>)

lemma enter_bundle_last:
  assumes "versioned (tx_info s)" "lg_mode (legacy_parser s) = TrustedInput"
    and "2 * remaining_len s < lg_measure s0"
  shows "wp (enter_next_action_bundle E b) (\<lambda>_. wp (seqs []) (trusted_post s0) fails) fails s"
  using enter_bundle_post [OF assms] by (rule wp_mono) (simp_all add: wp_simps)

lemma output_hashing_done_wp:
  assumes E: "codec_laws E" and pre: "trusted_pre LgOutputHashingDone s"
  shows "wp (parse_output_hashing_done E) (trusted_post s) fails s"
proof -
  obtain v where v: "supported_tx_version (tx_info s) = Inr v" "versioned (tx_info s)" "lg_mode (legacy_parser s) = TrustedInput"
    "lg_state (legacy_parser s) = LgOutputHashingDone" "0 < remaining_len s"
    using pre by (rule trusted_preE) simp
  show ?thesis
    using v(5) unfolding parse_output_hashing_done_def
    by (auto simp: trusted_simps v cong: wp_cong intro!: enter_bundle_post dest!: compact_size_rem [OF E] split del: if_split)
qed

lemma sapling_wp:
  assumes pre: "trusted_pre LgProcessSapling s"
  shows "wp (parse_sapling E L) (trusted_post s) fails s"
proof -
  obtain v where v: "supported_tx_version (tx_info s) = Inr v" "versioned (tx_info s)" "lg_mode (legacy_parser s) = TrustedInput"
    "lg_state (legacy_parser s) = LgProcessSapling" "0 < remaining_len s"
    using pre by (rule trusted_preE) simp
  show ?thesis
    using v(5) unfolding parse_sapling_def
    by (auto simp: trusted_simps v cong: wp_cong intro: blake_fails split del: if_split)
qed

lemma sapling_spends_wp:
  assumes pre: "trusted_pre (LgProcessSaplingSpends anchor) s"
  shows "wp (parse_sapling_spends E anchor) (trusted_post s) fails s"
proof -
  obtain v where v: "supported_tx_version (tx_info s) = Inr v" "versioned (tx_info s)" "lg_mode (legacy_parser s) = TrustedInput"
    "lg_state (legacy_parser s) = LgProcessSaplingSpends anchor" "0 < remaining_len s"
    using pre by (rule trusted_preE) simp
  show ?thesis
    using v(5) unfolding parse_sapling_spends_def
    by (cases anchor) (auto simp: trusted_simps v cong: wp_cong split del: if_split)
qed

lemma finish_sapling_wp:
  assumes "versioned (tx_info s)" "lg_mode (legacy_parser s) = TrustedInput"
    and "2 * remaining_len s < lg_measure s0"
  shows "wp (finish_sapling E d) (trusted_post s0) fails s"
  unfolding finish_sapling_def
  by (auto simp: wp_simps vc_simps cong: wp_cong intro!: enter_bundle_post) (use assms in \<open>simp_all add: remaining_len_def\<close>)

lemma sapling_spends_hashing_wp:
  assumes pre: "trusted_pre LgProcessSaplingSpendsHashing s"
  shows "wp (parse_sapling_spends_hashing E) (trusted_post s) fails s"
proof -
  obtain v where v: "supported_tx_version (tx_info s) = Inr v" "versioned (tx_info s)" "lg_mode (legacy_parser s) = TrustedInput"
    "lg_state (legacy_parser s) = LgProcessSaplingSpendsHashing" "0 < remaining_len s"
    using pre by (rule trusted_preE) simp
  show ?thesis
    using v(5) unfolding parse_sapling_spends_hashing_def
    by (auto simp: trusted_simps v cong: wp_cong intro: blake_fails intro!: finish_sapling_wp split del: if_split)
qed

lemma sapling_outputs_compact_wp:
  assumes pre: "trusted_pre LgProcessSaplingOutputsCompact s"
  shows "wp (parse_sapling_outputs_compact E) (trusted_post s) fails s"
proof -
  obtain v where v: "supported_tx_version (tx_info s) = Inr v" "versioned (tx_info s)" "lg_mode (legacy_parser s) = TrustedInput"
    "lg_state (legacy_parser s) = LgProcessSaplingOutputsCompact" "0 < remaining_len s"
    using pre by (rule trusted_preE) simp
  show ?thesis
    using v(5) unfolding parse_sapling_outputs_compact_def
    by (auto simp: trusted_simps v SAPLING_OUTPUTS_COMPACT_SIZE_def cong: wp_cong split del: if_split)
qed

lemma sapling_outputs_memo_wp:
  assumes pre: "trusted_pre (LgProcessSaplingOutputsMemo n r) s"
  shows "wp (parse_sapling_outputs_memo E n r) (trusted_post s) fails s"
proof -
  obtain v where v: "supported_tx_version (tx_info s) = Inr v" "versioned (tx_info s)" "lg_mode (legacy_parser s) = TrustedInput"
    "lg_state (legacy_parser s) = LgProcessSaplingOutputsMemo n r" "0 < remaining_len s"
    using pre by (rule trusted_preE) simp
  show ?thesis
    using v(5) unfolding parse_sapling_outputs_memo_def
    by (auto simp: trusted_simps v min_def cong: wp_cong)
qed

lemma sapling_outputs_noncompact_wp:
  assumes pre: "trusted_pre LgProcessSaplingOutputsNonCompact s"
  shows "wp (parse_sapling_outputs_non_compact E) (trusted_post s) fails s"
proof -
  obtain v where v: "supported_tx_version (tx_info s) = Inr v" "versioned (tx_info s)" "lg_mode (legacy_parser s) = TrustedInput"
    "lg_state (legacy_parser s) = LgProcessSaplingOutputsNonCompact" "0 < remaining_len s"
    using pre by (rule trusted_preE) simp
  show ?thesis
    using v(5) unfolding parse_sapling_outputs_non_compact_def
    by (auto simp: trusted_simps v SAPLING_OUTPUTS_NONCOMPACT_SIZE_def cong: wp_cong split del: if_split)
qed

lemma sapling_output_hashing_wp:
  assumes pre: "trusted_pre LgProcessSaplingOutputHashing s"
  shows "wp (parse_sapling_output_hashing E) (trusted_post s) fails s"
proof -
  obtain v where v: "supported_tx_version (tx_info s) = Inr v" "versioned (tx_info s)" "lg_mode (legacy_parser s) = TrustedInput"
    "lg_state (legacy_parser s) = LgProcessSaplingOutputHashing" "0 < remaining_len s"
    using pre by (rule trusted_preE) simp
  show ?thesis
    using v(5) unfolding parse_sapling_output_hashing_def
    by (auto simp: trusted_simps v cong: wp_cong intro: blake_fails intro!: finish_sapling_wp split del: if_split)
qed

section \<open>The actions of a previous transaction\<close>

lemma actions_compact_wp:
  assumes pre: "trusted_pre (LgProcessActionsCompact b) s"
  shows "wp (parse_actions_compact E b) (trusted_post s) fails s"
proof -
  obtain v where v: "supported_tx_version (tx_info s) = Inr v" "versioned (tx_info s)" "lg_mode (legacy_parser s) = TrustedInput"
    "lg_state (legacy_parser s) = LgProcessActionsCompact b" "0 < remaining_len s"
    using pre by (rule trusted_preE) simp
  show ?thesis
    using v(5) unfolding parse_actions_compact_def
    by (auto simp: trusted_simps v Let_def ORCHARD_ACTIONS_COMPACT_SIZE_def cong: wp_cong split del: if_split)
qed

lemma actions_memo_wp:
  assumes pre: "trusted_pre (LgProcessActionsMemo b n r) s"
  shows "wp (parse_actions_memo E b n r) (trusted_post s) fails s"
proof -
  obtain v where v: "supported_tx_version (tx_info s) = Inr v" "versioned (tx_info s)" "lg_mode (legacy_parser s) = TrustedInput"
    "lg_state (legacy_parser s) = LgProcessActionsMemo b n r" "0 < remaining_len s"
    using pre by (rule trusted_preE) simp
  show ?thesis
    using v(5) unfolding parse_actions_memo_def
    by (auto simp: trusted_simps v min_def cong: wp_cong)
qed

lemma actions_noncompact_wp:
  assumes pre: "trusted_pre (LgProcessActionsNonCompact b) s"
  shows "wp (parse_actions_noncompact E b) (trusted_post s) fails s"
proof -
  obtain v where v: "supported_tx_version (tx_info s) = Inr v" "versioned (tx_info s)" "lg_mode (legacy_parser s) = TrustedInput"
    "lg_state (legacy_parser s) = LgProcessActionsNonCompact b" "0 < remaining_len s"
    using pre by (rule trusted_preE) simp
  show ?thesis
    using v(5) unfolding parse_actions_noncompact_def
    by (auto simp: trusted_simps v ORCHARD_ACTIONS_NONCOMPACT_SIZE_def cong: wp_cong split del: if_split)
qed

lemma actions_hashing_wp:
  assumes pre: "trusted_pre (LgProcessActionsHashing b) s"
  shows "wp (parse_actions_hashing E b) (trusted_post s) fails s"
proof -
  obtain v where v: "supported_tx_version (tx_info s) = Inr v" "versioned (tx_info s)" "lg_mode (legacy_parser s) = TrustedInput"
    "lg_state (legacy_parser s) = LgProcessActionsHashing b" "0 < remaining_len s"
    using pre by (rule trusted_preE) simp
  have n: "0 < (if v = SupV6 then ACTIONS_DIGEST_DATA_SIZE else ACTIONS_DIGEST_DATA_SIZE_V5)"
    by (simp add: ACTIONS_DIGEST_DATA_SIZE_V5_def ACTIONS_DIGEST_DATA_SIZE_def)
  show ?thesis
    using v(5) n unfolding parse_actions_hashing_def
    by (auto simp: trusted_simps v Let_def cong: wp_cong intro!: enter_bundle_last split del: if_split)
qed

end
