(* ===== verification/Example_Device.thy ===== *)
theory Example_Device
  imports Pczt_Invariant Account Legacy_Steps "HOL-Library.Code_Target_Numeral"
begin

text \<open>
  A concrete device: simple readers, hash functions and keys that satisfy the laws of the environment,
  with the services of the account and legacy commands.  The witnesses of the development run on it.
\<close>

section \<open>A device\<close>

definition ex_compact_size_read :: "bytes \<Rightarrow> (nat \<times> nat) option" where
  "ex_compact_size_read bs = (case bs of
       [] \<Rightarrow> None
     | b # r \<Rightarrow> if b < 253 then Some (unat b, 1)
         else if b = 253 then (case r of x # y # _ \<Rightarrow> Some (unat x + 256 * unat y, 3) | _ \<Rightarrow> None)
         else None)"

definition ex_zatoshis :: "bytes \<Rightarrow> u64 option" where
  "ex_zatoshis bs = (let n = nat_of_le bs in if n \<le> MAX_MONEY then Some (word_of_nat n) else None)"

definition ex_outpoint_read :: "bytes \<Rightarrow> ((bytes \<times> u32) \<times> nat) option" where
  "ex_outpoint_read bs =
     (if 36 \<le> length bs then Some ((take 32 bs, u32_from_le_bytes (take 4 (drop 32 bs))), 36) else None)"

definition ex_flags_read :: "bundle_version \<Rightarrow> bytes \<Rightarrow> (bytes \<times> nat) option" where
  "ex_flags_read v bs = (case bs of b # _ \<Rightarrow> Some ([b], 1) | [] \<Rightarrow> None)"

definition ex_digest :: "nat \<Rightarrow> bytes \<Rightarrow> bytes" where
  "ex_digest n bs = take n (bs @ zeros n)"

definition ex_env :: env where
  "ex_env = \<lparr>
     compact_size_read = ex_compact_size_read, compact_size_write = (\<lambda>n. [word_of_nat n]),
     zatoshis_from_nonnegative_i64_le_bytes = ex_zatoshis, outpoint_read = ex_outpoint_read,
     outpoint_write = (\<lambda>(h, i). h @ u32_to_le_bytes i), branch_id_known = (\<lambda>b. b = 0x4DEC4DF0),
     tx_version_write = (\<lambda>_. [5, 0, 0, 0x80, 0x0A, 0x27, 0xA7, 0x26]), orchard_read_flags = ex_flags_read,
     orchard_flags_to_byte = (\<lambda>_ fl. Some (fl ! 0)), V5_TX_VERSION = 5, V5_VERSION_GROUP_ID = 0x26A7270A,
     bs58_encode = (\<lambda>bs. Some (map (\<lambda>b. char_of (unat b mod 128)) bs)), unified_address_encode = (\<lambda>_ _. Some ''u1''),
     blake2b_256_digest = (\<lambda>h. ex_digest 32 (rev (b_data h))), blake2b_init_ok = (\<lambda>_. True),
     blake2b_update_ok = (\<lambda>_ _. True), blake2b_final_ok = (\<lambda>_. True),
     sha256_hash = (\<lambda>bs. Some (ex_digest 32 bs)), ripemd160_hash = (\<lambda>bs. Some (ex_digest 20 bs)),
     secp256k1_public_key = (\<lambda>p. Some (4 # zeros 64)), secp256k1_chain_code = (\<lambda>p. Some (zeros 32)),
     secp256k1_deterministic_sign = (\<lambda>p d. Some (0x30 # take 4 d, 0)), zip32_orchard_derive = (\<lambda>_ _. Some (zeros 32)),
     orchard_sk_from_bytes_ledger = (\<lambda>bs. Inr bs), orchard_fvk_of_sk = (\<lambda>_. Inr (zeros 96)),
     orchard_ask_of_sk = (\<lambda>bs. Inr bs), fvk_to_ivk_ledger = (\<lambda>_ _. Inr (zeros 64)),
     fvk_to_ovk_ledger = (\<lambda>_ _. Inr (zeros 32)), pallas_scalar_from_repr = (\<lambda>bs. Inr bs),
     randomized_verification_key_bytes = (\<lambda>_ _. Inr (zeros 32)), randomize_ledger = (\<lambda>bs _. Inr bs),
     sign_ledger = (\<lambda>_ _ d. Inr (d @ d)),
     decipher_compact_value = (\<lambda>_ _ _. Inr None), decipher_value_with_ovk = (\<lambda>_ _ _. Inr None),
     orchard_note_commitment_bytes = (\<lambda>_ _ _ _. Inr (zeros 32)),
     orchard_note_commitment_v3_bytes = (\<lambda>_ _ _ _. Inr (zeros 32)),
     orchard_value_commitment_bytes = (\<lambda>_ _. Inr (zeros 32)),
     orchard_spend_nullifier_bytes = (\<lambda>_ _ _ _ _. Inr (zeros 32)),
     orchard_spend_nullifier_bytes_v3 = (\<lambda>_ _ _ _ _. Inr (zeros 32)),
     diversify_hash_ledger = (\<lambda>_. Inr (zeros 32)), orchard_pk_d = (\<lambda>_ _. Inr (zeros 32)),
     try_reserve_ok = (\<lambda>_ _. True), cx_get_random_bytes = (\<lambda>_ n. Some (zeros n)), review_show = (\<lambda>_ _. True) \<rparr>"

lemma ex_env_simps [simp]:
  "compact_size_read ex_env = ex_compact_size_read"
  "compact_size_write ex_env = (\<lambda>n. [word_of_nat n])"
  "zatoshis_from_nonnegative_i64_le_bytes ex_env = ex_zatoshis"
  "outpoint_read ex_env = ex_outpoint_read"
  "outpoint_write ex_env = (\<lambda>(h, i). h @ u32_to_le_bytes i)"
  "branch_id_known ex_env = (\<lambda>b. b = 0x4DEC4DF0)"
  "tx_version_write ex_env = (\<lambda>_. [5, 0, 0, 0x80, 0x0A, 0x27, 0xA7, 0x26])"
  "orchard_read_flags ex_env = ex_flags_read"
  "orchard_flags_to_byte ex_env = (\<lambda>_ fl. Some (fl ! 0))"
  "V5_TX_VERSION ex_env = 5"
  "V5_VERSION_GROUP_ID ex_env = 0x26A7270A"
  "bs58_encode ex_env = (\<lambda>bs. Some (map (\<lambda>b. char_of (unat b mod 128)) bs))"
  "unified_address_encode ex_env = (\<lambda>_ _. Some ''u1'')"
  "blake2b_256_digest ex_env = (\<lambda>h. ex_digest 32 (rev (b_data h)))"
  "blake2b_init_ok ex_env = (\<lambda>_. True)"
  "blake2b_update_ok ex_env = (\<lambda>_ _. True)"
  "blake2b_final_ok ex_env = (\<lambda>_. True)"
  "sha256_hash ex_env = (\<lambda>bs. Some (ex_digest 32 bs))"
  "ripemd160_hash ex_env = (\<lambda>bs. Some (ex_digest 20 bs))"
  "secp256k1_public_key ex_env = (\<lambda>p. Some (4 # zeros 64))"
  "secp256k1_chain_code ex_env = (\<lambda>p. Some (zeros 32))"
  "secp256k1_deterministic_sign ex_env = (\<lambda>p d. Some (0x30 # take 4 d, 0))"
  "zip32_orchard_derive ex_env = (\<lambda>_ _. Some (zeros 32))"
  "orchard_sk_from_bytes_ledger ex_env = (\<lambda>bs. Inr bs)"
  "orchard_fvk_of_sk ex_env = (\<lambda>_. Inr (zeros 96))"
  "orchard_ask_of_sk ex_env = (\<lambda>bs. Inr bs)"
  "fvk_to_ivk_ledger ex_env = (\<lambda>_ _. Inr (zeros 64))"
  "fvk_to_ovk_ledger ex_env = (\<lambda>_ _. Inr (zeros 32))"
  "pallas_scalar_from_repr ex_env = (\<lambda>bs. Inr bs)"
  "randomized_verification_key_bytes ex_env = (\<lambda>_ _. Inr (zeros 32))"
  "randomize_ledger ex_env = (\<lambda>bs _. Inr bs)"
  "sign_ledger ex_env = (\<lambda>_ _ d. Inr (d @ d))"
  "decipher_compact_value ex_env = (\<lambda>_ _ _. Inr None)"
  "decipher_value_with_ovk ex_env = (\<lambda>_ _ _. Inr None)"
  "orchard_note_commitment_bytes ex_env = (\<lambda>_ _ _ _. Inr (zeros 32))"
  "orchard_note_commitment_v3_bytes ex_env = (\<lambda>_ _ _ _. Inr (zeros 32))"
  "orchard_value_commitment_bytes ex_env = (\<lambda>_ _. Inr (zeros 32))"
  "orchard_spend_nullifier_bytes ex_env = (\<lambda>_ _ _ _ _. Inr (zeros 32))"
  "orchard_spend_nullifier_bytes_v3 ex_env = (\<lambda>_ _ _ _ _. Inr (zeros 32))"
  "diversify_hash_ledger ex_env = (\<lambda>_. Inr (zeros 32))"
  "orchard_pk_d ex_env = (\<lambda>_ _. Inr (zeros 32))"
  "try_reserve_ok ex_env = (\<lambda>_ _. True)"
  "cx_get_random_bytes ex_env = (\<lambda>_ n. Some (zeros n))"
  "review_show ex_env = (\<lambda>_ _. True)"
  by (simp_all add: ex_env_def)

lemma ex_codec_laws: "codec_laws ex_env"
proof -
  have "1 \<le> n \<and> n \<le> length bs \<and> n \<le> 9" if "ex_compact_size_read bs = Some (v, n)" for bs v n
    using that by (auto simp: ex_compact_size_read_def split: list.splits if_splits)
  moreover have "unat v = nat_of_le bs \<and> unat v \<le> MAX_MONEY" if "ex_zatoshis bs = Some v" for bs v
  proof -
    have n: "nat_of_le bs \<le> MAX_MONEY" "v = word_of_nat (nat_of_le bs)"
      using that by (auto simp: ex_zatoshis_def Let_def split: if_splits)
    then have "unat v = nat_of_le bs" by (simp add: unat_of_nat MAX_MONEY_def)
    with n show ?thesis by simp
  qed
  moreover have "n = 36 \<and> 36 \<le> length bs \<and> (\<lambda>(h, i). h @ u32_to_le_bytes i) x = take 36 bs"
    if "ex_outpoint_read bs = Some (x, n)" for bs x n
  proof -
    have l: "36 \<le> length bs" "x = (take 32 bs, u32_from_le_bytes (take 4 (drop 32 bs)))" "n = 36"
      using that by (auto simp: ex_outpoint_read_def split: if_splits)
    let ?w = "take 4 (drop 32 bs)"
    have "nat_of_le ?w < 2 ^ 32" using nat_of_le_bound [of ?w] l(1) by simp
    then have "unat (u32_from_le_bytes ?w) = nat_of_le ?w" by (simp add: u32_from_le_bytes_def unat_of_nat)
    then have "u32_to_le_bytes (u32_from_le_bytes ?w) = ?w"
      using l(1) by (simp add: u32_to_le_bytes_def codec_simps)
    then show ?thesis using l take_add [of 32 4 bs] by simp
  qed
  moreover have "n = 1 \<and> 1 \<le> length bs" if "ex_flags_read v bs = Some (x, n)" for v bs x n
    using that by (auto simp: ex_flags_read_def split: list.splits)
  ultimately show ?thesis unfolding codec_laws_def ex_env_simps by blast
qed

lemma ex_env_laws: "env_laws ex_env"
  unfolding env_laws_def hash_laws_def key_laws_def note_laws_def
  using ex_codec_laws by (simp add: ex_digest_def min_def split: pool.split)

definition ex_account :: account_env where
  "ex_account = \<lparr> address_at_ledger = (\<lambda>_ _. Inr (zeros 43)), ufvk_encode = (\<lambda>_ _ _. Some ''uview1''),
     address_review_show = (\<lambda>_ _. True), build_target = Stax, cargo_pkg_version = ''3.9.3'' \<rparr>"

definition ex_legacy :: legacy_env where
  "ex_legacy = \<lparr> tx_version_read = (\<lambda>bs. if 8 \<le> length bs then Some (ReadV5, 8) else None),
     zat_balance_from_i64_le_bytes = (\<lambda>bs. Some 0), hmac_sha256 = (\<lambda>key msg. Some (ex_digest 8 (rev msg))),
     sha256_update_ok = (\<lambda>_ _. True), trusted_input_key = Some (zeros 32) \<rparr>"

lemma ex_legacy_laws: "legacy_laws ex_env ex_legacy"
  by (auto simp: legacy_laws_def ex_legacy_def ex_digest_def split: if_splits)

definition ex_start :: world where
  "ex_start = init_in_place None TrustedInput \<lparr>
     rd_buf = [], rd_pos = 0, is_extra_header_data_set = False, is_finished_flag = False,
     tx_signing_state = tx_signing_state_default, tx_info = tx_info_default,
     trusted_input_info = trusted_input_info_default, hashers = hashers_default,
     legacy_parser = legacy_parser_new TrustedInput, pczt_parser = pczt_parser_new,
     legacy_output_parser = legacy_output_parser_new, vk_response = None,
     is_vk_display_finished = False, swap_params = None, has_released_signature = False,
     comm_data = None, comm_out = [], orchard_derivations = 0, ticks = 0, events = [] \<rparr>"

end
