(* ===== verification/Account_Theorems.thy ===== *)
theory Account_Theorems
  imports Account Example_Device
begin

text \<open>
  What the read-only commands guarantee: a viewing key leaves the device only after a confirmation that
  names its account, and arrives whole although it is sent in chunks; an address that is displayed is
  the one that is sent; and the Exchange application is told about the same address as the host.
\<close>

section \<open>Viewing keys\<close>

text \<open>C22: A command for a viewing key that succeeds was the request for one account \<open>a\<close>; the key of
  \<open>m/32'/133'/a'\<close> (with the transparent key of \<open>m/44'/133'/a'\<close> in the unified form) was confirmed on a
  screen that names \<open>a\<close>, and the first 255 bytes of exactly that key are sent.  A command that fails sends
  nothing, and unless its data cannot be read (\<open>comm_data\<close> is \<open>None\<close>) it leaves nothing to be read by a
  continuation.\<close>

theorem viewing_key_export_confirmed:
  "case handler_get_vk E A mode False s of
     (Inr _, s') \<Rightarrow> \<exists>a payload. comm_data s = Some (vk_request mode a)
       \<and> vk_granted E A mode (ticks s) a payload
       \<and> comm_out s' = comm_out s @ take 255 payload \<and> vk_response s' = pending_after 255 payload
   | (Inl _, s') \<Rightarrow> comm_out s' = comm_out s \<and> (comm_data s = None \<or> vk_response s' = None)"
  using vk_export_wp [of E A mode s] by (auto simp: wp_def vk_exported_def split: prod.splits sum.splits)

text \<open>What a host collects with \<open>n\<close> continuation commands.\<close>

fun read_vk :: "env \<Rightarrow> account_env \<Rightarrow> p2_vk_mode \<Rightarrow> nat \<Rightarrow> world \<Rightarrow> (bytes \<times> world) option" where
  "read_vk E A mode 0 s = Some ([], s)"
| "read_vk E A mode (Suc n) s =
     (case handler_get_vk E A mode True (s\<lparr> comm_data := Some [], comm_out := [] \<rparr>) of
        (Inr _, s1) \<Rightarrow> map_option (\<lambda>(bs, s2). (comm_out s1 @ bs, s2)) (read_vk E A mode n s1)
      | (Inl _, _) \<Rightarrow> None)"

lemma continued_chunk:
  assumes "vk_response s = pending_after k payload" "k < length payload"
  obtains s1 where
    "handler_get_vk E A mode True (s\<lparr> comm_data := Some [], comm_out := [] \<rparr>) = (Inr (), s1)"
    "comm_out s1 = take 255 (drop k payload)" "vk_response s1 = pending_after (k + 255) payload"
proof -
  let ?s = "s\<lparr> comm_data := Some [], comm_out := [] \<rparr>"
  have "wp append_pending_vk_chunk (\<lambda>_ s1. comm_out s1 = take 255 (drop k payload)
      \<and> vk_response s1 = pending_after (k + 255) payload) (\<lambda>_ _. False) ?s"
    by (rule wp_append_pending_vk_chunk) (use assms in \<open>auto simp: pending_after_def\<close>)
  then have "wp (handler_get_vk E A mode True) (\<lambda>_ s1. comm_out s1 = take 255 (drop k payload)
      \<and> vk_response s1 = pending_after (k + 255) payload) (\<lambda>_ _. False) ?s"
    by (simp add: handler_get_vk_def wp_bnd wp_comm_get_data wp_ensure)
  then show thesis
    using that by (cases "handler_get_vk E A mode True ?s") (auto simp: wp_def split: sum.splits)
qed

lemma read_vk_rest:
  "vk_response s = pending_after k payload \<Longrightarrow> n = (length payload - k + 254) div 255 \<Longrightarrow>
     \<exists>s'. read_vk E A mode n s = Some (drop k payload, s') \<and> vk_response s' = None"
proof (induction n arbitrary: k s)
  case 0
  then have "length payload \<le> k" by auto
  with 0 show ?case by (simp add: pending_after_def)
next
  case (Suc n)
  from Suc.prems(2) have k: "k < length payload" by (cases "k < length payload") auto
  obtain s1 where h: "handler_get_vk E A mode True (s\<lparr> comm_data := Some [], comm_out := [] \<rparr>) = (Inr (), s1)"
    "comm_out s1 = take 255 (drop k payload)" "vk_response s1 = pending_after (k + 255) payload"
    by (rule continued_chunk [OF Suc.prems(1) k])
  have "n = (length payload - (k + 255) + 254) div 255"
    using Suc.prems(2) k by (cases "k + 255 < length payload") (auto simp: not_less)
  from Suc.IH [OF h(3) this] obtain s' where
    "read_vk E A mode n s1 = Some (drop (k + 255) payload, s')" "vk_response s' = None" by blast
  moreover have "take 255 (drop k payload) @ drop (k + 255) payload = drop k payload"
    by (metis append_take_drop_id drop_drop add.commute)
  ultimately show ?case using h by simp
qed

text \<open>C23: A viewing key arrives whole: after an accepted export the host needs exactly one continuation
  command for every started 255 bytes after the first, the chunks put together are the confirmed key, and
  nothing is pending then.\<close>

theorem viewing_key_arrives_whole:
  assumes "handler_get_vk E A mode False s = (Inr (), s1)" "comm_out s = []"
  shows "\<exists>a payload rest s2. vk_granted E A mode (ticks s) a payload
    \<and> read_vk E A mode ((length payload - 1) div 255) s1 = Some (rest, s2)
    \<and> comm_out s1 @ rest = payload \<and> vk_response s2 = None"
proof -
  obtain a payload where g: "vk_granted E A mode (ticks s) a payload" "comm_out s1 = take 255 payload"
      "vk_response s1 = pending_after 255 payload"
    using wp_InrD [OF vk_export_wp assms(1)] assms(2) by (auto simp: vk_exported_def)
  have "(length payload - 1) div 255 = (length payload - 255 + 254) div 255"
    by (cases "255 \<le> length payload") auto
  from read_vk_rest [OF g(3) this] g show ?thesis by (metis append_take_drop_id)
qed

definition ex_vk_request :: world where
  "ex_vk_request = ex_start\<lparr> comm_data := Some (vk_request Ufvk 7) \<rparr>"

lemma ex_vk_accepted: "fst (handler_get_vk ex_env ex_account Ufvk False ex_vk_request) = Inr ()"
  by code_simp

lemma viewing_key_arrives_whole_witness:
  "\<exists>s1 payload rest s2. handler_get_vk ex_env ex_account Ufvk False ex_vk_request = (Inr (), s1)
    \<and> read_vk ex_env ex_account Ufvk ((length payload - 1) div 255) s1 = Some (rest, s2)
    \<and> comm_out s1 @ rest = payload"
proof -
  obtain s1 where h: "handler_get_vk ex_env ex_account Ufvk False ex_vk_request = (Inr (), s1)"
    using ex_vk_accepted by (metis prod.collapse)
  have "comm_out ex_vk_request = []" by (simp add: ex_vk_request_def ex_start_def init_in_place_def reset_ctx_def)
  from viewing_key_arrives_whole [OF h this] h show ?thesis by metis
qed

section \<open>Addresses\<close>

lemma check_address_same_key:
  assumes "path_wf p" "path p = as_slice p @ replicate (10 - length (as_slice p)) 0"
    "check_bip44_compliance p PrefixOnly" "extended_public_key_try_from E p = Inr key" "address_of_key E key = Inr addr"
  shows "check_address E \<lparr> cp_dpath = concat (map u32_to_be_bytes (as_slice p)),
        cp_dpath_len = length (as_slice p), cp_ref_address = ref, cp_ref_address_len = length ref \<rparr>
      = (if utf8_valid ref then Inr (addr = str_of_bytes ref) else err FailedToSerializeAddress)"
proof -
  have len: "length (as_slice p) \<le> MAX_ZCASH_BIP32_PATH" "path_len p = word_of_nat (length (as_slice p))"
    using assms(1) by (auto simp: path_wf_def as_slice_def)
  have p: "\<lparr> path = as_slice p @ replicate (MAX_ZCASH_BIP32_PATH - length (as_slice p)) 0,
      path_len = word_of_nat (length (as_slice p)) \<rparr> = p"
    using assms(2) len(2) by (simp add: MAX_ZCASH_BIP32_PATH_def)
  have d: "length (concat (map u32_to_be_bytes (as_slice p))) = length (as_slice p) * 4"
    by (simp add: length_encode_body)
  show ?thesis
    using assms(3-5) from_dpath_encoded [OF len(1)] unfolding p
    by (simp add: check_address_def slice_def BIP32_BYTES_PER_SEGMENT_def d)
qed

definition public_key_sent :: "env \<Rightarrow> account_env \<Rightarrow> bool \<Rightarrow> bip32_path \<Rightarrow> extended_public_key \<Rightarrow> string \<Rightarrow> world \<Rightarrow> world \<Rightarrow> bool"
  where
  "public_key_sent E A display p key addr s s' \<longleftrightarrow>
     path_wf p \<and> path p = as_slice p @ replicate (10 - length (as_slice p)) 0
     \<and> comm_data s = Some (encode_path (as_slice p)) \<and> check_bip44_compliance p PrefixOnly
     \<and> extended_public_key_try_from E p = Inr key \<and> address_of_key E key = Inr addr
     \<and> (if display then address_review_show A (ticks s) (pk_screen addr) else True)
     \<and> comm_out s' = comm_out s @ [word_of_nat (length (public_key_slice key))] @ public_key_slice key
         @ [word_of_nat (length addr)] @ str_bytes addr @ chain_code key"

lemma public_key_wp:
  "wp (handler_get_public_key E A display) (\<lambda>_ s'. \<exists>p key addr. public_key_sent E A display p key addr s s')
     (\<lambda>_ s'. comm_out s' = comm_out s) s"
  by (auto simp: handler_get_public_key_def ui_display_pk_def wp_simps bip32_try_from_bytes_char
      MAX_ZCASH_BIP32_PATH_def public_key_sent_def split: option.splits sum.splits)

text \<open>C24: A command for a public key that succeeds answers, for a path below \<open>44'/133'\<close> or
  \<open>32'/133'\<close>, with the public key, its address and the chain code, after the address was confirmed
  when that was requested; and the Exchange application, asked about the same path, accepts exactly this
  address.  The comparison is with the plain Base58 text, as the code has it, and not with a hexadecimal
  encoding as the comment on \<open>check_address\<close> says.  A command that fails sends nothing.\<close>

theorem public_key_answer_matches_swap:
  "case handler_get_public_key E A display s of
     (Inr _, s') \<Rightarrow> \<exists>cs key addr. comm_data s = Some (encode_path cs) \<and> length cs \<le> 10
       \<and> (\<exists>purpose rest. cs = purpose # hardened 133 # rest \<and> purpose \<in> {hardened 44, hardened 32})
       \<and> secp256k1_public_key E cs = Some (public_key_slice key)
       \<and> secp256k1_chain_code E cs = Some (chain_code key)
       \<and> address_of_key E key = Inr addr
       \<and> (if display then address_review_show A (ticks s) (pk_screen addr) else True)
       \<and> comm_out s' = comm_out s @ [word_of_nat (length (public_key_slice key))] @ public_key_slice key
           @ [word_of_nat (length addr)] @ str_bytes addr @ chain_code key
       \<and> (\<forall>ref. check_address E \<lparr> cp_dpath = concat (map u32_to_be_bytes cs), cp_dpath_len = length cs,
              cp_ref_address = ref, cp_ref_address_len = length ref \<rparr>
            = (if utf8_valid ref then Inr (addr = str_of_bytes ref) else err FailedToSerializeAddress))
   | (Inl _, s') \<Rightarrow> comm_out s' = comm_out s"
proof (cases "handler_get_public_key E A display s")
  case (Pair r s')
  show ?thesis
  proof (cases r)
    case (Inl e)
    then show ?thesis using public_key_wp [of E A display s] by (simp add: wp_def Pair)
  next
    case (Inr u)
    then obtain p key addr where h: "public_key_sent E A display p key addr s s'"
      using public_key_wp [of E A display s] by (auto simp: wp_def Pair)
    then have h': "path_wf p" "path p = as_slice p @ replicate (10 - length (as_slice p)) 0"
      "comm_data s = Some (encode_path (as_slice p))" "check_bip44_compliance p PrefixOnly"
      "extended_public_key_try_from E p = Inr key" "address_of_key E key = Inr addr"
      "if display then address_review_show A (ticks s) (pk_screen addr) else True"
      "comm_out s' = comm_out s @ [word_of_nat (length (public_key_slice key))] @ public_key_slice key
         @ [word_of_nat (length addr)] @ str_bytes addr @ chain_code key"
      unfolding public_key_sent_def by blast+
    have len: "length (as_slice p) \<le> 10" using h'(1) by (simp add: path_wf_def as_slice_def MAX_ZCASH_BIP32_PATH_def)
    have keys: "secp256k1_public_key E (as_slice p) = Some (public_key_slice key)"
      "secp256k1_chain_code E (as_slice p) = Some (chain_code key)"
      using h'(5) by (auto simp: extended_public_key_try_from_def rbind_eq_Inr)
    have path: "\<exists>purpose rest. as_slice p = purpose # hardened 133 # rest \<and> purpose \<in> {hardened 44, hardened 32}"
      using h'(4) prefix_branch [of p] by auto
    have swap: "check_address E \<lparr> cp_dpath = concat (map u32_to_be_bytes (as_slice p)),
        cp_dpath_len = length (as_slice p), cp_ref_address = ref, cp_ref_address_len = length ref \<rparr>
      = (if utf8_valid ref then Inr (addr = str_of_bytes ref) else err FailedToSerializeAddress)" for ref
      by (rule check_address_same_key [OF h'(1,2,4,5,6)])
    show ?thesis
      unfolding Pair Inr prod.case sum.case
      by (rule exI [of _ "as_slice p"], rule exI [of _ key], rule exI [of _ addr], intro conjI allI)
        (fact | rule len swap path)+
  qed
qed

text \<open>An address command that succeeds: the address of account \<open>a\<close>, in the requested form.\<close>

fun address_sent ::
  "env \<Rightarrow> account_env \<Rightarrow> p2_shielded_addr_mode \<Rightarrow> bool \<Rightarrow> u32 \<Rightarrow> bytes \<Rightarrow> world \<Rightarrow> world \<Rightarrow> bool" where
  "address_sent E A OrchardAddress display a raw s s' \<longleftrightarrow>
     comm_data s = Some (encode_path [hardened 32, hardened 133, hardened a])
     \<and> \<not> display \<and> comm_out s' = comm_out s @ raw"
| "address_sent E A UAddress display a raw s s' \<longleftrightarrow>
     (\<exists>index ua t. comm_data s = Some (encode_path [hardened 32, hardened 133, hardened a]
          @ encode_path [hardened 44, hardened 133, hardened a, 0, index])
        \<and> as_slice t = [hardened 44, hardened 133, hardened a, 0, index] \<and> a \<le> 100 \<and> index \<le> 50000
        \<and> unified_address_encode E raw Main_net = Some ua
        \<and> comm_out s' = comm_out s @ u16_to_be_bytes (length ua) @ str_bytes ua
        \<and> (if display then \<exists>taddr. transparent_account_address E t = Inr taddr
             \<and> address_review_show A (ticks s + 1) (shielded_address_screen ua taddr) else True))"

lemma shielded_addr_front:
  assumes data: "comm_data s = Some data"
    and tail: "\<And>p t. check_bip44_compliance p Zip32Only \<Longrightarrow>
      (mode = OrchardAddress \<Longrightarrow> data = encode_path (as_slice p)) \<Longrightarrow>
      (mode = UAddress \<Longrightarrow> \<exists>q. t = Some q \<and> data = encode_path (as_slice p) @ encode_path (as_slice q)
         \<and> check_bip44_compliance q (Full False) \<and> same_account_index p q = Inr True) \<Longrightarrow>
      wp (K p t) Q R s"
    and "\<And>e. R e s"
  shows "wp (bnd (lift_r (parse_shielded_paths data mode)) (\<lambda>(p, transparent_path).
     bnd (ensure (check_bip44_compliance p Zip32Only) IncorrectData) (\<lambda>_.
     bnd (when_do (mode = UAddress)
            (bnd (some_or transparent_path WrongApduLength) (\<lambda>t.
             bnd (ensure (check_bip44_compliance t (Full False)) IncorrectData) (\<lambda>_.
             bnd (lift_r (same_account_index p t)) (\<lambda>same.
             ensure same IncorrectData))))) (\<lambda>_. K p transparent_path)))) Q R s"
  using assms(3)
  by (cases mode)
    (auto intro!: tail simp: wp_bnd wp_lift_r wp_ensure wp_some_or wp_when_do
      split: sum.splits option.splits dest!: parse_one_path_Inr parse_two_paths_Inr)

lemma full_account:
  assumes "check_bip44_compliance q (Full False)" "as_slice p = [x, y, hardened a]"
    "a AND UNHARDENED_MASK = a" "same_account_index p q = Inr True"
  shows "\<exists>index. as_slice q = [hardened 44, hardened 133, hardened a, 0, index] \<and> a \<le> 100 \<and> index \<le> 50000"
proof -
  from assms(1) obtain c index where c: "as_slice q = [hardened 44, hardened 133, hardened c, 0, index]"
      "c \<le> 100" "index \<le> 50000"
    unfolding full_branch by auto
  have "hardened a AND UNHARDENED_MASK = hardened c AND UNHARDENED_MASK"
    using assms(2,4) c(1) by (simp add: same_account_index_def index_def)
  then have "hardened a = hardened c" by (rule same_account_eq [rotated 2]) (simp_all add: hardened_bits)
  then have "take_bit 31 a = take_bit 31 c" using take_bit_hardened by metis
  moreover have "take_bit 31 a = a" using assms(3) by (simp add: UNHARDENED_MASK_def and_low_mask)
  moreover have "take_bit 31 c = c"
  proof (rule unsigned_word_eqI [where ?'a = nat])
    from c(2) have "unat c \<le> 100" by (simp add: word_le_nat_alt)
    then show "unat (take_bit 31 c) = unat c" by (simp add: unsigned_take_bit_eq take_bit_nat_eq_self)
  qed
  ultimately have "a = c" by simp
  then show ?thesis using c by simp
qed

lemma shielded_addr_tail:
  assumes p: "as_slice p = [hardened 32, hardened 133, hardened a]"
    and o: "mode = OrchardAddress \<Longrightarrow> \<not> display
      \<and> comm_data s = Some (encode_path [hardened 32, hardened 133, hardened a])"
    and u: "mode = UAddress \<Longrightarrow> \<exists>q index. t = Some q
      \<and> comm_data s = Some (encode_path [hardened 32, hardened 133, hardened a]
          @ encode_path [hardened 44, hardened 133, hardened a, 0, index])
      \<and> as_slice q = [hardened 44, hardened 133, hardened a, 0, index] \<and> a \<le> 100 \<and> index \<le> 50000"
  shows "wp (bnd (derive_orchard_fvk E p) (\<lambda>orchard_fvk.
     bnd (address_response E A mode display p t orchard_fvk) (\<lambda>resp.
     comm_append resp)))
     (\<lambda>_ s'. \<exists>sk fvk raw. zip32_orchard_derive E (ticks s) [hardened 32, hardened 133, hardened a] = Some sk
        \<and> derive_orchard_fvk_bytes E sk = Inr fvk \<and> orchard_raw_address E A fvk = Inr raw
        \<and> address_sent E A mode display a raw s s')
     (\<lambda>_ s'. comm_out s' = comm_out s) s"
  unfolding wp_bnd
proof (rule wp_derive_orchard_fvk)
  fix sk fvk d
  assume k: "zip32_orchard_derive E (ticks s) (as_slice p) = Some sk" "derive_orchard_fvk_bytes E sk = Inr fvk"
  have net: "orchard_network p = Main_net" by (simp add: orchard_network_def vec_get_def p hardened_numerals)
  have len: "encode_string_response (str_bytes ua) = Inr r \<Longrightarrow> r = u16_to_be_bytes (length ua) @ str_bytes ua" for ua r
    by (auto simp: encode_string_response_def str_bytes_def split: if_splits)
  show "wp (address_response E A mode display p t fvk)
      (\<lambda>resp. wp (comm_append resp)
        (\<lambda>_ s'. \<exists>sk fvk raw. zip32_orchard_derive E (ticks s) [hardened 32, hardened 133, hardened a] = Some sk
        \<and> derive_orchard_fvk_bytes E sk = Inr fvk \<and> orchard_raw_address E A fvk = Inr raw
        \<and> address_sent E A mode display a raw s s')
        (\<lambda>_ s'. comm_out s' = comm_out s))
     (\<lambda>_ s'. comm_out s' = comm_out s) (s\<lparr> orchard_derivations := d, ticks := ticks s + 1 \<rparr>)"
  proof (cases mode)
    case OrchardAddress
    then show ?thesis using o k p by (auto simp: wp_simps split: sum.splits)
  next
    case UAddress
    with u obtain q index where q: "t = Some q"
      "comm_data s = Some (encode_path [hardened 32, hardened 133, hardened a]
          @ encode_path [hardened 44, hardened 133, hardened a, 0, index])"
      "as_slice q = [hardened 44, hardened 133, hardened a, 0, index]" "a \<le> 100" "index \<le> 50000" by blast
    show ?thesis
      using k q p UAddress
      by (cases display) (auto simp: wp_simps net ui_display_shielded_address_def dest!: len
        split: sum.splits option.splits)
  qed
qed simp

lemma shielded_addr_wp:
  "wp (handler_get_shielded_addr E A mode display)
     (\<lambda>_ s'. \<exists>a sk fvk raw. zip32_orchard_derive E (ticks s) [hardened 32, hardened 133, hardened a] = Some sk
        \<and> derive_orchard_fvk_bytes E sk = Inr fvk \<and> orchard_raw_address E A fvk = Inr raw
        \<and> address_sent E A mode display a raw s s')
     (\<lambda>_ s'. comm_out s' = comm_out s) s"
  (is "wp _ ?Q ?R s")
proof (cases "comm_data s")
  case None
  then show ?thesis by (simp add: handler_get_shielded_addr_def wp_simps)
next
  case (Some data)
  show ?thesis
    unfolding handler_get_shielded_addr_def wp_bnd [of "ensure _ _"] wp_ensure wp_bnd [of comm_get_data]
      wp_comm_get_data Some option.case
  proof (split if_split, intro conjI impI)
    assume shown: "\<not> (display \<and> mode = OrchardAddress)"
    show "wp (bnd (lift_r (parse_shielded_paths data mode)) (\<lambda>(p, transparent_path).
     bnd (ensure (check_bip44_compliance p Zip32Only) IncorrectData) (\<lambda>_.
     bnd (when_do (mode = UAddress)
            (bnd (some_or transparent_path WrongApduLength) (\<lambda>t.
             bnd (ensure (check_bip44_compliance t (Full False)) IncorrectData) (\<lambda>_.
             bnd (lift_r (same_account_index p t)) (\<lambda>same.
             ensure same IncorrectData))))) (\<lambda>_.
     bnd (derive_orchard_fvk E p) (\<lambda>orchard_fvk.
     bnd (address_response E A mode display p transparent_path orchard_fvk) (\<lambda>resp.
     comm_append resp)))))) ?Q ?R s"
    proof (rule shielded_addr_front [OF Some])
      fix p t
      assume h: "check_bip44_compliance p Zip32Only"
        "mode = OrchardAddress \<Longrightarrow> data = encode_path (as_slice p)"
        "mode = UAddress \<Longrightarrow> \<exists>q. t = Some q \<and> data = encode_path (as_slice p) @ encode_path (as_slice q)
         \<and> check_bip44_compliance q (Full False) \<and> same_account_index p q = Inr True"
      obtain a where a: "as_slice p = [hardened 32, hardened 133, hardened a]" "a AND UNHARDENED_MASK = a"
        using zip32_account [OF h(1)] by metis
      have u: "mode = UAddress \<Longrightarrow> \<exists>q index. t = Some q
        \<and> comm_data s = Some (encode_path [hardened 32, hardened 133, hardened a]
          @ encode_path [hardened 44, hardened 133, hardened a, 0, index])
        \<and> as_slice q = [hardened 44, hardened 133, hardened a, 0, index] \<and> a \<le> 100 \<and> index \<le> 50000"
        using h(3) full_account [OF _ a] a(1) Some by fastforce
      show "wp (bnd (derive_orchard_fvk E p) (\<lambda>orchard_fvk.
     bnd (address_response E A mode display p t orchard_fvk) (\<lambda>resp.
     comm_append resp))) ?Q ?R s"
      proof (rule wp_mono)
        show "wp (bnd (derive_orchard_fvk E p) (\<lambda>orchard_fvk.
     bnd (address_response E A mode display p t orchard_fvk) (\<lambda>resp. comm_append resp)))
     (\<lambda>_ s'. \<exists>sk fvk raw. zip32_orchard_derive E (ticks s) [hardened 32, hardened 133, hardened a] = Some sk
        \<and> derive_orchard_fvk_bytes E sk = Inr fvk \<and> orchard_raw_address E A fvk = Inr raw
        \<and> address_sent E A mode display a raw s s') ?R s"
          by (rule shielded_addr_tail [OF a(1)]) (use h(2) u shown Some a(1) in auto)
      qed blast+
    qed simp
  qed simp
qed

text \<open>C25: A command for a shielded address that succeeds answers with the address, at index 0, of one
  account \<open>a\<close>: the raw receiver, which is never displayed, or the unified address, which is sent only for a
  transparent path of the same account and, when a display was requested, was confirmed together with the
  transparent address of that path.  A command that fails sends nothing.\<close>

theorem shielded_address_answer:
  "case handler_get_shielded_addr E A mode display s of
     (Inr _, s') \<Rightarrow> \<exists>a sk fvk raw. zip32_orchard_derive E (ticks s) [hardened 32, hardened 133, hardened a] = Some sk
       \<and> derive_orchard_fvk_bytes E sk = Inr fvk \<and> orchard_raw_address E A fvk = Inr raw
       \<and> address_sent E A mode display a raw s s'
   | (Inl _, s') \<Rightarrow> comm_out s' = comm_out s"
  using shielded_addr_wp [of E A mode display s] by (auto simp: wp_def split: prod.splits sum.splits)

section \<open>Version\<close>

lemma dec_value_snoc:
  "dec_value acc xs = Some v \<Longrightarrow> d < 10 \<Longrightarrow> v * 10 + d \<le> 255 \<Longrightarrow>
     dec_value acc (xs @ [digit_char d]) = Some (v * 10 + d)"
  by (induction xs arbitrary: acc)
    (auto simp: digit_value_def digit_char_def Let_def split: option.splits if_splits)

lemma dec_value_digits: "n \<le> 255 \<Longrightarrow> dec_value 0 (dec_digits n) = Some n"
proof (induction n rule: less_induct)
  case (less n)
  show ?case
  proof (cases "n < 10")
    case True
    then show ?thesis using dec_value_snoc [of 0 "[]" 0 n] by (simp add: dec_digits.simps [of n])
  next
    case False
    then have "dec_value 0 (dec_digits (n div 10)) = Some (n div 10)" using less by simp
    from dec_value_snoc [OF this, of "n mod 10"] False less.prems show ?thesis
      by (simp add: dec_digits.simps [of n])
  qed
qed

lemma dec_digits_chars: "c \<in> set (dec_digits n) \<Longrightarrow> \<exists>d < 10. c = digit_char d"
proof (induction n rule: less_induct)
  case (less n)
  show ?case
  proof (cases "n < 10")
    case False
    then have "c = digit_char (n mod 10) \<or> c \<in> set (dec_digits (n div 10))"
      using less.prems by (simp add: dec_digits.simps [of n])
    then show ?thesis
    proof
      assume "c = digit_char (n mod 10)"
      then show ?thesis by (intro exI [of _ "n mod 10"]) simp
    next
      assume "c \<in> set (dec_digits (n div 10))"
      then show ?thesis using less.IH [of "n div 10"] False by simp
    qed
  qed (use less.prems in \<open>auto simp: dec_digits.simps [of n]\<close>)
qed

lemma dec_digits_plain:
  "dec_digits n \<noteq> []" "CHR ''.'' \<notin> set (dec_digits n)" "CHR ''+'' \<notin> set (dec_digits n)"
proof -
  have c: "CHR ''.'' \<noteq> digit_char d \<and> CHR ''+'' \<noteq> digit_char d" if "d < 10" for d
  proof (intro conjI notI)
    have a: "(of_char (digit_char d) :: nat) = 48 + d" using that by (simp add: digit_char_def)
    { assume h: "CHR ''.'' = digit_char d" then show False using a unfolding h [symmetric] by simp }
    { assume h: "CHR ''+'' = digit_char d" then show False using a unfolding h [symmetric] by simp }
  qed
  show "CHR ''.'' \<notin> set (dec_digits n)" "CHR ''+'' \<notin> set (dec_digits n)"
    using dec_digits_chars c by metis+
  show "dec_digits n \<noteq> []" by (simp add: dec_digits.simps [of n])
qed

lemma split_on_plain:
  "c \<notin> set xs \<Longrightarrow> split_on c xs = [xs]"
  "c \<notin> set xs \<Longrightarrow> split_on c (xs @ c # ys) = xs # split_on c ys"
  by (induction xs) auto

lemma u8_from_digits: "n \<le> 255 \<Longrightarrow> u8_from_str (dec_digits n) = Some (word_of_nat n)"
  using dec_digits_plain [of n] dec_value_digits [of n]
  by (auto simp: u8_from_str_def split: list.splits)

text \<open>C26: The version command answers with the legacy prefix, the three components of the package version
  \<open>major.minor.patch\<close> and the API constants, for every version whose components fit in a byte.\<close>

theorem version_answer:
  assumes "cargo_pkg_version A = dec_digits a @ ''.'' @ dec_digits b @ ''.'' @ dec_digits c"
    "a \<le> 255" "b \<le> 255" "c \<le> 255"
  shows "handler_get_version A s
    = (Inr (), s\<lparr> comm_out := comm_out s @ [0x38, 0x30, word_of_nat a, word_of_nat b, word_of_nat c, 1, 0, 3] \<rparr>)"
proof -
  have "split_on (CHR ''.'') (cargo_pkg_version A) = [dec_digits a, dec_digits b, dec_digits c]"
    by (simp add: assms(1) split_on_plain dec_digits_plain)
  then have "parse_version_string (cargo_pkg_version A) = Some (word_of_nat a, word_of_nat b, word_of_nat c)"
    by (simp add: parse_version_string_def u8_from_digits assms(2-4))
  then show ?thesis
    by (simp add: handler_get_version_def comm_append_def modify_def LEGACY_VERSION_PREFIX_def ARCH_ID_def
        NU_SDK_MAJOR_VERSION_def NU_SDK_MINOR_VERSION_def NU_API_LEVEL_def)
qed

lemma version_answer_witness:
  "handler_get_version ex_account ex_start
    = (Inr (), ex_start\<lparr> comm_out := comm_out ex_start @ [0x38, 0x30, 3, 9, 3, 1, 0, 3] \<rparr>)"
  using version_answer [of ex_account 3 9 3 ex_start]
  by (simp add: ex_account_def dec_digits.simps digit_char_def char_of_def bit_Suc_0_iff)

end
