(* ===== verification/Pczt_Input_Proofs.thy ===== *)
theory Pczt_Input_Proofs
  imports Pczt_Invariant
begin

text \<open>
  The automation of the invariant proofs, and the first part of the invariance: every step on the
  transparent inputs keeps the session invariant, uses up input, and fails only with an error
  value.
\<close>

section \<open>Automation\<close>

lemma wp_ensure_group_end [wp_simps]:
  "wp (ensure_group_end msg) Q R s = (if remaining_len s = 0 then Q () s else R (Fail (Custom msg)) s)"
  by (simp add: ensure_group_end_def wp_simps)

lemma wp_read_optional_u32 [wp_simps]:
  "wp read_optional_u32 Q R s = wp (bnd read_u8 (\<lambda>tag.
     if tag = 0 then ret None
     else if tag = 1 then bnd read_u32_le (\<lambda>v. ret (Some v))
     else throw (Custom ''Bad PCZT Option<u32> tag''))) Q R s"
  by (simp only: read_optional_u32_def)

lemma reader_frame [simp]:
  "remaining_len (s\<lparr> pczt_parser := p \<rparr>) = remaining_len s"
  "remaining_len (s\<lparr> tx_info := t \<rparr>) = remaining_len s"
  "remaining_len (s\<lparr> hashers := h \<rparr>) = remaining_len s"
  "remaining_len (s\<lparr> ticks := k \<rparr>) = remaining_len s"
  "remaining_len (s\<lparr> tx_signing_state := x \<rparr>) = remaining_len s"
  "remaining_len (s\<lparr> orchard_derivations := y \<rparr>) = remaining_len s"
  "remaining_len (s\<lparr> events := evs \<rparr>) = remaining_len s"
  "remaining_slice (s\<lparr> pczt_parser := p \<rparr>) = remaining_slice s"
  "remaining_slice (s\<lparr> tx_info := t \<rparr>) = remaining_slice s"
  "remaining_slice (s\<lparr> hashers := h \<rparr>) = remaining_slice s"
  "remaining_slice (s\<lparr> ticks := k \<rparr>) = remaining_slice s"
  "remaining_slice (s\<lparr> rd_pos := n \<rparr>) = drop n (rd_buf s)"
  by (simp_all add: remaining_len_def remaining_slice_def)

lemma all_pools: "(\<forall>pl. P pl) \<longleftrightarrow> P OrchardPool \<and> P IronwoodPool"
  by (metis pool.exhaust)

lemmas input_defs = inputs_ok_def input_counts_ok_def current_input_ok_def input_digests_ok_def
  prevouts_data_def sequence_data_def amounts_data_def scripts_data_def
lemmas output_defs = outputs_ok_def output_counts_ok_def outputs_data_def transparent_outs_def
lemmas struct_defs = struct_ok_def action_ok_def
lemmas tx_defs = change_ok_def budget_ok_def has_version_def shielded_outs_def
lemmas shield_defs = shielded_ok_def review_ok_def all_pools view_ok_def empty_view_def records_ok_def
lemmas inv_defs = active_def input_defs output_defs struct_defs tx_defs shield_defs
lemmas reader_defs = remaining_len_def remaining_slice_def
lemmas digest_defs = digest_of_def blake_of_def

lemma step_postI:
  assumes "active (pz_state (pczt_parser s'))" "struct_ok (pczt_parser s')"
    "inputs_ok E (pczt_parser s') (hashers s') (tx_info s')"
    "outputs_ok E raws (pczt_parser s') (hashers s') (tx_info s')"
    "change_ok (tx_info s')" "budget_ok (tx_info s')" "has_version (tx_info s')"
    "shielded_ok (pczt_parser s') (tx_info s')" "review_ok s'"
    "remaining_len s' < remaining_len s" "parse_frame s s'" "\<not> pczt_finished (pczt_parser s')"
  shows "step_post E s u s'"
  using assms unfolding step_post_def pinv_def by auto

lemma pinvE:
  assumes "pinv E s" "active (pz_state (pczt_parser s))"
  obtains raws where "struct_ok (pczt_parser s)"
    "inputs_ok E (pczt_parser s) (hashers s) (tx_info s)"
    "outputs_ok E raws (pczt_parser s) (hashers s) (tx_info s)"
    "change_ok (tx_info s)" "budget_ok (tx_info s)" "has_version (tx_info s)"
    "shielded_ok (pczt_parser s) (tx_info s)" "review_ok s"
  using assms unfolding pinv_def by auto

section \<open>Steps on the inputs\<close>

text \<open>What a step on the inputs leaves alone.\<close>

definition beside_inputs :: "pczt_parser \<Rightarrow> hashers \<Rightarrow> tx_info \<Rightarrow> pczt_parser \<Rightarrow> hashers \<Rightarrow> tx_info \<Rightarrow> bool"
  where
  "beside_inputs p h t p' h' t' \<longleftrightarrow>
     transparent_output_count p' = transparent_output_count p
   \<and> transparent_output_parsed_count p' = transparent_output_parsed_count p
   \<and> total_output_amount p' = total_output_amount p
   \<and> outputs_reviewed p' = outputs_reviewed p \<and> pczt_finished p' = pczt_finished p
   \<and> view OrchardPool p' = view OrchardPool p \<and> view IronwoodPool p' = view IronwoodPool p
   \<and> is_v6_tx p' = is_v6_tx p \<and> outputs_hasher h' = outputs_hasher h
   \<and> outputs t' = outputs t \<and> change_account t' = change_account t
   \<and> is_change_found t' = is_change_found t \<and> is_v6 t' = is_v6 t
   \<and> displayed_shielded_outputs t' = displayed_shielded_outputs t
   \<and> retained_memo_bytes t' = retained_memo_bytes t
   \<and> tx_version t' = tx_version t \<and> branch_id t' = branch_id t"

lemma input_states_phases:
  "inputs_open st \<or> st = TransparentInputsDone \<Longrightarrow>
     outputs_open st \<and> \<not> out_head st \<and> \<not> out_script st \<and> pool_phase pl st = NotStarted
     \<and> \<not> is_ironwood_state st \<and> st \<noteq> OrchardActionsDone \<and> active st"
  by (cases st; cases pl) (auto simp: active_def)

lemma input_stepI:
  assumes inv: "pinv E s" and st: "inputs_open (pz_state (pczt_parser s))"
    and st': "inputs_open (pz_state (pczt_parser s')) \<or> pz_state (pczt_parser s') = TransparentInputsDone"
    and rest: "beside_inputs (pczt_parser s) (hashers s) (tx_info s) (pczt_parser s') (hashers s') (tx_info s')"
    and ok': "struct_ok (pczt_parser s')" "inputs_ok E (pczt_parser s') (hashers s') (tx_info s')"
      "list_all (\<lambda>i. \<not> in_signed i) (transparent_inputs (pczt_parser s'))"
    and rd: "remaining_len s' < remaining_len s" and frame: "parse_frame s s'"
  shows "step_post E s u s'"
proof -
  have act: "active (pz_state (pczt_parser s))" using st input_states_phases by blast
  show ?thesis
  proof (rule pinvE [OF inv act])
    fix raws
    assume ok: "outputs_ok E raws (pczt_parser s) (hashers s) (tx_info s)"
      "change_ok (tx_info s)" "budget_ok (tx_info s)" "has_version (tx_info s)"
      "shielded_ok (pczt_parser s) (tx_info s)" "review_ok s"
    note ph = input_states_phases [OF disjI1 [OF st]] input_states_phases [OF st']
    have nr: "\<not> outputs_reviewed (pczt_parser s)"
      using ok(6) ph(1) st by (auto simp: review_ok_def parsed_all_def split: if_splits)
    have r: "raws = []" using ok(1) st by (simp add: outputs_ok_def output_counts_ok_def)
    have o: "transparent_output_parsed_count (pczt_parser s) = 0"
      "transparent_output_count (pczt_parser s) = 0" "total_output_amount (pczt_parser s) = 0"
      "transparent_outs (tx_info s) = []"
      "outputs_hasher (hashers s) = \<lparr> b_perso = ZCASH_OUTPUTS_HASH_PERSONALIZATION, b_data = [], b_final = False \<rparr>"
      "outputs (tx_info s) = []" "\<not> is_change_found (tx_info s)"
      using ok(1) [unfolded r] st ph
      by (simp_all add: outputs_ok_def output_counts_ok_def outputs_data_def digest_of_def)
    show ?thesis
    proof (rule step_postI [OF _ ok' (1,2) _ _ _ _ _ _ rd frame])
      show "active (pz_state (pczt_parser s'))" using ph(2) by simp
      show "outputs_ok E raws (pczt_parser s') (hashers s') (tx_info s')"
        using r o st' ph rest
        by (simp add: beside_inputs_def output_defs digest_of_def amount_sum_def)
      show "change_ok (tx_info s')" "budget_ok (tx_info s')" "has_version (tx_info s')"
        using ok(2-4) rest by (simp_all add: beside_inputs_def tx_defs)
      show "shielded_ok (pczt_parser s') (tx_info s')"
        using ok(5) ph rest by (simp add: beside_inputs_def shielded_ok_def all_pools shielded_outs_def)
      show "review_ok s'"
        using ok(6) nr rest ok'(3) by (simp add: beside_inputs_def review_ok_def all_pools)
      show "\<not> pczt_finished (pczt_parser s')"
        using ok(6) nr rest by (simp add: beside_inputs_def review_ok_def)
    qed
  qed
qed

lemma inputs_openD:
  assumes "pinv E s" "inputs_open (pz_state (pczt_parser s))"
  shows "struct_ok (pczt_parser s)" "inputs_ok E (pczt_parser s) (hashers s) (tx_info s)"
    "list_all (\<lambda>i. \<not> in_signed i) (transparent_inputs (pczt_parser s))"
    "\<not> outputs_reviewed (pczt_parser s)" "\<not> pczt_finished (pczt_parser s)"
    "view OrchardPool (pczt_parser s) = empty_view"
proof -
  have st: "active (pz_state (pczt_parser s))" using assms(2) input_states_phases by blast
  have ph: "pool_phase pl (pz_state (pczt_parser s)) = NotStarted" for pl
    using assms(2) input_states_phases by blast
  have inv: "struct_ok (pczt_parser s)" "inputs_ok E (pczt_parser s) (hashers s) (tx_info s)"
    "shielded_ok (pczt_parser s) (tx_info s)" "review_ok s"
    using assms(1) st unfolding pinv_def by auto
  show "struct_ok (pczt_parser s)" "inputs_ok E (pczt_parser s) (hashers s) (tx_info s)"
    using inv by blast+
  show nr: "\<not> outputs_reviewed (pczt_parser s)"
    using inv(4) assms(2) by (auto simp: review_ok_def parsed_all_def split: if_splits)
  then show "list_all (\<lambda>i. \<not> in_signed i) (transparent_inputs (pczt_parser s))"
    "\<not> pczt_finished (pczt_parser s)"
    using inv(4) by (auto simp: review_ok_def)
  show "view OrchardPool (pczt_parser s) = empty_view"
    using inv(3) ph unfolding shielded_ok_def view_ok_def by simp
qed

lemma inputs_start_pinv:
  assumes E: "codec_laws E" and inv: "pinv E s"
    and st: "pz_state (pczt_parser s) = WaitTransparentInputsCount"
  shows "wp (parse_transparent_inputs_start E) (step_post E s) (step_fail s) s"
proof -
  have op: "inputs_open (pz_state (pczt_parser s))" by (simp add: st)
  note ok = inputs_openD [OF inv op]
  show ?thesis
    unfolding parse_transparent_inputs_start_def finalize_transparent_inputs_def
      reset_orchard_bundle_state_def reset_bundle_state_def reset_current_action_def
    using ok st compact_size_readD [OF E, of "remaining_slice s"]
    apply (simp add: wp_simps vc_simps cong: wp_cong split del: if_split)
    apply (intro allI impI conjI)
    by (auto intro!: input_stepI [OF inv op]
        simp: input_defs struct_defs beside_inputs_def empty_view_def digest_defs size_consts)
qed

lemma input_total_simps [simp]:
  "input_total [] = 0" "input_total (is @ js) = input_total is + input_total js"
  "input_total [i] = nat_of_le (in_amount i)"
  by (simp_all add: input_total_def)

lemma input_total_bound: "list_all input_ok ins \<Longrightarrow> input_total ins \<le> length ins * MAX_MONEY"
  by (induction ins) (auto simp: input_total_def input_ok_def)

lemma unat_add_amount:
  assumes "unat t \<le> n * MAX_MONEY" "n \<le> 32" "unat a \<le> MAX_MONEY"
  shows "unat (u64_saturating_add t a) = unat t + unat a"
proof -
  have "n * MAX_MONEY \<le> 32 * MAX_MONEY" using assms(2) by simp
  then have "unat t + unat a \<le> U64_MAX"
    using assms unfolding U64_MAX_def MAX_MONEY_def by linarith
  then show ?thesis by (simp add: unat_u64_saturating_add)
qed

lemma input_pinv:
  assumes E: "codec_laws E" and inv: "pinv E s"
    and st: "pz_state (pczt_parser s) = WaitTransparentInput"
  shows "wp (parse_transparent_input E) (step_post E s) (step_fail s) s"
proof -
  have op: "inputs_open (pz_state (pczt_parser s))" by (simp add: st)
  note ok = inputs_openD [OF inv op]
  have out: "outpoint_write E x = take 36 (remaining_slice s) \<and> n = 36"
    if "outpoint_read E (remaining_slice s) = Some (x, n)" for x n
    using outpoint_readD [OF E that] by simp
  have tot: "unat (u64_saturating_add (total_amount (tx_info s)) a) = unat (total_amount (tx_info s)) + unat a"
    if "unat a \<le> MAX_MONEY" for a
    using ok(2) st that input_total_bound [of "transparent_inputs (pczt_parser s)"]
    by (intro unat_add_amount [of _ "length (transparent_inputs (pczt_parser s))"])
      (auto simp: input_defs MAX_PCZT_TRANSPARENT_INPUTS_NUMBER_def)
  show ?thesis
    unfolding parse_transparent_input_def
    using ok st
    apply (simp add: wp_simps vc_simps Let_def slice_def PREVOUT_SIZE_def cong: wp_cong split del: if_split)
    apply (intro allI impI conjI)
    apply (auto intro!: input_stepI [OF inv op] dest!: out zatoshisD [OF E]
        simp: input_defs struct_defs beside_inputs_def digest_defs tot)
    done
qed

lemma script_read_length:
  "r \<le> length scr \<Longrightarrow> length bs \<le> r \<Longrightarrow>
     length (take (length scr - r) scr @ bs @ drop (length scr - r + length bs) scr) = length scr"
  by simp

lemma input_script_pinv:
  assumes E: "codec_laws E" and inv: "pinv E s"
    and st: "pz_state (pczt_parser s) = ProcessTransparentInputScript n r" and left: "packet_left s"
  shows "wp (parse_transparent_input_script E n r) (step_post E s) (step_fail s) s"
proof -
  have op: "inputs_open (pz_state (pczt_parser s))" by (simp add: st)
  note ok = inputs_openD [OF inv op]
  show ?thesis
    unfolding parse_transparent_input_script_def parse_transparent_script_def
      finish_transparent_script_def finish_transparent_input_script_def
      set_transparent_script_process_state_def write_transparent_script_def transparent_script_kind.case
    using ok st left
    apply (simp add: wp_simps vc_simps Let_def packet_left_def cong: wp_cong split del: if_split)
    apply (intro allI impI conjI)
    apply (auto intro!: input_stepI [OF inv op]
        simp: input_defs struct_defs beside_inputs_def digest_defs ser_script_def remaining_len_def)
    by (rule arg_cong [where f = "compact_size_write E"], simp)
qed

lemma input_script_start_pinv:
  assumes E: "codec_laws E" and inv: "pinv E s"
    and st: "pz_state (pczt_parser s) = WaitTransparentInputScript"
  shows "wp (parse_transparent_input_script_start E) (step_post E s) (step_fail s) s"
proof -
  have op: "inputs_open (pz_state (pczt_parser s))" by (simp add: st)
  note ok = inputs_openD [OF inv op]
  show ?thesis
    unfolding parse_transparent_input_script_start_def parse_transparent_script_start_def
      parse_transparent_script_def finish_transparent_script_def finish_transparent_input_script_def
      set_transparent_script_process_state_def write_transparent_script_def transparent_script_kind.case
    using ok st
    apply (simp add: wp_simps vc_simps Let_def cong: wp_cong split del: if_split)
    apply (intro allI impI conjI)
    apply (auto intro!: input_stepI [OF inv op] dest!: compact_size_readD [OF E]
        simp: input_defs struct_defs beside_inputs_def digest_defs ser_script_def remaining_len_def)
    by (rule arg_cong [where f = "compact_size_write E"], simp)
qed

lemma input_sighash_pinv:
  assumes inv: "pinv E s"
    and st: "pz_state (pczt_parser s) = WaitTransparentInputSighashType"
  shows "wp (parse_transparent_input_sighash_type E) (step_post E s) (step_fail s) s"
proof -
  have op: "inputs_open (pz_state (pczt_parser s))" by (simp add: st)
  note ok = inputs_openD [OF inv op]
  show ?thesis
    unfolding parse_transparent_input_sighash_type_def
    using ok st
    apply (simp add: wp_simps vc_simps cong: wp_cong split del: if_split)
    by (auto intro!: input_stepI [OF inv op]
        simp: input_defs struct_defs beside_inputs_def digest_defs remaining_len_def)
qed

lemma bip32_try_from_bytes_fault:
  "bip32_try_from_bytes d = Inl e \<Longrightarrow> e = Fail WrongApduLength"
  by (auto simp: bip32_try_from_bytes_def from_prefixed_bytes_def from_dpath_def err_def slice_def
      Let_def rbind_eq_Inl BIP32_BYTES_PER_SEGMENT_def split: if_splits)

lemma derivation_path_cases:
  assumes "derivation_path_from n d msg = r"
  shows "r = err (Custom msg) \<or> (\<exists>p. r = Inr p \<and> n < length d)"
proof (cases "bip32_try_from_bytes (drop n d)")
  case (Inl e)
  with assms bip32_try_from_bytes_fault [OF Inl] show ?thesis
    by (simp add: derivation_path_from_def map_err_r_def err_def)
next
  case (Inr p)
  then have "drop n d \<noteq> []"
    by (auto simp: bip32_try_from_bytes_char encode_path_def)
  with Inr assms show ?thesis by (auto simp: derivation_path_from_def)
qed

lemma input_derivation_pinv:
  assumes E: "codec_laws E" and inv: "pinv E s"
    and st: "pz_state (pczt_parser s) = WaitTransparentInputBip32Derivation"
  shows "wp (parse_transparent_input_bip32_derivation E) (step_post E s) (step_fail s) s"
proof -
  have op: "inputs_open (pz_state (pczt_parser s))" by (simp add: st)
  note ok = inputs_openD [OF inv op]
  have inc: "usize_saturating_add (transparent_input_parsed_count (pczt_parser s)) (Suc 0)
      = Suc (transparent_input_parsed_count (pczt_parser s))"
    using ok(2) st
    by (simp add: input_defs usize_saturating_add_def USIZE_MAX_def MAX_PCZT_TRANSPARENT_INPUTS_NUMBER_def)
  show ?thesis
    unfolding parse_transparent_input_bip32_derivation_def finish_transparent_input_bip32_derivation_def
      finalize_transparent_inputs_def
    using ok st
    apply (simp add: wp_simps vc_simps slice_def cong: wp_cong split del: if_split)
    apply (intro allI impI conjI)
    apply (auto intro!: input_stepI [OF inv op] dest!: compact_size_readD [OF E] derivation_path_cases
        simp: input_defs struct_defs beside_inputs_def digest_defs ser_script_def remaining_len_def err_def size_consts input_ok_def inc)
    done
qed

section \<open>The loop over input packets\<close>

lemma inputs_step_pinv:
  assumes E: "env_laws E" and inv: "pinv E s" and left: "packet_left s"
  shows "wp (transparent_inputs_step E) (step_post E s) (step_fail s) s"
  using env_lawsD(1) [OF E] inv left unfolding transparent_inputs_step_def
  by (cases "pz_state (pczt_parser s)")
    (simp_all add: wp_simps inputs_start_pinv input_pinv input_script_pinv input_script_start_pinv
      input_sighash_pinv input_derivation_pinv)

text \<open>What a packet loop keeps: the laws of the environment, which the steps rely on, the session
  invariant, and the frame since the packet arrived.\<close>

definition loop_inv :: "env \<Rightarrow> world \<Rightarrow> world \<Rightarrow> bool" where
  "loop_inv E s0 s \<longleftrightarrow> env_laws E \<and> swap_ok s0 \<and> pinv E s \<and> parse_frame s0 s
     \<and> (\<not> pczt_finished (pczt_parser s0) \<longrightarrow> \<not> pczt_finished (pczt_parser s))"

lemma swap_ok_frame: "swap_ok s \<Longrightarrow> parse_frame s s' \<Longrightarrow> swap_ok s'"
  by (simp add: swap_ok_def parse_frame_def)

lemma packet_stepI:
  assumes "\<And>s. env_laws E \<Longrightarrow> swap_ok s \<Longrightarrow> pinv E s \<Longrightarrow> packet_left s \<Longrightarrow> wp step (step_post E s) (step_fail s) s"
    and "loop_inv E s0 s" "packet_left s"
  shows "wp step (\<lambda>_ s'. loop_inv E s0 s' \<and> remaining_len s' < remaining_len s)
    (\<lambda>e s'. case e of Fail x \<Rightarrow> parse_frame s0 s' | Panic \<Rightarrow> False | Diverge \<Rightarrow> False) s"
proof -
  have "wp step (step_post E s) (step_fail s) s"
    using assms swap_ok_frame [of s0 s] by (auto simp: loop_inv_def)
  then show ?thesis
    by (rule wp_mono) (use assms(2) in \<open>auto simp: loop_inv_def step_post_def step_fail_def
        intro: parse_frame_trans split: fault.splits\<close>)
qed

interpretation inputs_loop: packet_loop packet_left remaining_len "transparent_inputs_step E"
  "loop_inv E s0" "\<lambda>x s'. parse_frame s0 s'" for E s0
  by unfold_locales (auto simp: packet_left_def intro!: packet_stepI inputs_step_pinv)

end
