(* ===== verification/Pczt_Output_Proofs.thy ===== *)
theory Pczt_Output_Proofs
  imports Pczt_Input_Proofs
begin

text \<open>
  Every step on the transparent outputs keeps the session invariant: what the outputs digest
  absorbs is what the review will list, an output is hidden only when it pays a key of the recorded
  account, and the totals add up.
\<close>

section \<open>Steps on the outputs\<close>

definition beside_outputs :: "pczt_parser \<Rightarrow> tx_info \<Rightarrow> pczt_parser \<Rightarrow> tx_info \<Rightarrow> bool" where
  "beside_outputs p t p' t' \<longleftrightarrow>
     transparent_inputs p' = transparent_inputs p
   \<and> transparent_input_count p' = transparent_input_count p
   \<and> transparent_input_parsed_count p' = transparent_input_parsed_count p
   \<and> outputs_reviewed p' = outputs_reviewed p \<and> pczt_finished p' = pczt_finished p
   \<and> view OrchardPool p' = view OrchardPool p \<and> view IronwoodPool p' = view IronwoodPool p
   \<and> is_v6_tx p' = is_v6_tx p \<and> total_amount t' = total_amount t
   \<and> prevouts_hash t' = prevouts_hash t \<and> sequence_hash t' = sequence_hash t
   \<and> amounts_hash t' = amounts_hash t \<and> scripts_hash t' = scripts_hash t
   \<and> shielded_outs t' = shielded_outs t \<and> (is_change_found t \<longrightarrow> is_change_found t') \<and> is_v6 t' = is_v6 t
   \<and> displayed_shielded_outputs t' = displayed_shielded_outputs t
   \<and> retained_memo_bytes t' = retained_memo_bytes t
   \<and> tx_version t' = tx_version t \<and> branch_id t' = branch_id t"

definition in_outputs :: "pczt_parser_state \<Rightarrow> bool" where
  "in_outputs st \<longleftrightarrow> outputs_open st \<and> \<not> inputs_open st"

lemma in_outputs_phases:
  "in_outputs st \<or> st = TransparentOutputsDone \<Longrightarrow>
     \<not> inputs_open st \<and> \<not> in_head st \<and> \<not> in_script st \<and> pool_phase pl st = NotStarted
     \<and> \<not> is_ironwood_state st \<and> st \<noteq> OrchardActionsDone \<and> st \<noteq> WaitTransparentInputsCount \<and> active st"
  by (cases st; cases pl) (auto simp: active_def in_outputs_def)

lemma output_stepI:
  assumes inv: "pinv E s" and st: "in_outputs (pz_state (pczt_parser s))"
    and st': "in_outputs (pz_state (pczt_parser s')) \<or> pz_state (pczt_parser s') = TransparentOutputsDone"
    and rest: "beside_outputs (pczt_parser s) (tx_info s) (pczt_parser s') (tx_info s')"
    and ok': "struct_ok (pczt_parser s')" "outputs_ok E raws (pczt_parser s') (hashers s') (tx_info s')"
      "change_ok (tx_info s')"
    and rd: "remaining_len s' < remaining_len s" and frame: "parse_frame s s'"
  shows "step_post E s u s'"
proof -
  note ph = in_outputs_phases [OF disjI1 [OF st]] in_outputs_phases [OF st']
  have act: "active (pz_state (pczt_parser s))" using ph by blast
  show ?thesis
  proof (rule pinvE [OF inv act])
    assume ok: "inputs_ok E (pczt_parser s) (hashers s) (tx_info s)"
      "budget_ok (tx_info s)" "has_version (tx_info s)"
      "shielded_ok (pczt_parser s) (tx_info s)" "review_ok s"
    have nr: "\<not> outputs_reviewed (pczt_parser s)"
      using ok(5) ph(1) st by (auto simp: review_ok_def parsed_all_def split: if_splits)
    show ?thesis
    proof (rule step_postI [OF _ ok'(1) _ ok'(2,3) _ _ _ _ rd frame])
      show "active (pz_state (pczt_parser s'))" using ph(2) by simp
      show "inputs_ok E (pczt_parser s') (hashers s') (tx_info s')"
        using ok(1) ph rest by (simp add: beside_outputs_def input_defs digest_of_def)
      have t: "shielded_outs (tx_info s') = shielded_outs (tx_info s)"
        "is_change_found (tx_info s) \<longrightarrow> is_change_found (tx_info s')"
        "displayed_shielded_outputs (tx_info s') = displayed_shielded_outputs (tx_info s)"
        "retained_memo_bytes (tx_info s') = retained_memo_bytes (tx_info s)"
        using rest by (simp_all add: beside_outputs_def)
      show "budget_ok (tx_info s')"
        using ok(2) t by (cases "is_change_found (tx_info s)") (auto simp: budget_ok_def)
      show "has_version (tx_info s')"
        using ok(3) rest by (simp add: beside_outputs_def has_version_def)
      show "shielded_ok (pczt_parser s') (tx_info s')"
        using ok(4) ph rest by (simp add: beside_outputs_def shielded_ok_def all_pools)
      show "review_ok s'"
        using ok(5) nr rest by (simp add: beside_outputs_def review_ok_def all_pools)
      show "\<not> pczt_finished (pczt_parser s')"
        using ok(5) nr rest by (simp add: beside_outputs_def review_ok_def)
    qed
  qed
qed

lemma in_outputsE:
  assumes "pinv E s" "in_outputs (pz_state (pczt_parser s))"
  obtains raws where "struct_ok (pczt_parser s)"
    "outputs_ok E raws (pczt_parser s) (hashers s) (tx_info s)" "change_ok (tx_info s)"
    "\<not> outputs_reviewed (pczt_parser s)" "\<not> pczt_finished (pczt_parser s)"
proof (rule pinvE [OF assms(1)])
  show "active (pz_state (pczt_parser s))" using assms(2) in_outputs_phases by blast
  fix raws
  assume ok: "struct_ok (pczt_parser s)" "outputs_ok E raws (pczt_parser s) (hashers s) (tx_info s)"
    "change_ok (tx_info s)" "review_ok s"
  have "\<not> outputs_reviewed (pczt_parser s)"
    using ok(4) assms(2) by (auto simp: in_outputs_def review_ok_def parsed_all_def split: if_splits)
  with ok show thesis by (intro that) (auto simp: review_ok_def)
qed

lemma change_ok_frame [simp]:
  "change_ok (t\<lparr> change_pk_hash := x \<rparr>) = change_ok t"
  "change_ok (t\<lparr> outputs_hash := d \<rparr>) = change_ok t"
  by (simp_all add: change_ok_def)

lemma outputs_start_pinv:
  assumes E: "codec_laws E" and inv: "pinv E s"
    and st: "pz_state (pczt_parser s) = TransparentInputsDone"
  shows "wp (parse_transparent_outputs_start E) (step_post E s) (step_fail s) s"
proof -
  have op: "in_outputs (pz_state (pczt_parser s))" by (simp add: st in_outputs_def)
  show ?thesis
  proof (rule in_outputsE [OF inv op])
    fix raws
    assume ok: "struct_ok (pczt_parser s)"
      "outputs_ok E raws (pczt_parser s) (hashers s) (tx_info s)" "change_ok (tx_info s)"
      "\<not> outputs_reviewed (pczt_parser s)" "\<not> pczt_finished (pczt_parser s)"
    show ?thesis
      unfolding parse_transparent_outputs_start_def finalize_transparent_outputs_def
      using ok st compact_size_readD [OF E, of "remaining_slice s"]
      apply (simp add: wp_simps vc_simps cong: wp_cong split del: if_split)
      apply (intro allI impI conjI)
      by (auto intro!: output_stepI [OF inv op, where raws = "[]"]
          simp: output_defs struct_defs beside_outputs_def in_outputs_def digest_defs change_ok_def
            shielded_outs_def amount_sum_def)
  qed
qed

lemma list_all2_displays_sum:
  "list_all2 (displays E acc) raws outs \<Longrightarrow> amount_sum outs = (\<Sum>r\<leftarrow>raws. unat (fst r))"
  by (induction rule: list_all2_induct) (simp_all add: amount_sum_def displays_def)

lemma raw_sum_bound:
  "list_all (\<lambda>r. unat (fst r) \<le> MAX_MONEY) raws \<Longrightarrow> (\<Sum>r\<leftarrow>raws. unat (fst r)) \<le> length raws * MAX_MONEY"
  by (induction raws) auto

lemma zatoshis_bytes:
  assumes "codec_laws E" "zatoshis_from_nonnegative_i64_le_bytes E bs = Some v" "length bs = 8"
  shows "bs = u64_to_le_bytes v \<and> unat v \<le> MAX_MONEY"
  using zatoshisD [OF assms(1,2)] le_of_nat_nat_of_le [OF assms(3)] by (simp add: u64_to_le_bytes_def)

lemma output_total_step:
  assumes "outputs_ok E raws p h t" "pz_state p = WaitTransparentOutput" "unat a \<le> MAX_MONEY"
  shows "unat (u64_saturating_add (total_output_amount p) a) = amount_sum (transparent_outs t) + unat a"
proof -
  have "unat (total_output_amount p) = amount_sum (transparent_outs t)"
    using assms(1,2) by (simp add: outputs_ok_def)
  moreover have "amount_sum (transparent_outs t) \<le> length raws * MAX_MONEY"
    using assms(1) list_all2_displays_sum raw_sum_bound unfolding outputs_ok_def output_counts_ok_def
    by metis
  moreover have "length raws \<le> 32"
    using assms(1,2) by (simp add: outputs_ok_def output_counts_ok_def MAX_PCZT_TRANSPARENT_OUTPUTS_NUMBER_def)
  ultimately show ?thesis using unat_add_amount assms(3) by simp
qed

lemma output_pinv:
  assumes E: "codec_laws E" and inv: "pinv E s"
    and st: "pz_state (pczt_parser s) = WaitTransparentOutput"
  shows "wp (parse_transparent_output E) (step_post E s) (step_fail s) s"
proof -
  have op: "in_outputs (pz_state (pczt_parser s))" by (simp add: st in_outputs_def)
  show ?thesis
  proof (rule in_outputsE [OF inv op])
    fix raws
    assume ok: "struct_ok (pczt_parser s)"
      "outputs_ok E raws (pczt_parser s) (hashers s) (tx_info s)" "change_ok (tx_info s)"
      "\<not> outputs_reviewed (pczt_parser s)" "\<not> pczt_finished (pczt_parser s)"
    show ?thesis
      unfolding parse_transparent_output_def
      using ok st
      apply (simp add: wp_simps vc_simps cong: wp_cong split del: if_split)
      apply (intro allI impI conjI)
      apply (frule zatoshis_bytes [OF E])
      apply simp
      by (auto intro!: output_stepI [OF inv op, where raws = raws] simp: output_total_step [OF ok(2) st]
          outputs_ok_def output_counts_ok_def outputs_data_def transparent_outs_def struct_defs beside_outputs_def in_outputs_def digest_defs change_ok_def
            shielded_outs_def)
  qed
qed

lemma output_script_pinv:
  assumes E: "codec_laws E" and inv: "pinv E s"
    and st: "pz_state (pczt_parser s) = ProcessTransparentOutputScript n r" and left: "packet_left s"
  shows "wp (parse_transparent_output_script E n r) (step_post E s) (step_fail s) s"
proof -
  have op: "in_outputs (pz_state (pczt_parser s))" by (simp add: st in_outputs_def)
  show ?thesis
  proof (rule in_outputsE [OF inv op])
    fix raws
    assume ok: "struct_ok (pczt_parser s)"
      "outputs_ok E raws (pczt_parser s) (hashers s) (tx_info s)" "change_ok (tx_info s)"
      "\<not> outputs_reviewed (pczt_parser s)" "\<not> pczt_finished (pczt_parser s)"
    show ?thesis
      unfolding parse_transparent_output_script_def parse_transparent_script_def
        finish_transparent_script_def finish_transparent_output_script_def
        set_transparent_script_process_state_def write_transparent_script_def transparent_script_kind.case
      using ok st left
      apply (simp add: wp_simps vc_simps Let_def packet_left_def cong: wp_cong split del: if_split)
      apply (intro allI impI conjI)
      apply (auto intro!: output_stepI [OF inv op, where raws = raws]
          simp: output_defs struct_defs beside_outputs_def in_outputs_def digest_defs
            shielded_outs_def ser_script_def remaining_len_def)
      by ((rule arg_cong [where f = "compact_size_write E"], simp)+)
  qed
qed

lemma output_script_start_pinv:
  assumes E: "codec_laws E" and inv: "pinv E s"
    and st: "pz_state (pczt_parser s) = WaitTransparentOutputScript"
  shows "wp (parse_transparent_output_script_start E) (step_post E s) (step_fail s) s"
proof -
  have op: "in_outputs (pz_state (pczt_parser s))" by (simp add: st in_outputs_def)
  show ?thesis
  proof (rule in_outputsE [OF inv op])
    fix raws
    assume ok: "struct_ok (pczt_parser s)"
      "outputs_ok E raws (pczt_parser s) (hashers s) (tx_info s)" "change_ok (tx_info s)"
      "\<not> outputs_reviewed (pczt_parser s)" "\<not> pczt_finished (pczt_parser s)"
    show ?thesis
      unfolding parse_transparent_output_script_start_def parse_transparent_script_start_def
        parse_transparent_script_def finish_transparent_script_def finish_transparent_output_script_def
        set_transparent_script_process_state_def write_transparent_script_def transparent_script_kind.case
      using ok st
      apply (simp add: wp_simps vc_simps Let_def cong: wp_cong split del: if_split)
      apply (intro allI impI conjI)
      apply (auto intro!: output_stepI [OF inv op, where raws = raws] dest!: compact_size_readD [OF E]
          simp: output_defs struct_defs beside_outputs_def in_outputs_def digest_defs
            shielded_outs_def ser_script_def remaining_len_def)
      by ((rule arg_cong [where f = "compact_size_write E"], simp)+)
  qed
qed

lemma displays_account_mono:
  "displays E acc r out \<Longrightarrow> acc = None \<or> acc = acc' \<Longrightarrow> displays E acc' r out"
  by (auto simp: displays_def own_change_def)

lemma list_all2_displays_mono:
  "list_all2 (displays E acc) raws outs \<Longrightarrow> acc = None \<or> acc = acc' \<Longrightarrow>
     list_all2 (displays E acc') raws outs"
  by (erule list_all2_mono) (rule displays_account_mono)

lemma full_path_account: "check_bip44_compliance p (Full b) \<Longrightarrow> derivation_account p \<noteq> None"
  by (auto simp: full_branch derivation_account_def BIP44_PATH_LEN_def)

lemma payload_clean: "clean (output_script_to_transparent_payload scr)"
  unfolding output_script_to_transparent_payload_def
  by (auto simp: slice_def address_consts output_script_is_p2sh_def output_script_is_regular_def script_consts)

lemma checksum_clean: "hash_laws E \<Longrightarrow> clean (double_sha256_checksum E x)"
  unfolding double_sha256_checksum_def hash_laws_def
  by (auto intro!: clean_rbind simp: slice_def)

lemma from_output_script_clean: "hash_laws E \<Longrightarrow> clean (from_output_script E scr)"
  unfolding from_output_script_def from_p2pkh_payload_def base58check_transparent_address_def
  by (auto intro!: clean_rbind payload_clean checksum_clean)

section \<open>Closing an output\<close>

lemma outs_frame [simp]:
  "transparent_outs (t\<lparr> change_pk_hash := x \<rparr>) = transparent_outs t"
  "transparent_outs (t\<lparr> change_account := y \<rparr>) = transparent_outs t"
  "shielded_outs (t\<lparr> change_pk_hash := x \<rparr>) = shielded_outs t"
  "shielded_outs (t\<lparr> change_account := y \<rparr>) = shielded_outs t"
  by (simp_all add: transparent_outs_def shielded_outs_def)

text \<open>The change hash, when there is one, is that of a key of the recorded account.\<close>

definition change_hash_ok :: "env \<Rightarrow> tx_info \<Rightarrow> bool" where
  "change_hash_ok E t \<longleftrightarrow> (\<forall>h. change_pk_hash t = Some h \<longrightarrow> own_change E (p2pkh_script h) (change_account t))"

lemma outputs_close:
  assumes ok: "outputs_ok E raws p h (t\<lparr> change_pk_hash := None \<rparr>)"
    and st: "pz_state p = WaitTransparentOutputBip32Derivation"
    and t: "outputs t' = outputs t @ [last (outputs t')]" "change_account t' = change_account t"
    and out: "displays E (change_account t) (current_output_amount p, script_bytes p) (last (outputs t'))"
      "out_pool (last (outputs t')) = PoolTransparent"
    and p: "transparent_output_count p' = transparent_output_count p"
      "transparent_output_parsed_count p' = Suc (transparent_output_parsed_count p)"
      "total_output_amount p' = total_output_amount p"
    and st': "(if transparent_output_parsed_count p' = transparent_output_count p'
       then pz_state p' = TransparentOutputsDone \<and> outputs_hash t' = blake2b_256_digest E (outputs_hasher h)
       else pz_state p' = WaitTransparentOutput \<and> outputs_hasher h' = outputs_hasher h)"
  shows "outputs_ok E (raws @ [(current_output_amount p, script_bytes p)]) p' h' t'"
proof -
  define out where "out = last (outputs t')"
  note out' = out [folded out_def] and t' = t [folded out_def]
  have hd: "outputs_hasher h = \<lparr> b_perso = ZCASH_OUTPUTS_HASH_PERSONALIZATION,
      b_data = concat (map (ser_output E) (raws @ [(current_output_amount p, script_bytes p)])), b_final = False \<rparr>"
    using ok st by (simp add: outputs_ok_def outputs_data_def digest_of_def ser_output_def)
  have outs: "list_all2 (displays E (change_account t)) raws (transparent_outs t)"
    "transparent_outs t' = transparent_outs t @ [out]" "out_amount out = current_output_amount p"
    using ok t' out' by (simp_all add: output_defs displays_def)
  show ?thesis
    using ok st st' t'(2) p hd outs out'(1)
    by (cases "transparent_output_parsed_count p' = transparent_output_count p'")
      (simp_all add: outputs_ok_def output_counts_ok_def outputs_data_def digest_defs
        list_all2_appendI amount_sum_def)
qed

lemma clean_map_errD: "map_err_r f r = Inl e \<Longrightarrow> clean r \<Longrightarrow> just_fails e"
  by (metis clean_map_err cleanD)

lemma change_ok_close:
  assumes "change_ok t" "outputs t' = outputs t @ [last (outputs t')]" "change_account t' = change_account t"
    "out_is_change (last (outputs t')) \<longrightarrow> \<not> is_change_found t \<and> change_account t \<noteq> None"
    "is_change_found t' = (is_change_found t \<or> out_is_change (last (outputs t')))"
  shows "change_ok t'"
proof -
  define out where "out = last (outputs t')"
  note assms' = assms [folded out_def]
  show ?thesis using assms' by (auto simp: change_ok_def split: if_splits)
qed

lemma finish_output_pinv:
  assumes E: "hash_laws E" and inv: "pinv E s0" and op: "in_outputs (pz_state (pczt_parser s0))"
    and st: "pz_state (pczt_parser s) = WaitTransparentOutputBip32Derivation"
    and ok: "struct_ok (pczt_parser s)" "outputs_ok E raws (pczt_parser s) (hashers s) (tx_info s\<lparr> change_pk_hash := None \<rparr>)"
      "change_ok (tx_info s)" "change_hash_ok E (tx_info s)"
    and same: "beside_outputs (pczt_parser s0) (tx_info s0) (pczt_parser s) (tx_info s)"
    and rd: "remaining_len s < remaining_len s0" and frame: "parse_frame s0 s"
  shows "wp (finish_transparent_output E) (step_post E s0) (step_fail s0) s"
proof -
  have inc: "usize_saturating_add (transparent_output_parsed_count (pczt_parser s)) (Suc 0)
      = Suc (transparent_output_parsed_count (pczt_parser s))"
    using ok(2) st
    by (simp add: output_defs usize_saturating_add_def USIZE_MAX_def MAX_PCZT_TRANSPARENT_OUTPUTS_NUMBER_def)
  have ch: "own_change E (script_bytes (pczt_parser s)) (change_account (tx_info s))"
    if "check_output_displayable (script_bytes (pczt_parser s)) a (change_pk_hash (tx_info s)) = CdChange" for a
    using that ok(4) by (auto simp: check_change_iff change_hash_ok_def)
  have acc: "change_account (tx_info s) \<noteq> None"
    if "check_output_displayable (script_bytes (pczt_parser s)) a (change_pk_hash (tx_info s)) = CdChange" for a
    using ch [OF that] by (simp add: own_change_def)
  have cl: "just_fails e" if "map_err_r Sw (from_output_script E x) = Inl e" for x e
    using that from_output_script_clean [OF E] by (rule clean_map_errD)
  show ?thesis
    unfolding finish_transparent_output_def finalize_transparent_outputs_def lift_sw_def
    using st frame rd
    apply (simp add: wp_simps vc_simps Let_def inc cong: wp_cong split del: if_split)
    apply (intro allI impI conjI)
    apply (simp_all add: step_fail_def cl)
    by (rule output_stepI [OF inv op _ _ _ outputs_close [OF ok(2) st] change_ok_close [OF ok(3)]];
      use same ok(1) ch acc in \<open>auto simp: in_outputs_def beside_outputs_def struct_defs displays_def shielded_outs_def\<close>)+
qed

lemma step_post_advance:
  assumes "step_post E s () s'"
  shows "step_post E s () (s'\<lparr> rd_pos := rd_pos s' + n \<rparr>)"
  using assms by (auto simp: step_post_def pinv_def review_ok_def remaining_len_def)

lemma key_clean:
  "clean (extended_public_key_try_from E p)" "clean (compressed_public_key k)" "clean (hash160 E x)"
  unfolding extended_public_key_try_from_def compressed_public_key_def hash160_def Let_def
  by (auto intro!: clean_rbind)

lemma wp_then_advance:
  assumes "wp m (step_post E s) (step_fail s) s1"
  shows "wp m (\<lambda>_. wp (bnd (advance n) (\<lambda>_. ensure_group_end msg)) (step_post E s) (step_fail s))
    (step_fail s) s1"
  using assms
  by (rule wp_mono) (auto simp: wp_simps intro: step_post_advance, auto simp: step_post_def)

lemma change_ok_account: "change_ok t \<Longrightarrow> acc \<noteq> None \<Longrightarrow> change_ok (t\<lparr> change_pk_hash := h, change_account := acc \<rparr>)"
  by (simp add: change_ok_def)

lemma output_derivation_pinv:
  assumes E: "codec_laws E" "hash_laws E" and inv: "pinv E s"
    and st: "pz_state (pczt_parser s) = WaitTransparentOutputBip32Derivation"
  shows "wp (parse_transparent_output_bip32_derivation E) (step_post E s) (step_fail s) s"
proof -
  have op: "in_outputs (pz_state (pczt_parser s))" by (simp add: st in_outputs_def)
  show ?thesis
  proof (rule in_outputsE [OF inv op])
    fix raws
    assume ok: "struct_ok (pczt_parser s)"
      "outputs_ok E raws (pczt_parser s) (hashers s) (tx_info s)" "change_ok (tx_info s)"
      "\<not> outputs_reviewed (pczt_parser s)" "\<not> pczt_finished (pczt_parser s)"
    show ?thesis
      unfolding parse_transparent_output_bip32_derivation_def finish_transparent_output_bip32_derivation_def
        lift_sw_def
      using st
      apply (simp add: wp_simps vc_simps slice_def cong: wp_cong split del: if_split)
      apply (intro allI impI conjI)
      apply (auto dest!: derivation_path_cases clean_map_errD compact_size_readD [OF E(1)] simp: size_consts err_def key_clean step_fail_def split: if_splits)
      apply (rule finish_output_pinv [OF E(2) inv op, where raws = raws];
        use ok in \<open>auto simp: change_hash_ok_def beside_outputs_def remaining_len_def outputs_ok_def\<close>)
      apply (rule wp_then_advance, rule finish_output_pinv [OF E(2) inv op, where raws = raws];
        use ok in \<open>auto simp: change_hash_ok_def beside_outputs_def remaining_len_def outputs_ok_def
          own_change_def change_ok_account intro: list_all2_displays_mono dest: full_path_account\<close>)+
      done
  qed
qed

section \<open>The loop over output packets\<close>

lemma outputs_step_pinv:
  assumes E: "env_laws E" and inv: "pinv E s" and left: "packet_left s"
  shows "wp (transparent_outputs_step E) (step_post E s) (step_fail s) s"
  using env_lawsD(1,2) [OF E] inv left unfolding transparent_outputs_step_def
  by (cases "pz_state (pczt_parser s)")
    (simp_all add: wp_simps outputs_start_pinv output_pinv output_script_pinv output_script_start_pinv
      output_derivation_pinv)

interpretation outputs_loop: packet_loop packet_left remaining_len "transparent_outputs_step E"
  "loop_inv E s0" "\<lambda>x s'. parse_frame s0 s'" for E s0
  by unfold_locales (auto simp: packet_left_def intro!: packet_stepI outputs_step_pinv)

end
