(* ===== verification/Pczt_Action_Proofs.thy ===== *)
theory Pczt_Action_Proofs
  imports Pczt_Output_Proofs
begin

text \<open>
  The steps of a shielded bundle that stay inside one action: its fields, its derivation, its
  outputs and its ciphertexts.  They change nothing the invariant relates beyond the current action,
  so each is closed by one rule, for both pools at once.
\<close>

section \<open>The states of a pool\<close>

lemma pool_opened [simp]:
  "pool_phase pl (wait_action pl) = Opened" "pool_phase pl (wait_zip32 pl) = Opened"
  "pool_phase pl (wait_output pl) = Opened" "pool_phase pl (wait_enc_len pl) = Opened"
  "pool_phase pl (process_enc pl) = Opened" "pool_phase pl (wait_out_len pl) = Opened"
  "pool_phase pl (process_out pl) = Opened" "pool_phase pl (wait_metadata pl) = Opened"
  "pool_phase pl (wait_trailer pl) = Closing" "pool_phase pl (actions_done pl) = Closed"
  by (cases pl; simp)+

lemma pool_field_ok [simp]:
  "field_ok (wait_action pl) f = (f = [])" "field_ok (wait_zip32 pl) f = (f = [])"
  "field_ok (wait_output pl) f = (f = [])" "field_ok (wait_enc_len pl) f = (f = [])"
  "field_ok (wait_out_len pl) f = (f = [])" "field_ok (wait_metadata pl) f = (f = [])"
  "field_ok (wait_trailer pl) f = (f = [])" "field_ok (actions_done pl) f = (f = [])"
  "field_ok (process_enc pl) f = (length f < ORCHARD_ENC_CIPHERTEXT_SIZE)"
  "field_ok (process_out pl) f = (length f < ORCHARD_OUT_CIPHERTEXT_SIZE)"
  by (cases pl; simp)+

lemma pool_script_ok [simp]:
  "script_ok (wait_action pl) scr" "script_ok (wait_zip32 pl) scr" "script_ok (wait_output pl) scr"
  "script_ok (wait_enc_len pl) scr" "script_ok (process_enc pl) scr" "script_ok (wait_out_len pl) scr"
  "script_ok (process_out pl) scr" "script_ok (wait_metadata pl) scr" "script_ok (wait_trailer pl) scr"
  "script_ok (actions_done pl) scr"
  by (cases pl; simp)+

text \<open>What a pool that has begun implies for the rest of the machine.\<close>

lemma pool_begun:
  "pool_phase pl st \<noteq> NotStarted \<Longrightarrow>
     active st \<and> \<not> inputs_open st \<and> \<not> outputs_open st \<and> \<not> in_head st \<and> \<not> in_script st
     \<and> \<not> out_head st \<and> \<not> out_script st \<and> st \<noteq> TransparentInputsDone
     \<and> st \<noteq> WaitTransparentInputsCount \<and> script_ok st scr"
  by (cases st; cases pl) (auto simp: active_def)

text \<open>The phase of the other pool, and whether this is a pool of version 6, while \<open>pl\<close> is parsed.\<close>

fun other :: "pool \<Rightarrow> pool" where
  "other OrchardPool = IronwoodPool" | "other IronwoodPool = OrchardPool"

fun other_phase :: "pool \<Rightarrow> phase" where
  "other_phase OrchardPool = NotStarted" | "other_phase IronwoodPool = Closed"

definition in_pool :: "pool \<Rightarrow> pczt_parser_state \<Rightarrow> bool" where
  "in_pool pl st \<longleftrightarrow> pool_phase pl st = Opened \<or> pool_phase pl st = Closing"

lemma in_poolD:
  "in_pool pl st \<Longrightarrow> pool_phase (other pl) st = other_phase pl
     \<and> (is_ironwood_state st \<longleftrightarrow> pl = IronwoodPool) \<and> st \<noteq> OrchardActionsDone \<and> st \<noteq> IronwoodActionsDone
     \<and> pool_phase pl st \<noteq> NotStarted"
  by (cases st; cases pl) (auto simp: in_pool_def)

lemma in_pool_simps [simp]:
  "in_pool pl (wait_action pl)" "in_pool pl (wait_zip32 pl)" "in_pool pl (wait_output pl)"
  "in_pool pl (wait_enc_len pl)" "in_pool pl (process_enc pl)" "in_pool pl (wait_out_len pl)"
  "in_pool pl (process_out pl)" "in_pool pl (wait_metadata pl)" "in_pool pl (wait_trailer pl)"
  by (simp_all add: in_pool_def)

lemma all_pools_of: "(\<forall>q. P q) \<longleftrightarrow> P pl \<and> P (other pl)"
  by (cases pl) (auto simp: all_pools)

section \<open>Steps of a pool\<close>

text \<open>What every step on a bundle leaves alone: the transparent part, closed by now, and the other
  pool.\<close>

definition beside_pool :: "pczt_parser \<Rightarrow> tx_info \<Rightarrow> pczt_parser \<Rightarrow> tx_info \<Rightarrow> bool" where
  "beside_pool p t p' t' \<longleftrightarrow>
     transparent_inputs p' = transparent_inputs p
   \<and> transparent_input_count p' = transparent_input_count p
   \<and> transparent_input_parsed_count p' = transparent_input_parsed_count p
   \<and> transparent_output_count p' = transparent_output_count p
   \<and> transparent_output_parsed_count p' = transparent_output_parsed_count p
   \<and> total_output_amount p' = total_output_amount p \<and> total_amount t' = total_amount t
   \<and> prevouts_hash t' = prevouts_hash t \<and> sequence_hash t' = sequence_hash t
   \<and> amounts_hash t' = amounts_hash t \<and> scripts_hash t' = scripts_hash t \<and> outputs_hash t' = outputs_hash t
   \<and> (change_account t = None \<or> change_account t = change_account t')
   \<and> list_all2 (\<lambda>out out'. out' = out \<or> out' = out\<lparr> out_is_change := False \<rparr>)
       (transparent_outs t) (transparent_outs t')
   \<and> is_v6 t' = is_v6 t \<and> tx_version t' = tx_version t \<and> branch_id t' = branch_id t"

lemma displays_reveal:
  "displays E acc r out \<Longrightarrow> out' = out \<or> out' = out\<lparr> out_is_change := False \<rparr> \<Longrightarrow> displays E acc r out'"
  by (auto simp: displays_def)

lemma list_all2_displays_reveal:
  assumes "list_all2 (displays E acc) raws outs"
    "list_all2 (\<lambda>out out'. out' = out \<or> out' = out\<lparr> out_is_change := False \<rparr>) outs outs'"
  shows "list_all2 (displays E acc) raws outs'"
  using assms by (auto simp: list_all2_conv_all_nth) (metis displays_reveal)

lemma amount_sum_reveal:
  "list_all2 (\<lambda>out out'. out' = out \<or> out' = out\<lparr> out_is_change := False \<rparr>) outs outs' \<Longrightarrow>
     amount_sum outs' = amount_sum outs"
  by (induction rule: list_all2_induct) (auto simp: amount_sum_def)

lemma begun_stepI:
  assumes inv: "pinv E s" and st: "\<not> inputs_open (pz_state (pczt_parser s))"
      "\<not> outputs_open (pz_state (pczt_parser s))" "active (pz_state (pczt_parser s))"
    and st': "pool_phase pl (pz_state (pczt_parser s')) \<noteq> NotStarted"
    and rest: "beside_pool (pczt_parser s) (tx_info s) (pczt_parser s') (tx_info s')"
    and ok': "struct_ok (pczt_parser s')" "change_ok (tx_info s')" "budget_ok (tx_info s')"
      "shielded_ok (pczt_parser s') (tx_info s')" "review_ok s'"
    and rd: "remaining_len s' < remaining_len s" and frame: "parse_frame s s'"
    and nf: "\<not> pczt_finished (pczt_parser s')"
  shows "step_post E s u s'"
proof (rule pinvE [OF inv st(3)])
  fix raws
  assume ok: "inputs_ok E (pczt_parser s) (hashers s) (tx_info s)"
    "outputs_ok E raws (pczt_parser s) (hashers s) (tx_info s)" "has_version (tx_info s)"
  note ph = pool_begun [OF st']
  have st2: "\<not> in_head (pz_state (pczt_parser s))" "\<not> in_script (pz_state (pczt_parser s))"
    "\<not> out_head (pz_state (pczt_parser s))" "\<not> out_script (pz_state (pczt_parser s))"
    "pz_state (pczt_parser s) \<noteq> TransparentInputsDone" "pz_state (pczt_parser s) \<noteq> WaitTransparentInputsCount"
    using st by (cases "pz_state (pczt_parser s)"; simp)+
  have o: "list_all2 (displays E (change_account (tx_info s))) raws (transparent_outs (tx_info s))"
    "change_account (tx_info s) = None \<or> change_account (tx_info s) = change_account (tx_info s')"
    "list_all2 (\<lambda>out out'. out' = out \<or> out' = out\<lparr> out_is_change := False \<rparr>)
       (transparent_outs (tx_info s)) (transparent_outs (tx_info s'))"
    using ok(2) rest by (simp_all add: outputs_ok_def beside_pool_def)
  note d = list_all2_displays_reveal [OF list_all2_displays_mono [OF o(1,2)] o(3)] amount_sum_reveal [OF o(3)]
  show ?thesis
  proof (rule step_postI [OF _ ok'(1) _ _ ok'(2,3) _ ok'(4,5) rd frame nf])
    show "active (pz_state (pczt_parser s'))" using ph by simp
    show "inputs_ok E (pczt_parser s') (hashers s') (tx_info s')"
      using ok(1) st st2 ph rest by (simp add: beside_pool_def input_defs digest_of_def)
    show "outputs_ok E raws (pczt_parser s') (hashers s') (tx_info s')"
      using ok(2) st st2 ph rest d
      by (simp add: beside_pool_def outputs_ok_def output_counts_ok_def outputs_data_def digest_of_def)
    show "has_version (tx_info s')" using ok(3) rest by (simp add: beside_pool_def has_version_def)
  qed
qed


text \<open>A step that stays inside the current action changes no count, sum, record or output.\<close>

definition same_but_action :: "pczt_parser \<Rightarrow> tx_info \<Rightarrow> pczt_parser \<Rightarrow> tx_info \<Rightarrow> bool" where
  "same_but_action p t p' t' \<longleftrightarrow>
     transparent_inputs p' = transparent_inputs p
   \<and> transparent_input_count p' = transparent_input_count p
   \<and> transparent_input_parsed_count p' = transparent_input_parsed_count p
   \<and> transparent_output_count p' = transparent_output_count p
   \<and> transparent_output_parsed_count p' = transparent_output_parsed_count p
   \<and> total_output_amount p' = total_output_amount p
   \<and> view OrchardPool p' = view OrchardPool p \<and> view IronwoodPool p' = view IronwoodPool p
   \<and> outputs_reviewed p' = outputs_reviewed p \<and> pczt_finished p' = pczt_finished p \<and> is_v6_tx p' = is_v6_tx p
   \<and> t'\<lparr> decipher_keys := None \<rparr> = t\<lparr> decipher_keys := None \<rparr>"

lemma decipher_keys_upto:
  fixes t t' :: tx_info
  assumes "t'\<lparr> decipher_keys := None \<rparr> = t\<lparr> decipher_keys := None \<rparr>"
  shows "\<exists>k. t' = t\<lparr> decipher_keys := k \<rparr>"
proof -
  have "t' = (t'\<lparr> decipher_keys := None \<rparr>)\<lparr> decipher_keys := decipher_keys t' \<rparr>"
    by (rule tx_info.equality) simp_all
  then show ?thesis by (auto simp: assms)
qed

lemma list_all2_reveal_refl [simp]:
  "list_all2 (\<lambda>out out'. out' = out \<or> out' = out\<lparr> out_is_change := False \<rparr>) outs outs"
  by (simp add: list_all2_refl)

lemma pool_openE:
  assumes "pinv E s" "in_pool pl (pz_state (pczt_parser s))"
  obtains "struct_ok (pczt_parser s)" "change_ok (tx_info s)" "budget_ok (tx_info s)"
    "shielded_ok (pczt_parser s) (tx_info s)" "review_ok s" "\<not> outputs_reviewed (pczt_parser s)"
    "\<not> pczt_finished (pczt_parser s)" "active (pz_state (pczt_parser s))"
proof (rule pinvE [OF assms(1)])
  note ph = in_poolD [OF assms(2)]
  show act: "active (pz_state (pczt_parser s))" using ph pool_begun by blast
  assume ok: "struct_ok (pczt_parser s)" "change_ok (tx_info s)" "budget_ok (tx_info s)"
    "shielded_ok (pczt_parser s) (tx_info s)" "review_ok s"
  have "\<not> outputs_reviewed (pczt_parser s)"
    using ok(5) ph by (auto simp: review_ok_def parsed_all_def split: if_splits)
  with ok act show thesis by (intro that) (auto simp: review_ok_def)
qed

lemma same_keys_simps:
  assumes "t' = t\<lparr> decipher_keys := k \<rparr>"
  shows "change_ok t' = change_ok t" "budget_ok t' = budget_ok t" "shielded_outs t' = shielded_outs t"
    "transparent_outs t' = transparent_outs t" "is_v6 t' = is_v6 t" "parsed_all p t' = parsed_all p t"
  by (simp_all add: assms change_ok_def budget_ok_def shielded_outs_def transparent_outs_def parsed_all_def)

lemma action_stepI:
  assumes inv: "pinv E s" and st: "pool_phase pl (pz_state (pczt_parser s)) = Opened"
    and st': "pool_phase pl (pz_state (pczt_parser s')) = Opened"
    and same: "same_but_action (pczt_parser s) (tx_info s) (pczt_parser s') (tx_info s')"
    and ok': "struct_ok (pczt_parser s')"
    and rd: "remaining_len s' < remaining_len s" and frame: "parse_frame s s'"
  shows "step_post E s u s'"
proof -
  have op: "in_pool pl (pz_state (pczt_parser s))" "in_pool pl (pz_state (pczt_parser s'))"
    using st st' by (simp_all add: in_pool_def)
  note ph = in_poolD [OF op(1)] in_poolD [OF op(2)]
  have bg: "pool_phase pl (pz_state (pczt_parser s)) \<noteq> NotStarted" using st by simp
  obtain k where keys: "tx_info s' = tx_info s\<lparr> decipher_keys := k \<rparr>"
    using same decipher_keys_upto unfolding same_but_action_def by blast
  note t = same_keys_simps [OF keys]
  have pv: "pool_phase q (pz_state (pczt_parser s')) = pool_phase q (pz_state (pczt_parser s))" for q
    using ph st st' by (cases pl; cases q) simp_all
  have vw: "view q (pczt_parser s') = view q (pczt_parser s)" for q
    using same by (cases q) (simp_all add: same_but_action_def)
  have fields: "orchard_output_value_sum (pczt_parser s') = orchard_output_value_sum (pczt_parser s)"
    "ironwood_output_value_sum (pczt_parser s') = ironwood_output_value_sum (pczt_parser s)"
    "has_ironwood_bundle (pczt_parser s') = has_ironwood_bundle (pczt_parser s)"
    using vw [of OrchardPool] vw [of IronwoodPool] by simp_all
  show ?thesis
  proof (rule pool_openE [OF inv op(1)])
    assume ok: "change_ok (tx_info s)" "budget_ok (tx_info s)"
      "shielded_ok (pczt_parser s) (tx_info s)" "review_ok s" "\<not> outputs_reviewed (pczt_parser s)"
    show ?thesis
    proof (rule begun_stepI [OF inv _ _ _ _ _ ok' _ _ _ _ rd frame])
      show "\<not> inputs_open (pz_state (pczt_parser s))" "\<not> outputs_open (pz_state (pczt_parser s))"
        "active (pz_state (pczt_parser s))"
        using pool_begun [OF bg] by blast+
      show "pool_phase pl (pz_state (pczt_parser s')) \<noteq> NotStarted" using st' by simp
      show "beside_pool (pczt_parser s) (tx_info s) (pczt_parser s') (tx_info s')"
        using same t(4) unfolding beside_pool_def same_but_action_def keys by simp
      show "change_ok (tx_info s')" "budget_ok (tx_info s')" using ok t by simp_all
      show "shielded_ok (pczt_parser s') (tx_info s')"
        using ok(3) ph same t(3,5) pv vw fields unfolding shielded_ok_def same_but_action_def by simp
      show "review_ok s'"
        using ok(4,5) same vw unfolding review_ok_def same_but_action_def by simp
      show "\<not> pczt_finished (pczt_parser s')"
        using ok(4,5) same unfolding review_ok_def same_but_action_def by simp
    qed
  qed
qed


section \<open>Steps inside an action\<close>

lemma wp_ensure_apdu_group_end [wp_simps]:
  "wp (ensure_apdu_group_end pl) Q R s = (if remaining_len s = 0 then Q () s
     else R (Fail (pmsg pl ''Unexpected data after PCZT '' '' APDU field group'')) s)"
  by (simp add: ensure_apdu_group_end_def wp_simps)

lemma wp_read_value [wp_simps]:
  "wp (read_value E e1 e2) Q R s =
     (if 8 \<le> remaining_len s
      then (case zatoshis_from_nonnegative_i64_le_bytes E (take 8 (remaining_slice s)) of
              None \<Rightarrow> R (Fail e2) (s\<lparr> rd_pos := rd_pos s + 8 \<rparr>)
            | Some v \<Rightarrow> Q v (s\<lparr> rd_pos := rd_pos s + 8 \<rparr>))
      else R (Fail e1) (s\<lparr> rd_pos := rd_pos s + remaining_len s \<rparr>))"
  by (simp add: read_value_def wp_simps)

text \<open>Positions in the packet without subtraction.\<close>

lemma le_diff_pos: "0 < k \<Longrightarrow> k \<le> (m :: nat) - n \<longleftrightarrow> n + k \<le> m"
  by linarith

lemma reader_arith:
  "numeral k \<le> (m :: nat) - n \<longleftrightarrow> n + numeral k \<le> m" "Suc 0 \<le> m - n \<longleftrightarrow> n < m"
  "(m - n = 0) = (m \<le> n)"
  using le_diff_pos [of "numeral k" m n] by auto

lemmas reading = reader_arith ORCHARD_RAW_ADDRESS_SIZE_def

lemma action_pinv:
  assumes inv: "pinv E s" and st: "pz_state (pczt_parser s) = wait_action pl"
  shows "wp (parse_action E pl) (step_post E s) (step_fail s) s"
proof -
  have op: "pool_phase pl (pz_state (pczt_parser s)) = Opened" by (simp add: st)
  have ok: "struct_ok (pczt_parser s)"
    by (rule pool_openE [OF inv]) (use op in \<open>auto simp: in_pool_def\<close>)
  show ?thesis
    unfolding parse_action_def
    using ok st
    apply (simp add: wp_simps vc_simps reading cong: wp_cong split del: if_split)
    apply (intro allI impI conjI)
    by (rule action_stepI [OF inv op];
        simp add: struct_defs same_but_action_def remaining_len_def)
qed

lemma output_fields_pinv:
  assumes inv: "pinv E s" and st: "pz_state (pczt_parser s) = wait_output pl"
  shows "wp (parse_output E pl) (step_post E s) (step_fail s) s"
proof -
  have op: "pool_phase pl (pz_state (pczt_parser s)) = Opened" by (simp add: st)
  have ok: "struct_ok (pczt_parser s)"
    by (rule pool_openE [OF inv]) (use op in \<open>auto simp: in_pool_def\<close>)
  show ?thesis
    unfolding parse_output_def
    using ok st
    apply (simp add: wp_simps vc_simps reading cong: wp_cong split del: if_split)
    apply (intro allI impI conjI)
    by (rule action_stepI [OF inv op];
        simp add: struct_defs same_but_action_def remaining_len_def)
qed


lemma key_lawsD:
  assumes "key_laws E"
  shows "clean (pallas_scalar_from_repr E a)" "clean (randomized_verification_key_bytes E a b)"
    "clean (fvk_to_ivk_ledger E a scope)"
  using assms by (simp_all add: key_laws_def)

lemma bip32_clean: "clean (bip32_try_from_bytes d)"
  by (simp add: clean_def) (auto dest: bip32_try_from_bytes_fault)

lemma bip32_drop_length: "bip32_try_from_bytes (drop n d) = Inr p \<Longrightarrow> n < length d"
  using bip32_try_from_bytes_char [of "drop n d" p] by (auto simp: encode_path_def) (metis drop_eq_Nil2 leI list.distinct(1))

lemma bip32_Nil: "bip32_try_from_bytes [] \<noteq> Inr p"
  using bip32_drop_length [of 0 "[]" p] by auto

lemma zip32_pinv:
  assumes E: "key_laws E" and inv: "pinv E s" and st: "pz_state (pczt_parser s) = wait_zip32 pl"
  shows "wp (parse_zip32_derivation E pl) (step_post E s) (step_fail s) s"
proof -
  have op: "pool_phase pl (pz_state (pczt_parser s)) = Opened" by (simp add: st)
  have ok: "struct_ok (pczt_parser s)"
    by (rule pool_openE [OF inv]) (use op in \<open>auto simp: in_pool_def\<close>)
  note cl = derive_fvk_clean [OF E] key_lawsD [OF E] decipher_keys_clean [OF E]
  show ?thesis
    unfolding parse_zip32_derivation_def finish_zip32_derivation_def get_orchard_spending_key_def
      derive_orchard_sk_bytes_def consume_orchard_derivation_budget_def lift_sw_def verify_current_rk_def lift_crypto_def
    using ok st
    apply (simp add: wp_simps vc_simps slice_def cong: wp_cong split del: if_split)
    apply (intro allI impI conjI)
    by (auto intro!: action_stepI [OF inv op] dest!: clean_map_errD bip32_drop_length derive_fvk_length [OF E]
        simp: step_fail_def cl bip32_clean bip32_Nil struct_defs same_but_action_def remaining_len_def remaining_slice_def size_consts split: if_splits)
qed


lemma wp_read_large_vec:
  assumes "length (pool_field_bytes (pczt_parser s)) < n" "0 < remaining_len s"
  shows "wp (read_large_vec n) Q R s =
    (let field = pool_field_bytes (pczt_parser s) @ take (n - length (pool_field_bytes (pczt_parser s))) (remaining_slice s);
         pos = rd_pos s + min (n - length (pool_field_bytes (pczt_parser s))) (remaining_len s)
     in if length field = n
        then Q (Some field) (s\<lparr> rd_pos := pos, pczt_parser := (pczt_parser s)\<lparr> pool_field_bytes := [] \<rparr> \<rparr>)
        else Q None (s\<lparr> rd_pos := pos, pczt_parser := (pczt_parser s)\<lparr> pool_field_bytes := field \<rparr> \<rparr>))"
  using assms unfolding read_large_vec_def
  by (simp add: wp_simps Let_def min_def cong: wp_cong) (auto simp: not_le)

text \<open>A state inside the same action, reached from the start of the step.\<close>

definition within :: "pool \<Rightarrow> world \<Rightarrow> world \<Rightarrow> bool" where
  "within pl s s' \<longleftrightarrow> pool_phase pl (pz_state (pczt_parser s)) = Opened
     \<and> same_but_action (pczt_parser s) (tx_info s) (pczt_parser s') (tx_info s')
     \<and> remaining_len s' \<le> remaining_len s \<and> parse_frame s s'"

lemma within_stepI:
  assumes "pinv E s" "within pl s s1" "pool_phase pl (pz_state (pczt_parser s')) = Opened"
    "same_but_action (pczt_parser s1) (tx_info s1) (pczt_parser s') (tx_info s')"
    "struct_ok (pczt_parser s')" "remaining_len s' < remaining_len s1" "parse_frame s1 s'"
  shows "step_post E s u s'"
proof (rule action_stepI [OF assms(1) _ assms(3) _ assms(5)])
  show "same_but_action (pczt_parser s) (tx_info s) (pczt_parser s') (tx_info s')"
    using assms(2,4) unfolding within_def same_but_action_def by simp
  show "parse_frame s s'" using assms(2,7) parse_frame_trans unfolding within_def by blast
qed (use assms(2,6) in \<open>simp_all add: within_def\<close>)

lemma within_failI: "within pl s s1 \<Longrightarrow> parse_frame s1 s' \<Longrightarrow> step_fail s (Fail x) s'"
  using parse_frame_trans by (simp add: within_def) blast

lemma enc_within:
  assumes inv: "pinv E s" and w: "within pl s s1" and ok: "struct_ok (pczt_parser s1)"
    and st: "pz_state (pczt_parser s1) = process_enc pl" and left: "0 < remaining_len s1"
  shows "wp (parse_enc_ciphertext E pl) (step_post E s) (step_fail s) s1"
proof -
  have len: "length (pool_field_bytes (pczt_parser s1)) < ORCHARD_ENC_CIPHERTEXT_SIZE"
    using ok st by (simp add: struct_ok_def)
  have frame: "parse_frame s s1" using w by (simp add: within_def)
  show ?thesis
    unfolding parse_enc_ciphertext_def finish_enc_ciphertext_def
    using ok st left len frame
    apply (simp add: wp_simps vc_simps wp_read_large_vec [OF len left] Let_def slice_def cong: wp_cong split del: if_split)
    apply (intro allI impI conjI)
    by (auto intro!: within_stepI [OF inv w] within_failI [OF w] 
        simp: struct_defs same_but_action_def size_consts remaining_len_def split: if_splits)
qed

lemma out_within:
  assumes inv: "pinv E s" and w: "within pl s s1" and ok: "struct_ok (pczt_parser s1)"
    and st: "pz_state (pczt_parser s1) = process_out pl" and left: "0 < remaining_len s1"
  shows "wp (parse_out_ciphertext E pl) (step_post E s) (step_fail s) s1"
proof -
  have len: "length (pool_field_bytes (pczt_parser s1)) < ORCHARD_OUT_CIPHERTEXT_SIZE"
    using ok st by (simp add: struct_ok_def)
  have frame: "parse_frame s s1" using w by (simp add: within_def)
  show ?thesis
    unfolding parse_out_ciphertext_def finish_out_ciphertext_def
    using ok st left len frame
    apply (simp add: wp_simps vc_simps wp_read_large_vec [OF len left] Let_def slice_def cong: wp_cong split del: if_split)
    apply (intro allI impI conjI)
    by (auto intro!: within_stepI [OF inv w] within_failI [OF w] 
        simp: struct_defs same_but_action_def size_consts remaining_len_def split: if_splits)
qed

lemma within_refl: "pool_phase pl (pz_state (pczt_parser s)) = Opened \<Longrightarrow> within pl s s"
  by (simp add: within_def same_but_action_def)

lemma in_actionE:
  assumes "pinv E s" "pool_phase pl (pz_state (pczt_parser s)) = Opened"
  shows "struct_ok (pczt_parser s)"
  by (rule pool_openE [OF assms(1), of pl]) (use assms(2) in \<open>auto simp: in_pool_def\<close>)

lemma enc_pinv:
  assumes inv: "pinv E s" and st: "pz_state (pczt_parser s) = process_enc pl" and left: "packet_left s"
  shows "wp (parse_enc_ciphertext E pl) (step_post E s) (step_fail s) s"
  using in_actionE [OF inv, of pl] left st
  by (intro enc_within [OF inv]) (simp_all add: within_refl packet_left_def)

lemma out_pinv:
  assumes inv: "pinv E s" and st: "pz_state (pczt_parser s) = process_out pl" and left: "packet_left s"
  shows "wp (parse_out_ciphertext E pl) (step_post E s) (step_fail s) s"
  using in_actionE [OF inv, of pl] left st
  by (intro out_within [OF inv]) (simp_all add: within_refl packet_left_def)

lemma enc_len_pinv:
  assumes E: "codec_laws E" and inv: "pinv E s" and st: "pz_state (pczt_parser s) = wait_enc_len pl"
  shows "wp (parse_enc_ciphertext_len E pl) (step_post E s) (step_fail s) s"
proof -
  have ok: "struct_ok (pczt_parser s)" by (rule in_actionE [OF inv, of pl]) (simp add: st)
  show ?thesis
    unfolding parse_enc_ciphertext_len_def
    using ok st
    by (auto simp: wp_simps within_def same_but_action_def struct_defs size_consts reader_defs
      intro!: enc_within [OF inv, of pl] split: option.splits)
qed

lemma out_len_pinv:
  assumes E: "codec_laws E" and inv: "pinv E s" and st: "pz_state (pczt_parser s) = wait_out_len pl"
  shows "wp (parse_out_ciphertext_len E pl) (step_post E s) (step_fail s) s"
proof -
  have ok: "struct_ok (pczt_parser s)" by (rule in_actionE [OF inv, of pl]) (simp add: st)
  show ?thesis
    unfolding parse_out_ciphertext_len_def
    using ok st
    by (auto simp: wp_simps within_def same_but_action_def struct_defs size_consts reader_defs
      intro!: out_within [OF inv, of pl] split: option.splits)
qed

end
