(* ===== verification/Pczt_Record_Proofs.thy ===== *)
theory Pczt_Record_Proofs
  imports Pczt_Action_Proofs
begin

text \<open>
  Completing an action: the checks on its value commitment, nullifier and output, the output they
  add to the review, and the record kept for signing.
\<close>

section \<open>Recording an output\<close>

text \<open>What accepting one output of value \<open>v\<close> does to the list under review.\<close>

definition push_frame :: "tx_info \<Rightarrow> tx_info \<Rightarrow> bool" where
  "push_frame t t' \<longleftrightarrow>
     t'\<lparr> outputs := [], displayed_shielded_outputs := 0, retained_memo_bytes := 0,
         is_change_found := False, change_account := None \<rparr>
     = t\<lparr> outputs := [], displayed_shielded_outputs := 0, retained_memo_bytes := 0,
         is_change_found := False, change_account := None \<rparr>"

definition pushed :: "u64 \<Rightarrow> tx_info \<Rightarrow> tx_info \<Rightarrow> bool" where
  "pushed v t t' \<longleftrightarrow> push_frame t t' \<and> (change_ok t \<longrightarrow> change_ok t') \<and> (budget_ok t \<longrightarrow> budget_ok t')
     \<and> amount_sum (shielded_outs t') = amount_sum (shielded_outs t) + unat v
     \<and> transparent_outs t' = transparent_outs t
     \<and> (change_account t = None \<or> change_account t = change_account t')"

lemma push_frameD:
  assumes "push_frame t t'"
  shows "total_amount t' = total_amount t" "prevouts_hash t' = prevouts_hash t"
    "sequence_hash t' = sequence_hash t" "amounts_hash t' = amounts_hash t"
    "scripts_hash t' = scripts_hash t" "outputs_hash t' = outputs_hash t" "is_v6 t' = is_v6 t"
    "tx_version t' = tx_version t" "branch_id t' = branch_id t"
  using assms [unfolded push_frame_def, THEN arg_cong [where f = total_amount]]
    assms [unfolded push_frame_def, THEN arg_cong [where f = prevouts_hash]]
    assms [unfolded push_frame_def, THEN arg_cong [where f = sequence_hash]]
    assms [unfolded push_frame_def, THEN arg_cong [where f = amounts_hash]]
    assms [unfolded push_frame_def, THEN arg_cong [where f = scripts_hash]]
    assms [unfolded push_frame_def, THEN arg_cong [where f = outputs_hash]]
    assms [unfolded push_frame_def, THEN arg_cong [where f = is_v6]]
    assms [unfolded push_frame_def, THEN arg_cong [where f = tx_version]]
    assms [unfolded push_frame_def, THEN arg_cong [where f = branch_id]]
  by simp_all

text \<open>A step that touches only the review data, the service counter and, at most, the action.\<close>

definition review_step :: "world \<Rightarrow> world \<Rightarrow> bool" where
  "review_step s s' \<longleftrightarrow>
     (pczt_parser s')\<lparr> current_action := current_action_new \<rparr> = (pczt_parser s)\<lparr> current_action := current_action_new \<rparr>
     \<and> remaining_len s' = remaining_len s \<and> parse_frame s s'"

lemma review_step_refl [simp]: "review_step s s"
  by (simp add: review_step_def)

lemma parse_frame_from [simp]:
  "parse_frame (s\<lparr> tx_info := t \<rparr>) s' = parse_frame s s'"
  "parse_frame (s\<lparr> pczt_parser := p \<rparr>) s' = parse_frame s s'"
  by (simp_all add: parse_frame_def)

lemma review_step_info [simp]:
  "review_step s (s'\<lparr> tx_info := t \<rparr>) = review_step s s'"
  "review_step (s\<lparr> tx_info := t \<rparr>) s' = review_step s s'"
  by (simp_all add: review_step_def)

lemma review_step_action [simp]:
  "review_step (s\<lparr> pczt_parser := (pczt_parser s)\<lparr> current_action := c \<rparr> \<rparr>) s' = review_step s s'"
  "review_step s (s'\<lparr> pczt_parser := (pczt_parser s')\<lparr> current_action := c \<rparr> \<rparr>) = review_step s s'"
  by (simp_all add: review_step_def)

lemma review_step_trans: "review_step s s' \<Longrightarrow> review_step s' s'' \<Longrightarrow> review_step s s''"
  using parse_frame_trans unfolding review_step_def by fastforce

definition memo_step :: "world \<Rightarrow> world \<Rightarrow> bool" where
  "memo_step s s' \<longleftrightarrow> review_step s s' \<and> pczt_parser s' = pczt_parser s
     \<and> (\<exists>r. tx_info s' = tx_info s\<lparr> retained_memo_bytes := r \<rparr>
          \<and> (retained_memo_bytes (tx_info s) \<le> MAX_RETAINED_MEMO_BYTES \<longrightarrow> r \<le> MAX_RETAINED_MEMO_BYTES))"

lemma memo_stepI:
  assumes "review_step s s'" "pczt_parser s' = pczt_parser s"
    "tx_info s' = tx_info s\<lparr> retained_memo_bytes := retained_memo_bytes (tx_info s') \<rparr>"
    "retained_memo_bytes (tx_info s) \<le> MAX_RETAINED_MEMO_BYTES \<longrightarrow>
       retained_memo_bytes (tx_info s') \<le> MAX_RETAINED_MEMO_BYTES"
  shows "memo_step s s'"
  using assms unfolding memo_step_def by metis

lemma retained_same [simp]: "t\<lparr> retained_memo_bytes := retained_memo_bytes t \<rparr> = t" for t :: tx_info
  by (rule tx_info.equality) simp_all

lemma hash_memo_clean:
  "clean (rbind (blake_update E h memo) (\<lambda>h. rbind (blake_finalize E h) (\<lambda>(d, _). Inr d)))"
  by (auto simp: blake_update_def blake_finalize_def err_def)

lemma wp_memo_display:
  assumes "parse_frame s0 s"
  shows "wp (output_memo_display E output b) (\<lambda>_. memo_step s) (step_fail s0) s"
  unfolding output_memo_display_def memo_display_def try_retain_def
  using assms
  apply (simp add: wp_simps vc_simps Let_def cong: wp_cong split del: if_split)
  apply (intro allI impI conjI)
  by (auto intro!: memo_stepI simp: review_step_def step_fail_def size_consts dest!: cleanD [OF hash_memo_clean])


definition output_pushed :: "u64 \<Rightarrow> world \<Rightarrow> world \<Rightarrow> bool" where
  "output_pushed v s s' \<longleftrightarrow> review_step s s' \<and> pushed v (tx_info s) (tx_info s')"

lemma pushed_append:
  assumes out: "out_amount (last (outputs t')) = v" "out_pool (last (outputs t')) = PoolOrchard"
    and t: "outputs t' = outputs t @ [last (outputs t')]" "is_change_found t' = (is_change_found t \<or> out_is_change (last (outputs t')))"
      "displayed_shielded_outputs t' = displayed_shielded_outputs t + (if out_is_change (last (outputs t')) then 0 else 1)"
    and chg: "out_is_change (last (outputs t')) \<longrightarrow> \<not> is_change_found t \<and> change_account t' \<noteq> None"
    and disp: "displayed_shielded_outputs t' \<le> MAX_PCZT_SHIELDED_DISPLAYED_OUTPUTS_NUMBER \<or> out_is_change (last (outputs t'))"
    and acc: "change_account t = None \<or> change_account t = change_account t'"
    and memo: "retained_memo_bytes t \<le> MAX_RETAINED_MEMO_BYTES \<longrightarrow> retained_memo_bytes t' \<le> MAX_RETAINED_MEMO_BYTES"
    and frame: "push_frame t t'"
  shows "pushed v t t'"
proof -
  define out where "out = last (outputs t')"
  note t' = t [folded out_def] and out' = out [folded out_def] and chg' = chg [folded out_def]
    and disp' = disp [folded out_def]
  have "change_ok t'" if "change_ok t"
    using that t' chg' acc by (auto simp: change_ok_def split: if_splits)
  moreover have "budget_ok t'" if "budget_ok t"
    using that t' chg' disp' memo out' by (auto simp: budget_ok_def shielded_outs_def split: if_splits)
  moreover have "amount_sum (shielded_outs t') = amount_sum (shielded_outs t) + unat v"
    "transparent_outs t' = transparent_outs t"
    using t' out' by (simp_all add: shielded_outs_def transparent_outs_def amount_sum_def)
  ultimately show ?thesis using frame acc by (simp add: pushed_def)
qed

lemma wp_push_output:
  assumes frame: "parse_frame s0 s"
  shows "wp (push_deciphered_output E pl output network chg)
    (\<lambda>_. output_pushed (do_value output) s) (step_fail s0) s"
proof -
  have memo: "wp (output_memo_display E output b) Q (step_fail s0) s1"
    if "parse_frame s0 s1" "\<And>m s'. memo_step s1 s' \<Longrightarrow> Q m s'" for b Q s1
    using wp_memo_display [OF that(1)] by (rule wp_mono) (simp_all add: that(2))
  show ?thesis
    unfolding push_deciphered_output_def claim_displayed_shielded_output_def
      record_hidden_shielded_change_account_def
    using frame
    apply (simp add: wp_simps vc_simps cong: wp_cong split del: if_split)
    apply (intro allI impI conjI)
    by (rule memo, simp, clarsimp simp: memo_step_def wp_simps output_pushed_def,
        rule pushed_append; simp add: push_frame_def)+
qed


lemma pushed_refl: "pushed 0 t t"
  by (simp add: pushed_def push_frame_def)

text \<open>What the code takes a decryption attempt to say.\<close>

definition opened_as :: "(crypto_error, 'a option) res \<Rightarrow> 'a option \<Rightarrow> bool" where
  "opened_as r x \<longleftrightarrow> r = Inr x \<or> (x = None \<and> (\<exists>e. r = Inl (Fail e) \<and> e \<noteq> OutOfMemory))"

lemma wp_decipher_result:
  assumes "clean r"
  shows "wp (decipher_result r) Q R s \<longleftrightarrow>
     (r = Inl (Fail OutOfMemory) \<longrightarrow> R (Fail (Sw NotEnoughMemorySpace)) s)
   \<and> (\<forall>x. opened_as r x \<longrightarrow> Q x s)"
  using assms by (auto simp: decipher_result_def opened_as_def wp_simps clean_def split: sum.splits fault.splits)

lemma note_lawsD:
  assumes "note_laws E"
  shows "clean (decipher_compact_value E k a v)" "clean (decipher_value_with_ovk E k b v)"
    "clean (pool_note_commitment_bytes E pl x y z w)" "clean (orchard_value_commitment_bytes E i r)"
    "clean (pool_nullifier_bytes E pl x x1 y x2 x3)" "clean (diversify_hash_ledger E d)"
    "clean (orchard_pk_d E p g)"
  using assms unfolding note_laws_def by (cases pl; simp add: all_pools)+

lemma wp_validate_output:
  assumes E: "note_laws E" and frame: "parse_frame s0 s" and enc: "length enc = ORCHARD_ENC_CIPHERTEXT_SIZE"
  shows "wp (validate_current_output E pl enc out)
    (\<lambda>_. output_pushed (ca_output_value (current_action (pczt_parser s))) s) (step_fail s0) s"
proof -
  have push: "wp (push_deciphered_output E pl x network chg) Q (step_fail s0) s"
    if "\<And>u s'. output_pushed (do_value x) s s' \<Longrightarrow> Q u s'" for x network chg Q
    using wp_push_output [OF frame] by (rule wp_mono) (simp_all add: that)
  show ?thesis
    unfolding validate_current_output_def try_decipher_current_output_def validate_deciphered_output_def
      validate_current_dummy_output_def current_compact_action_def lift_crypto_def
    using frame enc
    apply (simp add: wp_simps vc_simps slice_def Let_def wp_decipher_result [OF note_lawsD(1) [OF E]] wp_decipher_result [OF note_lawsD(2) [OF E]] size_consts cong: wp_cong split del: if_split)
    apply (intro allI impI conjI)
    apply (auto simp: step_fail_def note_lawsD [OF E] output_pushed_def pushed_refl dest!: clean_map_errD)
    by (rule push, simp add: wp_simps output_pushed_def)+
qed


lemma wp_lent:
  assumes E: "note_laws E" and frame: "parse_frame s0 s"
    and enc: "length (ca_enc_ciphertext (current_action (pczt_parser s))) = ORCHARD_ENC_CIPHERTEXT_SIZE"
  shows "wp (validate_with_lent_ciphertext E pl out)
    (\<lambda>_. output_pushed (ca_output_value (current_action (pczt_parser s))) s) (step_fail s0) s"
proof -
  let ?c = "current_action (pczt_parser s)"
  let ?s1 = "s\<lparr> pczt_parser := (pczt_parser s)\<lparr> current_action := ?c\<lparr> ca_enc_ciphertext := [] \<rparr> \<rparr> \<rparr>"
  have f1: "parse_frame s0 ?s1" using frame by simp
  show ?thesis
    unfolding validate_with_lent_ciphertext_def
    apply (simp add: wp_simps)
    apply (rule wp_mono [OF wp_validate_output [OF E f1 enc, of pl out]])
    by (auto simp: wp_simps output_pushed_def step_fail_def just_fails_def split: fault.splits)
qed

section \<open>The checks on an action\<close>

lemma wp_verify_cv_net:
  assumes "note_laws E" "Q () s" "\<And>e. just_fails e \<Longrightarrow> R e s"
  shows "wp (verify_current_cv_net E pl) Q R s"
  unfolding verify_current_cv_net_def lift_crypto_def
  by (auto simp: wp_simps assms note_lawsD [OF assms(1)] dest!: clean_map_errD split: option.splits sum.splits)

lemma clean_slice: "a \<le> b \<Longrightarrow> b \<le> length xs \<Longrightarrow> clean (slice a b xs)"
  by (simp add: slice_def)

lemma recipient_in_scopes_clean:
  assumes "key_laws E" "note_laws E"
  shows "clean (recipient_in_scopes E fvk g_d pk scopes)"
proof (induction scopes)
  case (Cons scope scopes)
  have "length ivk = 64" if "fvk_to_ivk_ledger E fvk scope = Inr ivk" for ivk
    using assms(1) that by (simp add: key_laws_def)
  then show ?case
    using Cons.IH key_lawsD [OF assms(1)] note_lawsD [OF assms(2)]
    by (auto intro!: clean_rbind clean_slice)
qed simp

lemma wp_verify_nullifier:
  assumes E: "key_laws E" "note_laws E"
    and len: "length fvk = 96" "length (ca_spend_recipient (current_action (pczt_parser s))) = 43"
    and Q: "Q () s" and R: "\<And>e. just_fails e \<Longrightarrow> R e s"
  shows "wp (verify_current_spend_nullifier E pl fvk) Q R s"
proof -
  have cl: "clean (is_current_spend_recipient_in_fvk E pl fvk d pk)" for d pk
    unfolding is_current_spend_recipient_in_fvk_def
    by (rule clean_rbind)
      (simp_all add: recipient_in_scopes_clean [OF E] note_lawsD [OF E(2)] del: recipient_in_scopes.simps)
  show ?thesis
    unfolding verify_current_spend_nullifier_def lift_crypto_def
    by (auto simp: wp_simps slice_def len Q R note_lawsD [OF E(2)] dest!: clean_map_errD cleanD [OF cl]
        split: option.splits sum.splits)
qed


section \<open>Closing an action\<close>

lemma records_ok_append:
  assumes "records_ok v" "bn_records v' = bn_records v @ [r]" "bn_parsed v' = Suc (bn_parsed v)"
    "bn_real v' = bn_real v + (if sr_is_real_spend r then 1 else 0)" "bn_signed v' = bn_signed v"
    "\<not> sr_signed r" "check_bip44_compliance (sr_path r) OnlyCoinType"
  shows "records_ok v'"
  using assms by (simp add: records_ok_def)

lemma finish_stepI:
  assumes inv: "pinv E s" and st: "pool_phase pl (pz_state (pczt_parser s)) = Opened"
    and push: "pushed v (tx_info s) (tx_info s')"
    and view: "bn_parsed (view pl (pczt_parser s')) = Suc (bn_parsed (view pl (pczt_parser s)))"
      "bn_records (view pl (pczt_parser s')) = bn_records (view pl (pczt_parser s)) @ [last (bn_records (view pl (pczt_parser s')))]"
      "bn_real (view pl (pczt_parser s')) = bn_real (view pl (pczt_parser s))
         + (if sr_is_real_spend (last (bn_records (view pl (pczt_parser s')))) then 1 else 0)"
      "unat (bn_output_sum (view pl (pczt_parser s'))) = unat (bn_output_sum (view pl (pczt_parser s))) + unat v"
      "bn_count (view pl (pczt_parser s')) = bn_count (view pl (pczt_parser s))"
      "bn_signed (view pl (pczt_parser s')) = bn_signed (view pl (pczt_parser s))"
      "bn_sig_digest (view pl (pczt_parser s')) = bn_sig_digest (view pl (pczt_parser s))"
      "bn_balance (view pl (pczt_parser s')) = bn_balance (view pl (pczt_parser s))"
      "bn_present (view pl (pczt_parser s')) = bn_present (view pl (pczt_parser s))"
    and r: "\<not> sr_signed (last (bn_records (view pl (pczt_parser s'))))"
      "check_bip44_compliance (sr_path (last (bn_records (view pl (pczt_parser s'))))) OnlyCoinType"
    and other: "view (other pl) (pczt_parser s') = view (other pl) (pczt_parser s)"
    and st': "pz_state (pczt_parser s') =
        (if Suc (bn_parsed (view pl (pczt_parser s))) = bn_count (view pl (pczt_parser s))
         then wait_trailer pl else wait_action pl)"
    and same: "transparent_inputs (pczt_parser s') = transparent_inputs (pczt_parser s)"
      "transparent_input_count (pczt_parser s') = transparent_input_count (pczt_parser s)"
      "transparent_input_parsed_count (pczt_parser s') = transparent_input_parsed_count (pczt_parser s)"
      "transparent_output_count (pczt_parser s') = transparent_output_count (pczt_parser s)"
      "transparent_output_parsed_count (pczt_parser s') = transparent_output_parsed_count (pczt_parser s)"
      "total_output_amount (pczt_parser s') = total_output_amount (pczt_parser s)"
      "outputs_reviewed (pczt_parser s') = outputs_reviewed (pczt_parser s)"
      "pczt_finished (pczt_parser s') = pczt_finished (pczt_parser s)"
      "is_v6_tx (pczt_parser s') = is_v6_tx (pczt_parser s)"
    and ok': "struct_ok (pczt_parser s')"
    and rd: "remaining_len s' < remaining_len s" and frame: "parse_frame s s'"
  shows "step_post E s u s'"
proof -
  have op: "in_pool pl (pz_state (pczt_parser s))" using st by (simp add: in_pool_def)
  have op': "in_pool pl (pz_state (pczt_parser s'))" using st' by simp
  note ph = in_poolD [OF op] in_poolD [OF op']
  have bg: "pool_phase pl (pz_state (pczt_parser s)) \<noteq> NotStarted" using st by simp
  note fr = push_frameD [of "tx_info s" "tx_info s'"]
  have pf: "push_frame (tx_info s) (tx_info s')" using push by (simp add: pushed_def)
  show ?thesis
  proof (rule pool_openE [OF inv op])
    assume ok: "change_ok (tx_info s)" "budget_ok (tx_info s)"
      "shielded_ok (pczt_parser s) (tx_info s)" "review_ok s" "\<not> outputs_reviewed (pczt_parser s)"
    have vok: "view_ok Opened pl (view pl (pczt_parser s))"
      "view_ok (other_phase pl) (other pl) (view (other pl) (pczt_parser s))"
      using ok(3) ph(1) st unfolding shielded_ok_def by (metis)+
    have rec: "records_ok (view pl (pczt_parser s'))"
      by (rule records_ok_append [of "view pl (pczt_parser s)", OF _ view(2,1,3) view(6) r])
        (use vok(1) in \<open>simp add: view_ok_def\<close>)
    have v': "view_ok (pool_phase pl (pz_state (pczt_parser s'))) pl (view pl (pczt_parser s'))"
      using vok(1) rec view(1,4-9) unfolding st' by (auto simp: view_ok_def)
    show ?thesis
    proof (rule begun_stepI [OF inv _ _ _ _ _ ok' _ _ _ _ rd frame])
      show "\<not> inputs_open (pz_state (pczt_parser s))" "\<not> outputs_open (pz_state (pczt_parser s))"
        "active (pz_state (pczt_parser s))"
        using pool_begun [OF bg] by blast+
      show "pool_phase pl (pz_state (pczt_parser s')) \<noteq> NotStarted" using st' by simp
      show "beside_pool (pczt_parser s) (tx_info s) (pczt_parser s') (tx_info s')"
        using same push fr [OF pf] by (simp add: beside_pool_def pushed_def)
      show "change_ok (tx_info s')" "budget_ok (tx_info s')" using ok push by (simp_all add: pushed_def)
      have vo: "view_ok (pool_phase (other pl) (pz_state (pczt_parser s'))) (other pl) (view (other pl) (pczt_parser s'))"
        using vok(2) ph(2) other by simp
      have sums: "unat (orchard_output_value_sum (pczt_parser s')) + unat (ironwood_output_value_sum (pczt_parser s'))
          = amount_sum (shielded_outs (tx_info s')) \<and> has_ironwood_bundle (pczt_parser s') = has_ironwood_bundle (pczt_parser s)"
        using ok(3) view(4,9) other push by (cases pl) (simp_all add: shielded_ok_def pushed_def)
      show "shielded_ok (pczt_parser s') (tx_info s')"
        using ok(3) v' vo sums ph same(9) fr(7) [OF pf] unfolding shielded_ok_def all_pools_of [of _ pl] by simp
      show "review_ok s'"
        using ok(4,5) same view(6,7) other unfolding review_ok_def all_pools_of [of _ pl] by simp
      show "\<not> pczt_finished (pczt_parser s')"
        using ok(4,5) same unfolding review_ok_def by simp
    qed
  qed
qed


lemma openedD:
  assumes "pinv E s" "pool_phase pl (pz_state (pczt_parser s)) = Opened"
  shows "view_ok Opened pl (view pl (pczt_parser s))" "struct_ok (pczt_parser s)"
  using pool_openE [OF assms(1), of pl] assms(2) unfolding in_pool_def shielded_ok_def
  by metis+

lemma review_stepD:
  assumes "review_step s s'"
  shows "\<exists>c. pczt_parser s' = pczt_parser s\<lparr> current_action := c \<rparr>"
proof -
  let ?c = "current_action (pczt_parser s')"
  have e: "(pczt_parser s')\<lparr> current_action := current_action_new \<rparr> = (pczt_parser s)\<lparr> current_action := current_action_new \<rparr>"
    using assms by (simp add: review_step_def)
  have "pczt_parser s' = ((pczt_parser s')\<lparr> current_action := current_action_new \<rparr>)\<lparr> current_action := ?c \<rparr>"
    by (rule pczt_parser.equality) simp_all
  also have "\<dots> = (pczt_parser s)\<lparr> current_action := ?c \<rparr>" by (simp only: e) simp
  finally show ?thesis by (rule exI)
qed

lemma wp_lentI:
  assumes E: "note_laws E" and frame: "parse_frame s0 s"
    and enc: "length (ca_enc_ciphertext (current_action (pczt_parser s))) = ORCHARD_ENC_CIPHERTEXT_SIZE"
    and Q: "\<And>u s' c. pczt_parser s' = pczt_parser s\<lparr> current_action := c \<rparr> \<Longrightarrow> remaining_len s' = remaining_len s \<Longrightarrow>
      parse_frame s s' \<Longrightarrow> pushed (ca_output_value (current_action (pczt_parser s))) (tx_info s) (tx_info s') \<Longrightarrow> Q u s'"
  shows "wp (validate_with_lent_ciphertext E pl out) Q (step_fail s0) s"
  using wp_lent [OF E frame enc]
proof (rule wp_mono)
  fix u s'
  assume "output_pushed (ca_output_value (current_action (pczt_parser s))) s s'"
  then have rs: "review_step s s'" "pushed (ca_output_value (current_action (pczt_parser s))) (tx_info s) (tx_info s')"
    by (simp_all add: output_pushed_def)
  then obtain c where "pczt_parser s' = pczt_parser s\<lparr> current_action := c \<rparr>" using review_stepD by blast
  then show "Q u s'" using rs Q by (simp add: review_step_def)
qed

lemma view_current_action [simp]:
  "view pl (p\<lparr> current_action := c \<rparr>) = view pl p" "view pl (p\<lparr> pz_state := st \<rparr>) = view pl p"
  "view pl (p\<lparr> pool_field_bytes := f \<rparr>) = view pl p"
  by (cases pl; simp)+

lemma set_view_action:
  "(set_view pl v p)\<lparr> current_action := c \<rparr> = set_view pl v (p\<lparr> current_action := c \<rparr>)"
  by (cases pl; simp)

lemma set_view_set_view [simp]: "set_view pl v (set_view pl w p) = set_view pl v p"
  by (cases pl; simp)

lemma other_neq [simp]: "other pl \<noteq> pl" "pl \<noteq> other pl"
  by (cases pl; simp)+

lemma usize_incr:
  "n \<le> m \<Longrightarrow> m < 1000 \<Longrightarrow> usize_saturating_add n (Suc 0) = Suc n"
  by (simp add: usize_saturating_add_def USIZE_MAX_def)

lemma opened_counts:
  assumes "view_ok Opened pl v"
  shows "bn_parsed v < bn_count v" "bn_real v \<le> bn_parsed v" "bn_parsed v < 1000"
proof -
  show a: "bn_parsed v < bn_count v" using assms by (simp add: view_ok_def)
  show "bn_real v \<le> bn_parsed v"
    using assms unfolding view_ok_def records_ok_def by (metis length_filter_le)
  show "bn_parsed v < 1000"
    using assms a by (cases pl) (simp_all add: view_ok_def MAX_PCZT_ORCHARD_ACTIONS_NUMBER_def
        MAX_PCZT_IRONWOOD_ACTIONS_NUMBER_def)
qed

lemma finish_within:
  assumes E: "key_laws E" "note_laws E" and inv: "pinv E s"
    and st: "pool_phase pl (pz_state (pczt_parser s)) = Opened"
    and same: "same_but_action (pczt_parser s) (tx_info s) (pczt_parser s1) (tx_info s1)"
    and st1: "pz_state (pczt_parser s1) = wait_metadata pl"
    and ti: "tx_info s1 = tx_info s" and ok: "struct_ok (pczt_parser s1)"
    and rd: "remaining_len s1 < remaining_len s" and frame: "parse_frame s s1"
  shows "wp (finish_current_action E pl) (step_post E s) (step_fail s) s1"
proof -
  note op = openedD(1) [OF inv st]
  have vw: "view pl (pczt_parser s1) = view pl (pczt_parser s)"
    using same by (cases pl) (simp_all add: same_but_action_def)
  have inc: "usize_saturating_add (bn_real (view pl (pczt_parser s))) (Suc 0) = Suc (bn_real (view pl (pczt_parser s)))"
    "usize_saturating_add (bn_parsed (view pl (pczt_parser s))) (Suc 0) = Suc (bn_parsed (view pl (pczt_parser s)))"
    using opened_counts [OF op] by (auto intro: usize_incr)
  have tr: "parse_frame s1 s' \<Longrightarrow> parse_frame s s'" for s' using frame parse_frame_trans by blast
  have vo: "view (other pl) (pczt_parser s1) = view (other pl) (pczt_parser s)"
    using same by (cases pl) (simp_all add: same_but_action_def)
  note flds = same [unfolded same_but_action_def]
  have nf: "step_fail s e s1" if "just_fails e" for e using that frame by (simp add: step_fail_def)
  show ?thesis
    unfolding finish_current_action_def
    using ok
    apply (simp add: wp_simps vc_simps Let_def cong: wp_cong split del: if_split)
    apply (intro allI impI conjI; (simp add: frame)?)
    apply (rule wp_verify_cv_net [where R = "step_fail s" and s = s1, OF E(2) _ nf])
    apply (simp add: wp_simps vc_simps Let_def cong: wp_cong split del: if_split)
    apply (intro allI impI conjI; (simp add: frame)?)
    apply (rule wp_verify_nullifier [where R = "step_fail s" and s = s1, OF E _ _ _ nf]; (simp add: struct_defs; fail)?)
    apply (simp add: wp_simps vc_simps vw inc cong: wp_cong split del: if_split)
    apply (rule wp_lentI [OF E(2)], simp add: frame, simp)
    apply (simp add: wp_simps vc_simps reset_current_action_def vw inc set_view_action cong: wp_cong split del: if_split)
    apply (intro allI impI conjI; (simp add: tr; fail)?)
    apply (rule finish_stepI [OF inv st, where v = "ca_output_value (current_action (pczt_parser s1))"];
      use rd in \<open>simp add: tr ti vo vw flds st1 struct_defs size_consts u64_checked_add_SomeD; fail\<close>)
    prefer 2
    apply assumption
    apply (rule wp_lentI [OF E(2)], simp add: frame, simp)
    apply (simp add: wp_simps vc_simps reset_current_action_def vw inc set_view_action cong: wp_cong split del: if_split)
    apply (intro allI impI conjI; (simp add: tr; fail)?)
    by (rule finish_stepI [OF inv st, where v = "ca_output_value (current_action (pczt_parser s1))"];
      use rd in \<open>simp add: tr ti vo vw flds st1 struct_defs size_consts u64_checked_add_SomeD; fail\<close>)
qed


lemma metadata_pinv:
  assumes E: "env_laws E" and inv: "pinv E s" and st: "pz_state (pczt_parser s) = wait_metadata pl"
  shows "wp (parse_output_metadata E pl) (step_post E s) (step_fail s) s"
proof -
  have op: "pool_phase pl (pz_state (pczt_parser s)) = Opened" by (simp add: st)
  have ok: "struct_ok (pczt_parser s)" by (rule in_actionE [OF inv op])
  show ?thesis
    unfolding parse_output_metadata_def read_output_fields_def
    using ok st
    apply (simp add: wp_simps vc_simps reading cong: wp_cong split del: if_split)
    apply (intro allI impI conjI; (simp; fail)?)
    by (rule finish_within [OF env_lawsD(3,4) [OF E] inv op];
        simp add: same_but_action_def struct_defs remaining_len_def)+
qed

end
