(* ===== verification/Pczt_Shielded_Proofs.thy ===== *)
theory Pczt_Shielded_Proofs
  imports Pczt_Record_Proofs
begin

text \<open>
  The steps that open and close a shielded bundle: the count of actions, the trailer with its value
  balance and digests, and the review that follows the last bundle.  The steps on the fields of an
  action are in \<open>Pczt_Action_Proofs\<close> and \<open>Pczt_Record_Proofs\<close>; here the two dispatch loops over
  bundle packets are shown to be instances of \<open>packet_loop\<close>.
\<close>

section \<open>The review\<close>

abbreviation revealed :: "tx_output \<Rightarrow> tx_output" where
  "revealed out \<equiv> out\<lparr> out_is_change := False \<rparr>"

lemma reveal_simps [simp]:
  "transparent_outs (t\<lparr> outputs := map revealed (outputs t) \<rparr>) = map revealed (transparent_outs t)"
  "shielded_outs (t\<lparr> outputs := map revealed (outputs t) \<rparr>) = map revealed (shielded_outs t)"
  "amount_sum (map revealed outs) = amount_sum outs"
  "change_ok (t\<lparr> outputs := map revealed (outputs t) \<rparr>)"
  by (simp_all add: transparent_outs_def shielded_outs_def amount_sum_def change_ok_def filter_map o_def
      list_ex_iff)

lemma budget_ok_reveal [simp]: "budget_ok (t\<lparr> outputs := map revealed (outputs t) \<rparr>) = budget_ok t"
  by (simp add: budget_ok_def)

lemma list_all2_revealed [simp]:
  "list_all2 (\<lambda>out out'. out' = out \<or> out' = revealed out) outs (map revealed outs)"
  by (simp add: list.rel_map list_all2_refl)

text \<open>The state a review leaves: the outputs possibly revealed, and an approval of exactly that list
  and of the fee on record.\<close>

definition reviewed :: "world \<Rightarrow> world \<Rightarrow> bool" where
  "reviewed s s' \<longleftrightarrow> pczt_parser s' = (pczt_parser s)\<lparr> outputs_reviewed := True \<rparr>
     \<and> (tx_info s' = tx_info s \<or> tx_info s' = (tx_info s)\<lparr> outputs := map revealed (outputs (tx_info s)) \<rparr>)
     \<and> remaining_len s' = remaining_len s \<and> hashers s' = hashers s \<and> parse_frame s s'
     \<and> (\<exists>ev. latest_review (events s') = Some ev \<and> approves ev (tx_info s') (session_fee (pczt_parser s') (tx_info s')))"

lemma wp_review_outputs:
  assumes sw: "swap_ok s" and frame: "parse_frame s0 s"
    and Q: "\<And>s'. reviewed s s' \<Longrightarrow> Q () s'"
  shows "wp (review_outputs E) Q (step_fail s0) s"
proof -
  have np: "just_fails e" if "check_swap_params params outs fee = Inl e" "swap_params s = Some params" for params outs fee e
    using check_swap_params_no_panic [of params outs fee] sw that by (cases e) (auto simp: swap_ok_def)
  show ?thesis
    unfolding review_outputs_def
    using frame
    apply (simp add: wp_simps vc_simps Let_def cong: wp_cong split del: if_split)
    apply (intro allI impI conjI)
    by ((rule Q)?; (drule u64_try_from_SomeD)?; auto simp: reviewed_def session_fee_def parse_frame_def step_fail_def np; fail)+
qed


section \<open>Closing a bundle\<close>

text \<open>All that a bundle needs before it is closed, relative to the start of the step.\<close>

definition closable :: "pool \<Rightarrow> world \<Rightarrow> world \<Rightarrow> bool" where
  "closable pl s s1 \<longleftrightarrow>
     beside_pool (pczt_parser s) (tx_info s) (pczt_parser s1) (tx_info s1)
   \<and> view_ok Closed pl (view pl (pczt_parser s1))
   \<and> view_ok (other_phase pl) (other pl) (view (other pl) (pczt_parser s1))
   \<and> unat (orchard_output_value_sum (pczt_parser s1)) + unat (ironwood_output_value_sum (pczt_parser s1))
       = amount_sum (shielded_outs (tx_info s1))
   \<and> (pl = IronwoodPool \<longrightarrow> is_v6 (tx_info s1))
   \<and> (is_v6_tx (pczt_parser s1) \<longleftrightarrow> has_ironwood_bundle (pczt_parser s1))
   \<and> action_ok (current_action (pczt_parser s1)) \<and> pool_field_bytes (pczt_parser s1) = []
   \<and> change_ok (tx_info s1) \<and> budget_ok (tx_info s1)
   \<and> \<not> outputs_reviewed (pczt_parser s1) \<and> \<not> pczt_finished (pczt_parser s1)
   \<and> (\<forall>q. bn_signed (view q (pczt_parser s1)) = 0 \<and> bn_sig_digest (view q (pczt_parser s1)) = None)
   \<and> list_all (\<lambda>i. \<not> in_signed i) (transparent_inputs (pczt_parser s1))
   \<and> remaining_len s1 < remaining_len s \<and> parse_frame s s1"

definition same_closed :: "pczt_parser \<Rightarrow> pczt_parser \<Rightarrow> bool" where
  "same_closed p p' \<longleftrightarrow>
     transparent_inputs p' = transparent_inputs p
   \<and> transparent_input_count p' = transparent_input_count p
   \<and> transparent_input_parsed_count p' = transparent_input_parsed_count p
   \<and> transparent_output_count p' = transparent_output_count p
   \<and> transparent_output_parsed_count p' = transparent_output_parsed_count p
   \<and> total_output_amount p' = total_output_amount p
   \<and> (\<forall>q. view q p' = view q p) \<and> is_v6_tx p' = is_v6_tx p
   \<and> current_action p' = current_action p \<and> pool_field_bytes p' = pool_field_bytes p
   \<and> pczt_finished p' = pczt_finished p"

lemma pool_other_phase:
  "pool_phase (other pl) (actions_done pl) = other_phase pl"
  "is_ironwood_state (actions_done pl) \<longleftrightarrow> pl = IronwoodPool"
  by (cases pl; simp)+

lemma closed_stepI:
  assumes inv: "pinv E s" and st: "\<not> inputs_open (pz_state (pczt_parser s))"
      "\<not> outputs_open (pz_state (pczt_parser s))" "active (pz_state (pczt_parser s))"
    and cl: "closable pl s s1" and p: "same_closed (pczt_parser s1) (pczt_parser s2)"
    and st2: "pz_state (pczt_parser s2) = actions_done pl"
    and t: "tx_info s2 = tx_info s1 \<or> tx_info s2 = (tx_info s1)\<lparr> outputs := map revealed (outputs (tx_info s1)) \<rparr>"
    and fr: "parse_frame s1 s2" "remaining_len s2 = remaining_len s1"
    and rev: "outputs_reviewed (pczt_parser s2) \<Longrightarrow> parsed_all (pczt_parser s2) (tx_info s2)
        \<and> (\<exists>ev. latest_review (events s2) = Some ev \<and> approves ev (tx_info s2) (session_fee (pczt_parser s2) (tx_info s2)))"
  shows "step_post E s u s2"
proof -
  have vw: "view q (pczt_parser s2) = view q (pczt_parser s1)" for q using p by (simp add: same_closed_def)
  have sums: "orchard_output_value_sum (pczt_parser s2) = orchard_output_value_sum (pczt_parser s1)"
    "ironwood_output_value_sum (pczt_parser s2) = ironwood_output_value_sum (pczt_parser s1)"
    "has_ironwood_bundle (pczt_parser s2) = has_ironwood_bundle (pczt_parser s1)"
    using vw [of OrchardPool] vw [of IronwoodPool] by simp_all
  have ti: "change_ok (tx_info s2)" "budget_ok (tx_info s2)"
    "amount_sum (shielded_outs (tx_info s2)) = amount_sum (shielded_outs (tx_info s1))"
    "is_v6 (tx_info s2) = is_v6 (tx_info s1)"
    using t cl by (auto simp: closable_def)
  have bs: "beside_pool (pczt_parser s) (tx_info s) (pczt_parser s2) (tx_info s2)"
  proof -
    have l: "list_all2 (\<lambda>out out'. out' = out \<or> out' = revealed out) (transparent_outs (tx_info s))
       (transparent_outs (tx_info s1))"
      using cl by (simp add: closable_def beside_pool_def)
    have "list_all2 (\<lambda>out out'. out' = out \<or> out' = revealed out) (transparent_outs (tx_info s))
       (map revealed (transparent_outs (tx_info s1)))"
      using l by (auto simp: list_all2_conv_all_nth)
    moreover have "beside_pool (pczt_parser s) (tx_info s) (pczt_parser s1) (tx_info s1)"
      using cl by (simp add: closable_def)
    moreover note p [unfolded same_closed_def]
    ultimately show ?thesis using l unfolding beside_pool_def by - (rule disjE [OF t]; simp)
  qed
  have c: "view_ok Closed pl (view pl (pczt_parser s1))"
    "view_ok (other_phase pl) (other pl) (view (other pl) (pczt_parser s1))"
    "pl = IronwoodPool \<longrightarrow> is_v6 (tx_info s1)" "action_ok (current_action (pczt_parser s1))"
    "pool_field_bytes (pczt_parser s1) = []"
    "\<forall>q. bn_signed (view q (pczt_parser s1)) = 0 \<and> bn_sig_digest (view q (pczt_parser s1)) = None"
    "list_all (\<lambda>i. \<not> in_signed i) (transparent_inputs (pczt_parser s1))" "\<not> pczt_finished (pczt_parser s1)"
    using cl by (simp_all add: closable_def)
  show ?thesis
  proof (rule begun_stepI [OF inv st, where pl = pl])
    show "pool_phase pl (pz_state (pczt_parser s2)) \<noteq> NotStarted" by (simp add: st2)
    show "struct_ok (pczt_parser s2)"
      using p c(4,5) by (simp add: struct_ok_def st2 same_closed_def)
    show "shielded_ok (pczt_parser s2) (tx_info s2)"
      using c(1-3) cl p unfolding shielded_ok_def all_pools_of [of _ pl]
      by (simp add: st2 vw sums ti pool_other_phase closable_def same_closed_def)
    show "review_ok s2"
      using rev c(6-8) p by (auto simp: review_ok_def vw same_closed_def)
    show "remaining_len s2 < remaining_len s" "parse_frame s s2"
      using cl fr parse_frame_trans unfolding closable_def by auto
    show "\<not> pczt_finished (pczt_parser s2)" using p c(8) by (simp add: same_closed_def)
  qed (use bs ti in simp_all)
qed

lemma finalize_pinv:
  assumes inv: "pinv E s" and st: "\<not> inputs_open (pz_state (pczt_parser s))"
      "\<not> outputs_open (pz_state (pczt_parser s))" "active (pz_state (pczt_parser s))"
    and cl: "closable pl s s1" and sw: "swap_ok s1"
  shows "wp (finalize_actions E pl) (step_post E s) (step_fail s) s1"
proof -
  have frame: "parse_frame s s1" using cl by (simp add: closable_def)
  let ?s2 = "s1\<lparr> pczt_parser := (pczt_parser s1)\<lparr> pz_state := actions_done pl \<rparr> \<rparr>"
  have sw2: "swap_ok ?s2" using sw by (simp add: swap_ok_def)
  have v6': "pl = IronwoodPool \<longrightarrow> is_v6 (tx_info s1)" using cl by (simp add: closable_def)
  have rev: "wp (review_outputs E) Q (step_fail s) ?s2" if "\<And>s'. reviewed ?s2 s' \<Longrightarrow> Q () s'" for Q
    by (rule wp_review_outputs [OF sw2]) (use frame that in simp_all)
  have nr: "\<not> outputs_reviewed (pczt_parser s1)" using cl by (simp add: closable_def)
  have closed: "step_post E s () s3"
    if r: "reviewed ?s2 s'" and v: "pl = OrchardPool \<longrightarrow> \<not> is_v6 (tx_info s1)"
      and s3: "s3 = s' \<or> s3 = s'\<lparr> pczt_parser := (pczt_parser s')\<lparr> orchard_spending_key := None, orchard_spending_key_path := None \<rparr> \<rparr>"
    for s' s3
  proof (rule closed_stepI [OF inv st cl])
    note r' = r [unfolded reviewed_def]
    show "parse_frame s1 s3" "remaining_len s3 = remaining_len s1" using r' s3 by auto
    show "tx_info s3 = tx_info s1 \<or> tx_info s3 = (tx_info s1)\<lparr> outputs := map revealed (outputs (tx_info s1)) \<rparr>"
      using r' s3 by auto
    have v6: "is_v6 (tx_info s3) = is_v6 (tx_info s1)" using r' s3 by auto
    show p: "same_closed (pczt_parser s1) (pczt_parser s3)" "pz_state (pczt_parser s3) = actions_done pl"
      using r' s3 by (auto simp: same_closed_def all_pools)
    have "parsed_all (pczt_parser s3) (tx_info s3)"
      using p(2) v v6 v6' by (cases pl) (simp_all add: parsed_all_def)
    moreover have "\<exists>ev. latest_review (events s3) = Some ev \<and> approves ev (tx_info s3) (session_fee (pczt_parser s3) (tx_info s3))"
      using r' s3 by (auto simp: session_fee_def)
    ultimately show "parsed_all (pczt_parser s3) (tx_info s3)
        \<and> (\<exists>ev. latest_review (events s3) = Some ev \<and> approves ev (tx_info s3) (session_fee (pczt_parser s3) (tx_info s3)))" ..
  qed
  show ?thesis
  proof (cases pl)
    case OrchardPool
    show ?thesis
      unfolding OrchardPool finalize_actions.simps finalize_orchard_actions_def clear_orchard_spending_key_def
      apply (simp add: wp_simps vc_simps cong: wp_cong split del: if_split)
      apply (intro allI impI conjI)
       apply (rule closed_stepI [OF inv st cl]; simp add: OrchardPool same_closed_def nr)
      apply (rule rev [unfolded OrchardPool actions_done.simps])
      by (auto simp: wp_simps OrchardPool intro: closed)
  next
    case IronwoodPool
    show ?thesis
      unfolding IronwoodPool finalize_actions.simps finalize_ironwood_actions_def clear_orchard_spending_key_def
      apply (simp add: wp_simps vc_simps cong: wp_cong split del: if_split)
      apply (rule rev [unfolded IronwoodPool actions_done.simps])
      by (auto simp: wp_simps IronwoodPool intro: closed)
  qed
qed


section \<open>The trailer of a bundle\<close>

fun put_digest :: "pool \<Rightarrow> bytes \<Rightarrow> tx_info \<Rightarrow> tx_info" where
  "put_digest OrchardPool d t = t\<lparr> orchard_digest := d \<rparr>"
| "put_digest IronwoodPool d t = t\<lparr> ironwood_digest := d \<rparr>"

lemma wp_set_pool_digest [wp_simps]:
  "wp (set_pool_digest pl d) Q R s = Q () (s\<lparr> tx_info := put_digest pl d (tx_info s) \<rparr>)"
  by (cases pl) (simp_all add: wp_simps)

lemma put_digest_simps [simp]:
  "change_ok (put_digest pl d t) = change_ok t" "budget_ok (put_digest pl d t) = budget_ok t"
  "shielded_outs (put_digest pl d t) = shielded_outs t"
  "transparent_outs (put_digest pl d t) = transparent_outs t"
  "is_v6 (put_digest pl d t) = is_v6 t" "total_amount (put_digest pl d t) = total_amount t"
  "prevouts_hash (put_digest pl d t) = prevouts_hash t" "sequence_hash (put_digest pl d t) = sequence_hash t"
  "amounts_hash (put_digest pl d t) = amounts_hash t" "scripts_hash (put_digest pl d t) = scripts_hash t"
  "outputs_hash (put_digest pl d t) = outputs_hash t" "change_account (put_digest pl d t) = change_account t"
  "tx_version (put_digest pl d t) = tx_version t" "branch_id (put_digest pl d t) = branch_id t"
  by (cases pl; simp add: change_ok_def budget_ok_def shielded_outs_def transparent_outs_def)+

lemma trailer_closable:
  assumes inv: "pinv E s" and st: "pool_phase pl (pz_state (pczt_parser s)) = Closing"
    and vw: "view pl (pczt_parser s1) = (view pl (pczt_parser s))\<lparr> bn_balance :=
        int (unat (bn_spend_sum (view pl (pczt_parser s)))) - int (unat (bn_output_sum (view pl (pczt_parser s)))) \<rparr>"
      "view (other pl) (pczt_parser s1) = view (other pl) (pczt_parser s)"
    and ti: "tx_info s1 = put_digest pl d (tx_info s)"
    and ca: "action_ok (current_action (pczt_parser s1))"
    and same: "transparent_inputs (pczt_parser s1) = transparent_inputs (pczt_parser s)"
      "transparent_input_count (pczt_parser s1) = transparent_input_count (pczt_parser s)"
      "transparent_input_parsed_count (pczt_parser s1) = transparent_input_parsed_count (pczt_parser s)"
      "transparent_output_count (pczt_parser s1) = transparent_output_count (pczt_parser s)"
      "transparent_output_parsed_count (pczt_parser s1) = transparent_output_parsed_count (pczt_parser s)"
      "total_output_amount (pczt_parser s1) = total_output_amount (pczt_parser s)"
      "outputs_reviewed (pczt_parser s1) = outputs_reviewed (pczt_parser s)"
      "pczt_finished (pczt_parser s1) = pczt_finished (pczt_parser s)"
      "is_v6_tx (pczt_parser s1) = is_v6_tx (pczt_parser s)"
      "pool_field_bytes (pczt_parser s1) = []"
    and rd: "remaining_len s1 < remaining_len s" and frame: "parse_frame s s1"
  shows "closable pl s s1"
proof -
  have op: "in_pool pl (pz_state (pczt_parser s))" using st by (simp add: in_pool_def)
  note ph = in_poolD [OF op]
  show ?thesis
  proof (rule pool_openE [OF inv op])
    assume ok: "change_ok (tx_info s)" "budget_ok (tx_info s)" "shielded_ok (pczt_parser s) (tx_info s)"
      "review_ok s" "\<not> outputs_reviewed (pczt_parser s)" "\<not> pczt_finished (pczt_parser s)"
    have v: "view_ok Closing pl (view pl (pczt_parser s))"
      "view_ok (other_phase pl) (other pl) (view (other pl) (pczt_parser s))"
      using ok(3) st ph unfolding shielded_ok_def by metis+
    have sums: "orchard_output_value_sum (pczt_parser s1) = orchard_output_value_sum (pczt_parser s)
        \<and> ironwood_output_value_sum (pczt_parser s1) = ironwood_output_value_sum (pczt_parser s)
        \<and> has_ironwood_bundle (pczt_parser s1) = has_ironwood_bundle (pczt_parser s)"
      using vw by (cases pl) simp_all
    have bal: "view_ok Closed pl (view pl (pczt_parser s1))"
      using v(1) unfolding vw(1) by (auto simp: view_ok_def records_ok_def)
    have sg: "\<forall>q. bn_signed (view q (pczt_parser s1)) = 0 \<and> bn_sig_digest (view q (pczt_parser s1)) = None"
      using ok(4,5) vw unfolding review_ok_def all_pools_of [of _ pl] by simp
    show ?thesis
      unfolding closable_def beside_pool_def
      using ok v(2) bal sg vw(2) sums ph same ca rd frame by (simp add: ti shielded_ok_def review_ok_def)
  qed
qed

text \<open>The digests of the bundle are computed by the hashers alone, which a closed transparent part
  does not depend on.\<close>

lemma wp_hash_any:
  assumes "parse_frame s0 s"
  shows "(\<And>h. Q () (s\<lparr> hashers := h \<rparr>)) \<Longrightarrow> wp (h_update E r bs) Q (step_fail s0) s"
    "(\<And>d h. Q' d (s\<lparr> hashers := h \<rparr>)) \<Longrightarrow> wp (finalize_and_log_hash E r) Q' (step_fail s0) s"
    "length perso = 16 \<Longrightarrow> (\<And>h. Q () (s\<lparr> hashers := h \<rparr>)) \<Longrightarrow> wp (h_init E r perso) Q (step_fail s0) s"
    "(\<And>h. Q () (s\<lparr> hashers := h \<rparr>)) \<Longrightarrow>
      wp (when_do b (h_update E r bs)) Q (step_fail s0) s"
    "length perso = 16 \<Longrightarrow> (\<And>h. Q () (s\<lparr> hashers := h \<rparr>)) \<Longrightarrow>
      wp (when_do b (h_init E r perso)) Q (step_fail s0) s"
proof -
  have id: "s\<lparr> hashers := hashers s \<rparr> = s" by simp
  show "(\<And>h. Q () (s\<lparr> hashers := h \<rparr>)) \<Longrightarrow> wp (when_do b (h_update E r bs)) Q (step_fail s0) s"
    "length perso = 16 \<Longrightarrow> (\<And>h. Q () (s\<lparr> hashers := h \<rparr>)) \<Longrightarrow>
      wp (when_do b (h_init E r perso)) Q (step_fail s0) s"
    using assms by (simp_all add: wp_simps) (metis id)+
qed (use assms in \<open>simp_all add: wp_simps\<close>)

lemma wp_finish_anchor:
  assumes "parse_frame s0 s"
    and "\<And>d h. wp (finalize_actions E pl) Q (step_fail s0)
      (s\<lparr> hashers := h, tx_info := put_digest pl d (tx_info s) \<rparr>)"
  shows "wp (finish_anchor E pl anchor) Q (step_fail s0) s"
  unfolding finish_anchor_def wp_bnd wp_get wp_bundle
  by (intro wp_hash_any allI; (simp add: assms(1); fail)?)
    (simp add: wp_simps assms(2) del: put_digest.simps finalize_actions.simps)

lemma trailer_pinv:
  assumes inv: "pinv E s" and st: "pz_state (pczt_parser s) = wait_trailer pl"
    and sw: "swap_ok s"
  shows "wp (parse_trailer E pl) (step_post E s) (step_fail s) s"
proof -
  have ph: "pool_phase pl (pz_state (pczt_parser s)) = Closing" by (simp add: st)
  then have op: "in_pool pl (pz_state (pczt_parser s))" by (simp add: in_pool_def)
  have bg: "pool_phase pl (pz_state (pczt_parser s)) \<noteq> NotStarted" using ph by simp
  have ok: "struct_ok (pczt_parser s)" by (rule pool_openE [OF inv op])
  note fin = finalize_pinv [OF inv _ _ _ trailer_closable [OF inv ph]]
  show ?thesis
    unfolding parse_trailer_def finish_value_sum_sign_def
    using ok st
    apply (simp add: wp_simps vc_simps Let_def reading cong: wp_cong split del: if_split
        del: finalize_actions.simps put_digest.simps)
    apply (intro allI impI conjI; (simp; fail)?)
    by (rule wp_finish_anchor, simp, rule fin;
      (use pool_begun [OF bg] sw in \<open>simp add: struct_defs swap_ok_def remaining_len_def set_view_action del: put_digest.simps; fail\<close>)?)+
qed

section \<open>Opening a bundle\<close>

text \<open>What a bundle that has not begun looks like, before the count of its actions is read.\<close>

fun before_bundle :: "pool \<Rightarrow> pczt_parser_state" where
  "before_bundle OrchardPool = TransparentOutputsDone"
| "before_bundle IronwoodPool = OrchardActionsDone"

lemma before_bundleE:
  assumes "pinv E s" "pz_state (pczt_parser s) = before_bundle pl" "pl = IronwoodPool \<longrightarrow> is_v6 (tx_info s)"
  obtains "struct_ok (pczt_parser s)" "change_ok (tx_info s)" "budget_ok (tx_info s)"
    "view pl (pczt_parser s) = empty_view" "view_ok (other_phase pl) (other pl) (view (other pl) (pczt_parser s))"
    "unat (orchard_output_value_sum (pczt_parser s)) + unat (ironwood_output_value_sum (pczt_parser s))
       = amount_sum (shielded_outs (tx_info s))"
    "is_v6_tx (pczt_parser s) \<longleftrightarrow> has_ironwood_bundle (pczt_parser s)"
    "\<not> outputs_reviewed (pczt_parser s)" "\<not> pczt_finished (pczt_parser s)"
    "bn_signed (view (other pl) (pczt_parser s)) = 0" "bn_sig_digest (view (other pl) (pczt_parser s)) = None"
    "list_all (\<lambda>i. \<not> in_signed i) (transparent_inputs (pczt_parser s))"
    "\<not> inputs_open (pz_state (pczt_parser s))" "\<not> outputs_open (pz_state (pczt_parser s))"
    "active (pz_state (pczt_parser s))"
proof (rule pinvE [OF assms(1)])
  show act: "active (pz_state (pczt_parser s))" using assms(2) by (cases pl) (simp_all add: active_def)
  assume ok: "struct_ok (pczt_parser s)" "change_ok (tx_info s)" "budget_ok (tx_info s)"
    "shielded_ok (pczt_parser s) (tx_info s)" "review_ok s"
  have nr: "\<not> outputs_reviewed (pczt_parser s)"
    using ok(5) assms(2,3) by (cases pl) (auto simp: review_ok_def parsed_all_def split: if_splits)
  have ph: "pool_phase pl (pz_state (pczt_parser s)) = NotStarted"
    "pool_phase (other pl) (pz_state (pczt_parser s)) = other_phase pl"
    using assms(2) by (cases pl; simp)+
  have v: "view_ok NotStarted pl (view pl (pczt_parser s))"
    "view_ok (other_phase pl) (other pl) (view (other pl) (pczt_parser s))"
    using ok(4) ph unfolding shielded_ok_def by metis+
  have e: "view pl (pczt_parser s) = empty_view" using v(1) by (simp add: view_ok_def)
  have o: "\<not> inputs_open (pz_state (pczt_parser s))" "\<not> outputs_open (pz_state (pczt_parser s))"
    using assms(2) by (cases pl; simp)+
  have r: "\<not> pczt_finished (pczt_parser s)" "bn_signed (view (other pl) (pczt_parser s)) = 0"
    "bn_sig_digest (view (other pl) (pczt_parser s)) = None"
    "list_all (\<lambda>i. \<not> in_signed i) (transparent_inputs (pczt_parser s))"
    using ok(5) nr unfolding review_ok_def by blast+
  show thesis
    using ok(4) by (intro that [OF ok(1-3) e v(2) _ _ nr r o act]) (simp_all add: shielded_ok_def)
qed

text \<open>A bundle reset for \<open>n\<close> actions.\<close>

definition fresh :: "pool \<Rightarrow> nat \<Rightarrow> world \<Rightarrow> world \<Rightarrow> bool" where
  "fresh pl n s s' \<longleftrightarrow>
     view pl (pczt_parser s') = empty_view\<lparr> bn_count := n, bn_present := (n \<noteq> 0) \<rparr> \<and> n \<le> max_actions pl
   \<and> view (other pl) (pczt_parser s') = view (other pl) (pczt_parser s)
   \<and> transparent_inputs (pczt_parser s') = transparent_inputs (pczt_parser s)
   \<and> transparent_input_count (pczt_parser s') = transparent_input_count (pczt_parser s)
   \<and> transparent_input_parsed_count (pczt_parser s') = transparent_input_parsed_count (pczt_parser s)
   \<and> transparent_output_count (pczt_parser s') = transparent_output_count (pczt_parser s)
   \<and> transparent_output_parsed_count (pczt_parser s') = transparent_output_parsed_count (pczt_parser s)
   \<and> total_output_amount (pczt_parser s') = total_output_amount (pczt_parser s)
   \<and> outputs_reviewed (pczt_parser s') = outputs_reviewed (pczt_parser s) \<and> \<not> pczt_finished (pczt_parser s')
   \<and> is_v6_tx (pczt_parser s') = (is_v6_tx (pczt_parser s) \<or> pl = IronwoodPool \<and> n \<noteq> 0)
   \<and> tx_info s' = (tx_info s)\<lparr> info_has_ironwood_bundle := info_has_ironwood_bundle (tx_info s') \<rparr>
   \<and> action_ok (current_action (pczt_parser s')) \<and> pool_field_bytes (pczt_parser s') = []
   \<and> remaining_len s' < remaining_len s \<and> parse_frame s s'"

lemma info_bundle_simps:
  assumes "t' = t\<lparr> info_has_ironwood_bundle := b \<rparr>"
  shows "change_ok t' = change_ok t" "budget_ok t' = budget_ok t" "shielded_outs t' = shielded_outs t"
    "transparent_outs t' = transparent_outs t" "is_v6 t' = is_v6 t"
  by (simp_all add: assms change_ok_def budget_ok_def shielded_outs_def transparent_outs_def)

lemma fresh_facts:
  assumes inv: "pinv E s" and st: "pz_state (pczt_parser s) = before_bundle pl"
    and v6: "pl = IronwoodPool \<longrightarrow> is_v6 (tx_info s)" and f: "fresh pl n s s'"
  shows "beside_pool (pczt_parser s) (tx_info s) (pczt_parser s') (tx_info s')"
    "change_ok (tx_info s')" "budget_ok (tx_info s')"
    "records_ok (view pl (pczt_parser s'))"
    "view_ok (other_phase pl) (other pl) (view (other pl) (pczt_parser s'))"
    "unat (orchard_output_value_sum (pczt_parser s')) + unat (ironwood_output_value_sum (pczt_parser s'))
       = amount_sum (shielded_outs (tx_info s'))"
    "is_v6_tx (pczt_parser s') \<longleftrightarrow> has_ironwood_bundle (pczt_parser s')"
    "\<not> outputs_reviewed (pczt_parser s')"
    "\<forall>q. bn_signed (view q (pczt_parser s')) = 0 \<and> bn_sig_digest (view q (pczt_parser s')) = None"
    "list_all (\<lambda>i. \<not> in_signed i) (transparent_inputs (pczt_parser s'))"
    "pl = IronwoodPool \<longrightarrow> is_v6 (tx_info s')"
proof -
  note f' = f [unfolded fresh_def]
  obtain b where ti: "tx_info s' = (tx_info s)\<lparr> info_has_ironwood_bundle := b \<rparr>" using f' by blast
  note t = info_bundle_simps [OF ti]
  note e = before_bundleE [OF inv st v6]
  have sg: "bn_signed (view (other pl) (pczt_parser s)) = 0"
    "bn_sig_digest (view (other pl) (pczt_parser s)) = None"
    by (rule e, assumption)+
  show "beside_pool (pczt_parser s) (tx_info s) (pczt_parser s') (tx_info s')"
    using f' t(4) unfolding beside_pool_def ti by simp
  show "change_ok (tx_info s')" "budget_ok (tx_info s')" using t by (auto intro: e)
  show "records_ok (view pl (pczt_parser s'))" using f' by (simp add: records_ok_def empty_view_def)
  show "view_ok (other_phase pl) (other pl) (view (other pl) (pczt_parser s'))" using f' e by metis
  show "\<not> outputs_reviewed (pczt_parser s')" using f' e by metis
  show "list_all (\<lambda>i. \<not> in_signed i) (transparent_inputs (pczt_parser s'))" using f' e by metis
  show "pl = IronwoodPool \<longrightarrow> is_v6 (tx_info s')" using v6 t by simp
  show "\<forall>q. bn_signed (view q (pczt_parser s')) = 0 \<and> bn_sig_digest (view q (pczt_parser s')) = None"
    unfolding all_pools_of [of _ pl] using f' sg by (simp add: empty_view_def)
  have "view pl (pczt_parser s) = empty_view" by (rule e)
  then have z: "bn_output_sum (view pl (pczt_parser s)) = 0" "\<not> bn_present (view pl (pczt_parser s))"
    by (simp_all add: empty_view_def)
  have z': "bn_output_sum (view pl (pczt_parser s')) = 0" "bn_present (view pl (pczt_parser s')) \<longleftrightarrow> n \<noteq> 0"
    using f' by (simp_all add: empty_view_def)
  have o: "view (other pl) (pczt_parser s') = view (other pl) (pczt_parser s)" using f' by simp
  have s: "unat (orchard_output_value_sum (pczt_parser s)) + unat (ironwood_output_value_sum (pczt_parser s))
       = amount_sum (shielded_outs (tx_info s))" by (rule e)
  have v6x: "is_v6_tx (pczt_parser s') = (is_v6_tx (pczt_parser s) \<or> pl = IronwoodPool \<and> n \<noteq> 0)"
    using f' by simp
  have h: "is_v6_tx (pczt_parser s) \<longleftrightarrow> has_ironwood_bundle (pczt_parser s)" by (rule e)
  show "unat (orchard_output_value_sum (pczt_parser s')) + unat (ironwood_output_value_sum (pczt_parser s'))
       = amount_sum (shielded_outs (tx_info s'))"
    using z z' o s t by (cases pl) simp_all
  show "is_v6_tx (pczt_parser s') \<longleftrightarrow> has_ironwood_bundle (pczt_parser s')"
    using v6x z z' o h by (cases pl) simp_all
qed

lemma before_begun:
  "pz_state p = before_bundle pl \<Longrightarrow> \<not> inputs_open (pz_state p)"
  "pz_state p = before_bundle pl \<Longrightarrow> \<not> outputs_open (pz_state p)"
  "pz_state p = before_bundle pl \<Longrightarrow> active (pz_state p)"
  by (cases pl; simp add: active_def)+

lemma fresh_closable:
  assumes "pinv E s" "pz_state (pczt_parser s) = before_bundle pl"
    "pl = IronwoodPool \<longrightarrow> is_v6 (tx_info s)" "fresh pl 0 s s'"
  shows "closable pl s s'"
proof -
  note ff = fresh_facts [OF assms]
  have "view_ok Closed pl (view pl (pczt_parser s'))"
    using ff(4) assms(4) by (simp add: fresh_def view_ok_def empty_view_def)
  then show ?thesis using ff assms(4) by (simp add: closable_def fresh_def)
qed

lemma fresh_stepI:
  assumes inv: "pinv E s" and st: "pz_state (pczt_parser s) = before_bundle pl"
    and v6: "pl = IronwoodPool \<longrightarrow> is_v6 (tx_info s)" and f: "fresh pl n s s'" and n: "n \<noteq> 0"
    and st': "pz_state (pczt_parser s') = wait_action pl"
  shows "step_post E s u s'"
proof -
  note ff = fresh_facts [OF inv st v6 f]
  have op: "in_pool pl (pz_state (pczt_parser s'))" by (simp add: st')
  note ph = in_poolD [OF op]
  show ?thesis
  proof (rule begun_stepI [OF inv before_begun [OF st], where pl = pl])
    show "pool_phase pl (pz_state (pczt_parser s')) \<noteq> NotStarted" by (simp add: st')
    show "struct_ok (pczt_parser s')" using f by (simp add: st' struct_ok_def fresh_def)
    have "view_ok Opened pl (view pl (pczt_parser s'))"
      using f n ff(4) by (simp add: view_ok_def fresh_def) (simp add: empty_view_def)
    then show "shielded_ok (pczt_parser s') (tx_info s')"
      using ff ph unfolding shielded_ok_def all_pools_of [of _ pl] by (simp add: st')
    show "review_ok s'" using ff f by (simp add: review_ok_def fresh_def)
    show "remaining_len s' < remaining_len s" "parse_frame s s'" "\<not> pczt_finished (pczt_parser s')"
      using f by (simp_all add: fresh_def)
  qed (use ff in simp_all)
qed


lemmas fresh_open = fresh_stepI [where n = "bn_count (view pl (pczt_parser s'))" and s' = s' and pl = pl for pl s']

lemma info_bundle_same [simp]: "t\<lparr> info_has_ironwood_bundle := info_has_ironwood_bundle t \<rparr> = t" for t :: tx_info
  by (rule tx_info.equality; simp)

lemmas fresh_defs = fresh_def empty_view_def action_ok_def size_consts remaining_len_def swap_ok_def

lemma orchard_start_pinv:
  assumes E: "codec_laws E" and inv: "pinv E s" and st: "pz_state (pczt_parser s) = TransparentOutputsDone"
    and sw: "swap_ok s"
  shows "wp (parse_orchard_actions_start E) (step_post E s) (step_fail s) s"
proof -
  have st0: "pz_state (pczt_parser s) = before_bundle OrchardPool" by (simp add: st)
  note fin = finalize_pinv [OF inv before_begun [OF st0] fresh_closable [OF inv st0], unfolded finalize_actions.simps]
  note go = fresh_open [OF inv st0, unfolded wait_action.simps]
  have e: "has_orchard_bundle (pczt_parser s) = False" "struct_ok (pczt_parser s)"
    "\<not> outputs_reviewed (pczt_parser s)" "\<not> pczt_finished (pczt_parser s)"
    using before_bundleE [OF inv st0] by (auto simp: empty_view_def)
  show ?thesis
    unfolding parse_orchard_actions_start_def reset_orchard_bundle_state_def reset_bundle_state_def
      reset_current_action_def
    using e sw
    apply (simp add: wp_simps vc_simps cong: wp_cong split del: if_split)
    apply (intro allI impI conjI; (simp; fail)?)
    by (drule compact_size_readD [OF E], erule conjE, (rule fin | rule go); simp add: fresh_defs)+
qed

lemma ironwood_start_pinv:
  assumes E: "codec_laws E" and inv: "pinv E s" and st: "pz_state (pczt_parser s) = OrchardActionsDone"
    and sw: "swap_ok s"
  shows "wp (parse_ironwood_actions_start E) (step_post E s) (step_fail s) s"
proof (cases "is_v6 (tx_info s)")
  case False
  then show ?thesis unfolding parse_ironwood_actions_start_def by (simp add: wp_simps)
next
  case True
  have st0: "pz_state (pczt_parser s) = before_bundle IronwoodPool" by (simp add: st)
  note fin = finalize_pinv [OF inv before_begun [OF st0] fresh_closable [OF inv st0], unfolded finalize_actions.simps]
  note go = fresh_open [OF inv st0, unfolded wait_action.simps]
  have e: "has_ironwood_bundle (pczt_parser s) = False" "struct_ok (pczt_parser s)"
    "\<not> outputs_reviewed (pczt_parser s)" "\<not> pczt_finished (pczt_parser s)"
    using before_bundleE [OF inv st0] True by (auto simp: empty_view_def)
  show ?thesis
    unfolding parse_ironwood_actions_start_def reset_ironwood_bundle_state_def reset_bundle_state_def
      reset_current_action_def
    using e sw True
    apply (simp add: wp_simps vc_simps cong: wp_cong split del: if_split)
    apply (intro allI impI conjI; (simp; fail)?)
    by (drule compact_size_readD [OF E], erule conjE, (rule fin | rule go); simp add: fresh_defs)+
qed

section \<open>The loops over bundle packets\<close>

lemmas pool_step_pinv = action_pinv zip32_pinv output_fields_pinv enc_len_pinv enc_pinv
  out_len_pinv out_pinv metadata_pinv trailer_pinv

lemma orchard_step_pinv:
  assumes E: "env_laws E" and sw: "swap_ok s" and inv: "pinv E s" and left: "packet_left s"
  shows "wp (orchard_step E) (step_post E s) (step_fail s) s"
  using env_lawsD [OF E] E sw inv left unfolding orchard_step_def pool_entry_defs
  by (cases "pz_state (pczt_parser s)") (simp_all add: wp_simps orchard_start_pinv pool_step_pinv)

lemma ironwood_step_pinv:
  assumes E: "env_laws E" and sw: "swap_ok s" and inv: "pinv E s" and left: "packet_left s"
  shows "wp (ironwood_step E) (step_post E s) (step_fail s) s"
  using env_lawsD [OF E] E sw inv left unfolding ironwood_step_def pool_entry_defs
  by (cases "pz_state (pczt_parser s)") (simp_all add: wp_simps ironwood_start_pinv pool_step_pinv)

interpretation orchard_loop: packet_loop packet_left remaining_len "orchard_step E"
  "loop_inv E s0" "\<lambda>x s'. parse_frame s0 s'" for E s0
  by unfold_locales (auto simp: packet_left_def intro!: packet_stepI orchard_step_pinv)

interpretation ironwood_loop: packet_loop packet_left remaining_len "ironwood_step E"
  "loop_inv E s0" "\<lambda>x s'. parse_frame s0 s'" for E s0
  by unfold_locales (auto simp: packet_left_def intro!: packet_stepI ironwood_step_pinv)

end
