(* ===== verification/Pczt_Session.thy ===== *)
theory Pczt_Session
  imports Pczt_Shielded_Proofs
begin

text \<open>
  The turns that parse: a packet through its dispatch loop, the header, the end of the parse, and
  the handlers around them.  Every such turn ends with the session invariant in force or with a
  fresh parser, releases no signature, and after the approval changes nothing of the transaction.
\<close>

section \<open>Packets\<close>

text \<open>What a packet leaves: the invariant and an empty reader, or an error and a fresh parser.\<close>

definition packet_post :: "env \<Rightarrow> world \<Rightarrow> unit \<Rightarrow> world \<Rightarrow> bool" where
  "packet_post E s u s' \<longleftrightarrow> pinv E s' \<and> \<not> packet_left s' \<and> parse_frame s s'
     \<and> (\<not> pczt_finished (pczt_parser s) \<longrightarrow> \<not> pczt_finished (pczt_parser s'))"

definition packet_fail :: "world \<Rightarrow> parser_error fault \<Rightarrow> world \<Rightarrow> bool" where
  "packet_fail s e s' \<longleftrightarrow> just_fails e \<and> pczt_parser s' = pczt_parser_new \<and> parse_frame s s'"

lemma wp_pczt_reset [wp_simps]: "wp pczt_reset Q R s = Q () (s\<lparr> pczt_parser := pczt_parser_new \<rparr>)"
  by (simp add: pczt_reset_def wp_simps)

lemma wp_reset_on_error:
  assumes "wp m Q (step_fail s0) s" "parse_frame s0 s"
  shows "wp (reset_on_error m) Q (packet_fail s0) s"
  unfolding reset_on_error_def wp_catch_err
  by (rule wp_mono [OF assms(1)])
    (auto simp: step_fail_def packet_fail_def wp_simps just_fails_def split: fault.splits)

lemma pinv_reader [simp]: "pinv E (s\<lparr> rd_buf := d, rd_pos := n \<rparr>) = pinv E s"
  by (simp add: pinv_def review_ok_def)

lemma on_packet_pinv:
  assumes loop: "\<And>s1. loop_inv E s s1 \<Longrightarrow> remaining_len s1 \<le> length data \<Longrightarrow>
      wp (while_sm (length data) packet_left step) (\<lambda>_ s'. loop_inv E s s' \<and> \<not> packet_left s')
        (\<lambda>e s'. case e of Fail x \<Rightarrow> parse_frame s s' | Panic \<Rightarrow> False | Diverge \<Rightarrow> False) s1"
    and E: "env_laws E" "swap_ok s" "pinv E s"
  shows "wp (on_packet data step) (packet_post E s) (packet_fail s) s"
  unfolding on_packet_def
proof (rule wp_reset_on_error)
  let ?s1 = "s\<lparr> rd_buf := data, rd_pos := 0 \<rparr>"
  have "loop_inv E s ?s1" using E by (simp add: loop_inv_def)
  note w = loop [OF this]
  show "wp (bnd (reader_new data) (\<lambda>_. while_sm (length data) packet_left step))
      (packet_post E s) (step_fail s) s"
    unfolding wp_bnd reader_new_def wp_modify
    by (rule wp_mono [OF w]) (auto simp: packet_post_def loop_inv_def step_fail_def just_fails_def
        remaining_len_def split: fault.splits)
qed simp

lemma parse_packets_pinv:
  assumes E: "env_laws E" "swap_ok s" "pinv E s"
  shows "wp (parse_transparent_inputs E data) (packet_post E s) (packet_fail s) s"
    "wp (parse_transparent_outputs E data) (packet_post E s) (packet_fail s) s"
    "wp (parse_orchard_actions E data) (packet_post E s) (packet_fail s) s"
    "wp (parse_ironwood_actions E data) (packet_post E s) (packet_fail s) s"
  unfolding parse_transparent_inputs_def parse_transparent_outputs_def parse_orchard_actions_def
    parse_ironwood_actions_def
  by (rule on_packet_pinv [OF _ E], erule inputs_loop.loop_wp outputs_loop.loop_wp orchard_loop.loop_wp
      ironwood_loop.loop_wp, assumption)+

text \<open>A reviewed transaction is closed: any further byte of any section is refused.\<close>

lemma reviewed_step_refuses:
  assumes inv: "pinv E s" and rev: "outputs_reviewed (pczt_parser s)"
  shows "\<exists>x. transparent_inputs_step E s = (Inl (Fail x), s)"
    "\<exists>x. transparent_outputs_step E s = (Inl (Fail x), s)"
    "\<exists>x. orchard_step E s = (Inl (Fail x), s)"
    "\<exists>x. ironwood_step E s = (Inl (Fail x), s)"
proof -
  have "active (pz_state (pczt_parser s))"
    using inv rev by (cases "active (pz_state (pczt_parser s))") (simp_all add: pinv_def pczt_parser_new_def)
  then have "parsed_all (pczt_parser s) (tx_info s)"
    using inv rev by (simp add: pinv_def review_ok_def)
  then have "pz_state (pczt_parser s) = IronwoodActionsDone
      \<or> pz_state (pczt_parser s) = OrchardActionsDone \<and> \<not> is_v6 (tx_info s)"
    by (auto simp: parsed_all_def split: if_splits)
  then show "\<exists>x. transparent_inputs_step E s = (Inl (Fail x), s)"
    "\<exists>x. transparent_outputs_step E s = (Inl (Fail x), s)"
    "\<exists>x. orchard_step E s = (Inl (Fail x), s)"
    "\<exists>x. ironwood_step E s = (Inl (Fail x), s)"
    by (auto simp: transparent_inputs_step_def transparent_outputs_step_def orchard_step_def
        ironwood_step_def parse_ironwood_actions_start_def bnd_def get_p_def get_ti_def gets_def throw_def
        ensure_def)
qed

section \<open>Header\<close>

lemma wp_read_any:
  assumes "parse_frame s0 s"
  shows "(\<And>x n. Q x (s\<lparr> rd_pos := n \<rparr>)) \<Longrightarrow> wp (read_exact k) Q (step_fail s0) s"
    "(\<And>x n. Q1 x (s\<lparr> rd_pos := n \<rparr>)) \<Longrightarrow> wp read_u32_le Q1 (step_fail s0) s"
    "(\<And>x n. Q2 x (s\<lparr> rd_pos := n \<rparr>)) \<Longrightarrow> wp read_u8 Q2 (step_fail s0) s"
    "(\<And>x n. Q3 x (s\<lparr> rd_pos := n \<rparr>)) \<Longrightarrow> wp read_optional_u32 Q3 (step_fail s0) s"
    "(b \<Longrightarrow> Q4 () s) \<Longrightarrow> wp (ensure b e) Q4 (step_fail s0) s"
  using assms by (simp_all add: wp_simps read_optional_u32_def)

lemma wp_pczt_header:
  assumes "parse_frame s0 s"
    and "\<And>v n. Q () (s\<lparr> rd_pos := n, pczt_parser := (pczt_parser s)\<lparr> pczt_version := v \<rparr> \<rparr>)"
  shows "wp (parse_pczt_header E) Q (step_fail s0) s"
  unfolding parse_pczt_header_def wp_bnd
  by (intro wp_read_any; simp add: assms wp_simps)

text \<open>The global fields set the version and branch, and leave every total and list empty.\<close>

definition global_set :: "tx_info \<Rightarrow> tx_info \<Rightarrow> bool" where
  "global_set t t' \<longleftrightarrow> (\<exists>b lock expiry v6. t' = t\<lparr> tx_version := Some TxV5, branch_id := Some b,
     branch_id_raw := b, locktime := lock, expiry_height := expiry, is_v6 := v6 \<rparr>)"

lemma wp_parse_global:
  assumes "parse_frame s0 s" "tx_version (tx_info s) = Some TxV5"
    and "\<And>t n. global_set (tx_info s) t \<Longrightarrow> Q () (s\<lparr> rd_pos := n, tx_info := t \<rparr>)"
  shows "wp (parse_global E) Q (step_fail s0) s"
proof -
  have "(tx_info s)\<lparr> tx_version := Some TxV5 \<rparr> = tx_info s" using assms(2) by simp
  then have g: "global_set (tx_info s) ((tx_info s)\<lparr> branch_id := Some b, branch_id_raw := b,
       locktime := lock, expiry_height := expiry, is_v6 := v6 \<rparr>)"
    "global_set (tx_info s) ((tx_info s)\<lparr> tx_version := Some TxV5, branch_id := Some b,
       branch_id_raw := b, locktime := lock, expiry_height := expiry, is_v6 := v6 \<rparr>)" for b lock expiry v6
    unfolding global_set_def by metis+
  show ?thesis
    unfolding parse_global_def wp_bnd Let_def
    by (intro wp_read_any; simp add: assms(1))
      (simp add: wp_simps vc_simps assms(1,3) g cong: wp_cong)
qed

lemma header_pinv:
  assumes "pczt_parser s1 = pczt_parser_new\<lparr> pczt_version := pczt_version (pczt_parser s1), pz_state := WaitTransparentInputsCount \<rparr>"
    and "prevouts_hasher (hashers s1) = \<lparr> b_perso = ZCASH_PREVOUTS_HASH_PERSONALIZATION, b_data = [], b_final = False \<rparr>"
      "sequence_hasher (hashers s1) = \<lparr> b_perso = ZCASH_SEQUENCE_HASH_PERSONALIZATION, b_data = [], b_final = False \<rparr>"
      "outputs_hasher (hashers s1) = \<lparr> b_perso = ZCASH_OUTPUTS_HASH_PERSONALIZATION, b_data = [], b_final = False \<rparr>"
      "amounts_hasher (hashers s1) = \<lparr> b_perso = ZCASH_TRANSPARENT_AMOUNTS_HASH_PERSONALIZATION, b_data = [], b_final = False \<rparr>"
      "scripts_hasher (hashers s1) = \<lparr> b_perso = ZCASH_TRANSPARENT_SCRIPTS_HASH_PERSONALIZATION, b_data = [], b_final = False \<rparr>"
    and "global_set (tx_info_default\<lparr> tx_version := Some TxV5, total_amount := 0 \<rparr>) (tx_info s1)"
  shows "pinv E s1"
proof -
  obtain v where p1: "pczt_parser s1 = pczt_parser_new\<lparr> pczt_version := v, pz_state := WaitTransparentInputsCount \<rparr>"
    using assms(1) by metis
  obtain b lock expiry v6 where ti: "tx_info s1 = tx_info_default\<lparr> tx_version := Some TxV5, total_amount := 0,
      tx_version := Some TxV5, branch_id := Some b, branch_id_raw := b, locktime := lock, expiry_height := expiry, is_v6 := v6 \<rparr>"
    using assms(7) unfolding global_set_def by blast
  have p: "struct_ok (pczt_parser s1)"
    by (simp add: p1 assms(2-6) struct_ok_def pczt_parser_new_def action_ok_def current_action_new_def size_consts)
  have i: "inputs_ok E (pczt_parser s1) (hashers s1) (tx_info s1)"
    by (simp add: p1 assms(2-6) input_defs digest_defs pczt_parser_new_def ti tx_info_default_def)
  have o: "outputs_ok E [] (pczt_parser s1) (hashers s1) (tx_info s1)"
    by (simp add: p1 assms(2-6) output_defs digest_defs pczt_parser_new_def ti tx_info_default_def amount_sum_def)
  have r: "change_ok (tx_info s1)" "budget_ok (tx_info s1)" "has_version (tx_info s1)"
    by (simp_all add: ti tx_info_default_def change_ok_def budget_ok_def has_version_def shielded_outs_def)
  have sh: "shielded_ok (pczt_parser s1) (tx_info s1)"
    by (simp add: p1 shield_defs pczt_parser_new_def ti tx_info_default_def amount_sum_def shielded_outs_def)
  have rv: "review_ok s1" by (simp add: p1 review_ok_def all_pools pczt_parser_new_def)
  show ?thesis using p i o r sh rv unfolding pinv_def by (auto simp: p1 active_def)
qed

lemma parse_header_pinv:
  assumes inv: "pinv E s"
  shows "wp (parse_header E data) (\<lambda>u s'. packet_post E s u s' \<and> \<not> outputs_reviewed (pczt_parser s'))
    (packet_fail s) s"
proof (cases "pz_state (pczt_parser s) = WaitHeaderAndGlobal")
  case False
  then show ?thesis by (simp add: parse_header_def reset_on_error_def packet_fail_def wp_simps)
next
  case True
  then have p: "pczt_parser s = pczt_parser_new" using inv by (simp add: pinv_def active_def)
  show ?thesis
    unfolding parse_header_def
  proof (rule wp_reset_on_error)
    show "wp (bnd (get_p pz_state) (\<lambda>st. bnd (ensure (st = WaitHeaderAndGlobal) (Sw BadState))
      (\<lambda>_. seqs [reader_new data, mod_ti (\<lambda>_. tx_info_default), init_v5_tx_hashers E,
          mod_ti (\<lambda>t. t\<lparr> tx_version := Some TxV5, total_amount := 0 \<rparr>), parse_pczt_header E,
          parse_global E, ensure_group_end ''Unexpected PCZT header data after global fields'',
          set_state WaitTransparentInputsCount])))
        (\<lambda>u s'. packet_post E s u s' \<and> \<not> outputs_reviewed (pczt_parser s')) (step_fail s) s"
      unfolding init_v5_tx_hashers_def reader_new_def
      apply (simp add: wp_simps vc_simps True cong: wp_cong)
      apply (intro impI conjI wp_pczt_header; (simp; fail)?)
      apply (simp only: wp_seqs_Cons wp_seqs_Nil)
      apply (rule wp_parse_global; (simp; fail)?)
      apply (simp add: wp_simps ensure_group_end_def packet_post_def packet_left_def p remaining_len_def
          pczt_parser_new_def [THEN arg_cong, of outputs_reviewed]
          pczt_parser_new_def [THEN arg_cong, of pczt_finished])
      apply (intro impI header_pinv; simp; fail)
      done
  qed simp
qed

section \<open>Handlers that parse\<close>

text \<open>What a turn that releases no signature leaves alone.\<close>

definition quiet :: "world \<Rightarrow> world \<Rightarrow> bool" where
  "quiet s s' \<longleftrightarrow> swap_params s' = swap_params s \<and> has_released_signature s' = has_released_signature s
     \<and> comm_out s' = comm_out s \<and> (\<exists>evs. events s' = events s @ evs \<and> list_all is_review evs)"

lemma is_review_iff: "is_review ev \<longleftrightarrow> (\<forall>pl i d p. ev \<noteq> Signed pl i d p)"
  by (cases ev) simp_all

lemma quiet_frame: "parse_frame s s' \<Longrightarrow> quiet s s'"
  by (auto simp: parse_frame_def quiet_def list_all_iff is_review_iff)

lemma quiet_refl [simp]: "quiet s s" by (simp add: quiet_def)

lemma quiet_trans: "quiet s s' \<Longrightarrow> quiet s' s'' \<Longrightarrow> quiet s s''"
  by (fastforce simp: quiet_def)

lemma quiet_upd [simp]:
  "quiet s (s'\<lparr> pczt_parser := p \<rparr>) = quiet s s'" "quiet s (s'\<lparr> is_finished_flag := f \<rparr>) = quiet s s'"
  "quiet s (reset_ctx mode s') = quiet s s'" "quiet (reset_ctx mode s) s' = quiet s s'"
  "quiet s (s'\<lparr> tx_info := t \<rparr>) = quiet s s'"
  by (simp_all add: quiet_def reset_ctx_def)

text \<open>A session in which nothing has been signed.\<close>

definition unsigned :: "pczt_parser \<Rightarrow> bool" where
  "unsigned p \<longleftrightarrow> (\<forall>pl. bn_signed (view pl p) = 0 \<and> bn_sig_digest (view pl p) = None)
     \<and> list_all (\<lambda>i. \<not> in_signed i) (transparent_inputs p)"

lemma unsigned_new [simp]: "unsigned pczt_parser_new" "\<not> pczt_finished pczt_parser_new"
  by (simp_all add: unsigned_def all_pools) (simp_all add: pczt_parser_new_def)

lemma pinv_unsigned: "pinv E s \<Longrightarrow> \<not> pczt_finished (pczt_parser s) \<Longrightarrow> unsigned (pczt_parser s)"
  by (cases "active (pz_state (pczt_parser s))") (simp_all add: pinv_def review_ok_def unsigned_def [symmetric])

definition turn_post :: "env \<Rightarrow> world \<Rightarrow> unit \<Rightarrow> world \<Rightarrow> bool" where
  "turn_post E s u s' \<longleftrightarrow> pinv E s' \<and> quiet s s'
     \<and> (\<not> pczt_finished (pczt_parser s) \<longrightarrow> unsigned (pczt_parser s'))"

definition turn_fail :: "world \<Rightarrow> app_sw fault \<Rightarrow> world \<Rightarrow> bool" where
  "turn_fail s e s' \<longleftrightarrow> just_fails e \<and> pczt_parser s' = pczt_parser_new \<and> quiet s s'"

lemma turn_fail_Fail [simp]:
  "turn_fail s (Fail x) s' \<longleftrightarrow> pczt_parser s' = pczt_parser_new \<and> quiet s s'"
  by (simp add: turn_fail_def)

lemma wp_on_parser_error:
  assumes "wp m Q (packet_fail s0) s"
  shows "wp (on_parser_error m) Q (turn_fail s0) s"
  unfolding on_parser_error_def wp_catch_err
  by (rule wp_mono [OF assms])
    (auto simp: packet_fail_def just_fails_def map_pczt_parser_error_def wp_simps quiet_frame)

lemma wp_reset_with_sw [wp_simps]:
  "wp (reset_pczt_parser_with_sw sw) Q R s = R (Fail sw) (s\<lparr> pczt_parser := pczt_parser_new \<rparr>)"
  by (simp add: reset_pczt_parser_with_sw_def wp_simps)

lemma wp_get_data [wp_simps]:
  "wp get_data_or_reset Q R s = (case comm_data s of None \<Rightarrow> R (Fail WrongApduLength) (s\<lparr> pczt_parser := pczt_parser_new \<rparr>)
     | Some data \<Rightarrow> Q data s)"
  by (simp add: get_data_or_reset_def wp_simps split: option.splits)

text \<open>The invariant does not depend on the flag that records the end of the parse, nor on the digests
  that are recomputed for every signature.\<close>

lemma view_flags [simp]:
  "view pl (p\<lparr> pczt_finished := b \<rparr>) = view pl p" "view pl (p\<lparr> transparent_inputs := ins \<rparr>) = view pl p"
  by (cases pl; simp)+

lemma ok_flags [simp]:
  "struct_ok (p\<lparr> pczt_finished := b \<rparr>) = struct_ok p"
  "inputs_ok E (p\<lparr> pczt_finished := b \<rparr>) h t = inputs_ok E p h t"
  "outputs_ok E raws (p\<lparr> pczt_finished := b \<rparr>) h t = outputs_ok E raws p h t"
  "shielded_ok (p\<lparr> pczt_finished := b \<rparr>) t = shielded_ok p t"
  "parsed_all (p\<lparr> pczt_finished := b \<rparr>) t = parsed_all p t"
  "session_fee (p\<lparr> pczt_finished := b \<rparr>) t = session_fee p t"
  by (simp_all add: struct_ok_def input_defs output_defs shielded_ok_def parsed_all_def session_fee_def)

lemma reviewed_active: "pinv E s \<Longrightarrow> outputs_reviewed (pczt_parser s) \<Longrightarrow> active (pz_state (pczt_parser s))"
  by (cases "active (pz_state (pczt_parser s))") (simp_all add: pinv_def pczt_parser_new_def)

lemma finish_pczt_pinv:
  assumes inv: "pinv E s"
  shows "wp finish_pczt (\<lambda>_ s'. pinv E s' \<and> parse_frame s s'
      \<and> unsigned (pczt_parser s') = unsigned (pczt_parser s)) (packet_fail s) s"
proof (cases "is_ready_to_sign (pczt_parser s)")
  case True
  then have r: "outputs_reviewed (pczt_parser s)" by (simp add: is_ready_to_sign_def Let_def)
  have "pinv E (s\<lparr> pczt_parser := (pczt_parser s)\<lparr> pczt_finished := True \<rparr> \<rparr>)"
    using inv r reviewed_active [OF inv r] by (simp add: pinv_def review_ok_def)
  with True show ?thesis unfolding finish_pczt_def
    by (intro wp_reset_on_error) (simp_all add: wp_simps unsigned_def)
qed (simp add: finish_pczt_def reset_on_error_def wp_simps packet_fail_def)

lemma wp_finish_requested:
  assumes "pinv E s" "parse_frame s0 s" "\<not> pczt_finished (pczt_parser s0) \<longrightarrow> unsigned (pczt_parser s)"
  shows "wp (finish_pczt_if_requested b) (turn_post E s0) (turn_fail s0) s"
proof (cases b)
  case True
  have "wp finish_pczt (turn_post E s0) (packet_fail s0) s"
    by (rule wp_mono [OF finish_pczt_pinv [OF assms(1)]])
      (auto simp: turn_post_def packet_fail_def assms(3) [rule_format] intro: quiet_frame parse_frame_trans [OF assms(2)])
  then show ?thesis using True by (simp add: finish_pczt_if_requested_def wp_on_parser_error)
next
  case False
  then show ?thesis using assms by (simp add: finish_pczt_if_requested_def wp_simps turn_post_def quiet_frame)
qed

lemma parse_handlers_pinv:
  assumes E: "env_laws E" "swap_ok s" "pinv E s"
  shows "wp (handler_pczt_transparent_input E first last1) (turn_post E s) (turn_fail s) s"
    "wp (handler_pczt_transparent_output E first last1) (turn_post E s) (turn_fail s) s"
    "wp (handler_pczt_orchard_action E first last1 finished) (turn_post E s) (turn_fail s) s"
    "wp (handler_pczt_ironwood_action E first last1 finished) (turn_post E s) (turn_fail s) s"
proof -
  have turn: "wp (on_parser_error m) (\<lambda>_. P) (turn_fail s) s"
    if "wp m (packet_post E s) (packet_fail s) s" and "\<And>s'. pinv E s' \<Longrightarrow> parse_frame s s'
        \<Longrightarrow> \<not> pczt_finished (pczt_parser s) \<longrightarrow> unsigned (pczt_parser s') \<Longrightarrow> P s'"
    for m :: "unit papp" and P
    by (rule wp_on_parser_error, rule wp_mono [OF that(1)])
      (auto intro!: that(2) simp: packet_post_def pinv_unsigned)
  note packets = parse_packets_pinv [OF E]
  show "wp (handler_pczt_transparent_input E first last1) (turn_post E s) (turn_fail s) s"
    "wp (handler_pczt_transparent_output E first last1) (turn_post E s) (turn_fail s) s"
    "wp (handler_pczt_orchard_action E first last1 finished) (turn_post E s) (turn_fail s) s"
    "wp (handler_pczt_ironwood_action E first last1 finished) (turn_post E s) (turn_fail s) s"
    unfolding handler_pczt_transparent_input_def handler_pczt_transparent_output_def
      handler_pczt_orchard_action_def handler_pczt_ironwood_action_def wp_bnd wp_get_data
    by (cases "comm_data s"; simp;
      (rule turn, rule packets, simp add: wp_simps turn_post_def quiet_frame wp_finish_requested)?)+
qed

lemma reset_ctx_simps [simp]:
  "pczt_parser (reset_ctx mode s) = pczt_parser_new" "comm_data (reset_ctx mode s) = comm_data s"
  "swap_params (reset_ctx mode s) = swap_params s" "events (reset_ctx mode s) = events s"
  "has_released_signature (reset_ctx mode s) = has_released_signature s"
  "comm_out (reset_ctx mode s) = comm_out s"
  by (simp_all add: reset_ctx_def)

lemma pinv_new: "pczt_parser s = pczt_parser_new \<Longrightarrow> pinv E s"
  by (simp add: pinv_def active_def) (simp add: pczt_parser_new_def)

text \<open>A header opens a new session from any state, unless a signature was already released to the
  Exchange application.\<close>

lemma header_turn_pinv:
  "wp (handler_pczt_header E) (\<lambda>u s'. turn_post E s u s' \<and> \<not> outputs_reviewed (pczt_parser s')
       \<and> \<not> (swap_params s \<noteq> None \<and> has_released_signature s))
     (\<lambda>e s'. turn_fail s e s' \<or> s' = s \<and> e = Fail BadState
        \<and> swap_params s \<noteq> None \<and> has_released_signature s) s"
proof (cases "swap_params s \<noteq> None \<and> has_released_signature s")
  case True
  then show ?thesis
    by (simp add: handler_pczt_header_def reset_for_new_transaction_def wp_simps)
next
  case False
  let ?s = "reset_ctx Signature s"
  have h: "wp (on_parser_error (parse_header E data))
      (\<lambda>u s'. turn_post E s u s' \<and> \<not> outputs_reviewed (pczt_parser s')) (turn_fail s) ?s" for data
  proof -
    have "wp (on_parser_error (parse_header E data))
        (\<lambda>u s'. turn_post E ?s u s' \<and> \<not> outputs_reviewed (pczt_parser s')) (turn_fail ?s) ?s"
      by (rule wp_on_parser_error, rule wp_mono [OF parse_header_pinv [OF pinv_new]])
        (auto simp: packet_post_def turn_post_def pinv_unsigned dest: quiet_frame)
    then show ?thesis by (rule wp_mono) (auto simp: turn_post_def turn_fail_def)
  qed
  show ?thesis
    using False unfolding handler_pczt_header_def reset_for_new_transaction_def
    by (auto simp: wp_simps split: option.split intro!: wp_mono [OF h])
qed

section \<open>Turns after the review\<close>

text \<open>Once the outputs are approved no parsing turn changes the transaction: it fails, or it leaves
  everything but the packet reader and the flag that closes the parse.\<close>

definition steady :: "world \<Rightarrow> world \<Rightarrow> bool" where
  "steady s s' \<longleftrightarrow> (\<exists>d n b. s' = s\<lparr> rd_buf := d, rd_pos := n,
     pczt_parser := (pczt_parser s)\<lparr> pczt_finished := b \<rparr> \<rparr>)"

definition spoiled :: "world \<Rightarrow> 'e fault \<Rightarrow> world \<Rightarrow> bool" where
  "spoiled s e s' \<longleftrightarrow> pczt_parser s' = pczt_parser_new \<and> events s' = events s"

lemma steady_refl [simp]: "steady s s"
  unfolding steady_def by (rule exI [of _ "rd_buf s"], rule exI [of _ "rd_pos s"],
    rule exI [of _ "pczt_finished (pczt_parser s)"]) simp

lemma steady_parser: "steady s s' \<Longrightarrow> steady s (s'\<lparr> pczt_parser := (pczt_parser s')\<lparr> pczt_finished := b \<rparr> \<rparr>)"
proof -
  assume "steady s s'"
  then obtain d n b0 where "s' = s\<lparr> rd_buf := d, rd_pos := n,
     pczt_parser := (pczt_parser s)\<lparr> pczt_finished := b0 \<rparr> \<rparr>" unfolding steady_def by blast
  then have "s'\<lparr> pczt_parser := (pczt_parser s')\<lparr> pczt_finished := b \<rparr> \<rparr>
    = s\<lparr> rd_buf := d, rd_pos := n, pczt_parser := (pczt_parser s)\<lparr> pczt_finished := b \<rparr> \<rparr>" by simp
  then show ?thesis unfolding steady_def by blast
qed

lemma steady_reader: "steady s (s\<lparr> rd_buf := d, rd_pos := n \<rparr>)"
  unfolding steady_def by (rule exI [of _ d], rule exI [of _ n],
    rule exI [of _ "pczt_finished (pczt_parser s)"]) simp

lemma steadyD: "steady s s' \<Longrightarrow> events s' = events s"
  by (auto simp: steady_def)

lemma reviewed_packet:
  assumes step: "\<And>s. pinv E s \<Longrightarrow> outputs_reviewed (pczt_parser s) \<Longrightarrow> \<exists>x. step s = (Inl (Fail x), s)"
    and inv: "pinv E s" "outputs_reviewed (pczt_parser s)"
  shows "wp (on_packet data step) (\<lambda>_. steady s) (spoiled s) s"
proof -
  let ?s = "s\<lparr> rd_buf := data, rd_pos := 0 \<rparr>"
  obtain x where x: "step ?s = (Inl (Fail x), ?s)" using step [of ?s] inv by auto
  have "wp (while_sm (length data) packet_left step) (\<lambda>_ s'. s' = ?s) (\<lambda>e s'. just_fails e \<and> s' = ?s) ?s"
  proof (cases data)
    case Nil
    then show ?thesis by (simp add: wp_def packet_left_def remaining_len_def)
  next
    case (Cons b bs)
    then show ?thesis using x by (simp add: wp_def bnd_def packet_left_def remaining_len_def)
  qed
  then show ?thesis
    unfolding on_packet_def reset_on_error_def wp_catch_err wp_bnd reader_new_def wp_modify
    by (rule wp_mono) (auto simp: steady_reader spoiled_def wp_simps just_fails_def)
qed

lemma reviewed_packets:
  assumes "pinv E s" "outputs_reviewed (pczt_parser s)"
  shows "wp (parse_transparent_inputs E data) (\<lambda>_. steady s) (spoiled s) s"
    "wp (parse_transparent_outputs E data) (\<lambda>_. steady s) (spoiled s) s"
    "wp (parse_orchard_actions E data) (\<lambda>_. steady s) (spoiled s) s"
    "wp (parse_ironwood_actions E data) (\<lambda>_. steady s) (spoiled s) s"
  unfolding parse_transparent_inputs_def parse_transparent_outputs_def parse_orchard_actions_def
    parse_ironwood_actions_def
  by (rule reviewed_packet [OF _ assms], erule (1) reviewed_step_refuses)+

lemma wp_finish_steady:
  assumes "steady s0 s"
  shows "wp (finish_pczt_if_requested b) (\<lambda>_. steady s0) (spoiled s0) s"
  using assms steadyD [OF assms]
  by (simp add: finish_pczt_if_requested_def finish_pczt_def reset_on_error_def on_parser_error_def
      map_pczt_parser_error_def wp_simps steady_parser spoiled_def)

lemma reviewed_turn:
  assumes rev: "pinv E s" "outputs_reviewed (pczt_parser s)"
  shows "wp (handler_pczt_transparent_input E first last1) (\<lambda>_. steady s) (spoiled s) s"
    "wp (handler_pczt_transparent_output E first last1) (\<lambda>_. steady s) (spoiled s) s"
    "wp (handler_pczt_orchard_action E first last1 finished) (\<lambda>_. steady s) (spoiled s) s"
    "wp (handler_pczt_ironwood_action E first last1 finished) (\<lambda>_. steady s) (spoiled s) s"
proof -
  have turn: "wp (on_parser_error m) (\<lambda>_. P) (spoiled s) s"
    if "wp m (\<lambda>_. steady s) (spoiled s) s" and "\<And>s'. steady s s' \<Longrightarrow> P s'"
    for m :: "unit papp" and P
    unfolding on_parser_error_def wp_catch_err
    by (rule wp_mono [OF that(1)]) (auto simp: that(2) spoiled_def map_pczt_parser_error_def wp_simps
        split: fault.split)
  show "wp (handler_pczt_transparent_input E first last1) (\<lambda>_. steady s) (spoiled s) s"
    "wp (handler_pczt_transparent_output E first last1) (\<lambda>_. steady s) (spoiled s) s"
    "wp (handler_pczt_orchard_action E first last1 finished) (\<lambda>_. steady s) (spoiled s) s"
    "wp (handler_pczt_ironwood_action E first last1 finished) (\<lambda>_. steady s) (spoiled s) s"
    unfolding handler_pczt_transparent_input_def handler_pczt_transparent_output_def
      handler_pczt_orchard_action_def handler_pczt_ironwood_action_def wp_bnd wp_get_data
    by (auto intro!: turn reviewed_packets [OF rev] wp_finish_steady
        simp: wp_simps steadyD spoiled_def split: option.split)
qed

end
