(* ===== verification/Pczt_Signing.thy ===== *)
theory Pczt_Signing
  imports Pczt_Session
begin

text \<open>
  The turns that sign, \<open>handler_pczt_sign_transparent\<close> and \<open>sign_shielded\<close>: when they succeed, what
  exactly they release and mark; when they fail, that nothing is released and the session is gone.
\<close>

section \<open>What a signature leaves of the invariant\<close>

definition mark_input :: "nat \<Rightarrow> pczt_parser \<Rightarrow> pczt_parser" where
  "mark_input i p = p\<lparr> transparent_inputs :=
     (transparent_inputs p)[i := (transparent_inputs p ! i)\<lparr> in_signed := True \<rparr>] \<rparr>"

definition mark_record :: "nat \<Rightarrow> bundle_view \<Rightarrow> bundle_view" where
  "mark_record i v = v\<lparr>
     bn_records := (bn_records v)[i := (bn_records v ! i)\<lparr> sr_signed := True, sr_alpha := zeros 32 \<rparr>],
     bn_signed := bn_signed v + 1 \<rparr>"

lemma map_update_same: "i < length xs \<Longrightarrow> f y = f (xs ! i) \<Longrightarrow> map f (xs[i := y]) = map f xs"
  by (rule nth_equalityI) (auto simp: nth_list_update)

lemma list_all_update_same:
  "i < length xs \<Longrightarrow> P y = P (xs ! i) \<Longrightarrow> list_all P (xs[i := y]) = list_all P xs"
  by (auto simp: list_all_length nth_list_update)

lemma count_update:
  "i < length xs \<Longrightarrow> P y = P (xs ! i) \<Longrightarrow> length (filter P (xs[i := y])) = length (filter P xs)"
  "i < length xs \<Longrightarrow> P y \<Longrightarrow> \<not> P (xs ! i) \<Longrightarrow> length (filter P (xs[i := y])) = Suc (length (filter P xs))"
  by (induction xs arbitrary: i) (auto split: nat.splits simp: nth_Cons)

lemma mark_input_ok:
  assumes "i < length (transparent_inputs p)"
  shows "inputs_ok E (mark_input i p) h t = inputs_ok E p h t"
    "outputs_ok E raws (mark_input i p) h t = outputs_ok E raws p h t"
    "struct_ok (mark_input i p) = struct_ok p" "shielded_ok (mark_input i p) t = shielded_ok p t"
    "view pl (mark_input i p) = view pl p" "is_finished (mark_input i p) = is_finished p"
    "is_ready_to_sign (mark_input i p) = is_ready_to_sign p"
    "outputs_reviewed (mark_input i p) = outputs_reviewed p" "pz_state (mark_input i p) = pz_state p"
    "pczt_finished (mark_input i p) = pczt_finished p"
    "parsed_all (mark_input i p) t = parsed_all p t" "session_fee (mark_input i p) t = session_fee p t"
    "transparent_inputs (mark_input i p) ! i = (transparent_inputs p ! i)\<lparr> in_signed := True \<rparr>"
  using assms by (simp_all add: mark_input_def input_defs input_total_def output_defs struct_defs
      shielded_ok_def map_update_same list_all_update_same input_ok_def is_finished_def
      is_ready_to_sign_def Let_def is_orchard_actions_finished_def is_ironwood_actions_finished_def
      parsed_all_def session_fee_def cong: map_cong)

definition new_digests :: "tx_info \<Rightarrow> tx_info \<Rightarrow> bool" where
  "new_digests t t' \<longleftrightarrow> (\<exists>h d y. t' = t\<lparr> header_digest := h, signature_digest := d, sighash_type := y \<rparr>)"

lemma new_digests_ok:
  assumes "new_digests t t'"
  shows "inputs_ok E p h t' = inputs_ok E p h t" "outputs_ok E raws p h t' = outputs_ok E raws p h t"
    "shielded_ok p t' = shielded_ok p t" "parsed_all p t' = parsed_all p t"
    "session_fee p t' = session_fee p t" "change_ok t' = change_ok t" "budget_ok t' = budget_ok t"
    "has_version t' = has_version t" "approves ev t' fee = approves ev t fee"
    "change_account t' = change_account t" "outputs t' = outputs t"
proof -
  obtain hd d y where t': "t' = t\<lparr> header_digest := hd, signature_digest := d, sighash_type := y \<rparr>"
    using assms by (auto simp: new_digests_def)
  show "inputs_ok E p h t' = inputs_ok E p h t" by (simp add: t' input_defs)
  show "outputs_ok E raws p h t' = outputs_ok E raws p h t" by (simp add: t' output_defs)
  show "shielded_ok p t' = shielded_ok p t" "parsed_all p t' = parsed_all p t"
    "session_fee p t' = session_fee p t" "change_ok t' = change_ok t" "budget_ok t' = budget_ok t"
    "has_version t' = has_version t" "approves ev t' fee = approves ev t fee"
    "change_account t' = change_account t" "outputs t' = outputs t"
    by (simp_all add: t' shielded_ok_def parsed_all_def session_fee_def tx_defs) (cases ev; simp)
qed

lemma review_events [simp]: "latest_review (events s @ [Signed k i d p]) = latest_review (events s)"
  by simp

lemma pinv_mark_input:
  assumes inv: "pinv E s" and fin: "is_finished (pczt_parser s)" and i: "i < length (transparent_inputs (pczt_parser s))"
    and s': "pczt_parser s' = mark_input i (pczt_parser s)" "new_digests (tx_info s) (tx_info s')"
      "hashers s' = hashers s" "latest_review (events s') = latest_review (events s)"
  shows "pinv E s'"
proof -
  have f: "pczt_finished (pczt_parser s)" "outputs_reviewed (pczt_parser s)"
    using fin by (simp_all add: is_finished_def is_ready_to_sign_def Let_def)
  show ?thesis
    using inv reviewed_active [OF inv f(2)] f
    by (simp add: pinv_def review_ok_def s' mark_input_ok [OF i] new_digests_ok [OF s'(2)])
qed

lemma view_ok_mark:
  assumes "view_ok ph pl v" "i < length (bn_records v)" "\<not> sr_signed (bn_records v ! i)"
    "sr_is_real_spend (bn_records v ! i)" "ph = Closed"
  shows "view_ok ph pl (mark_record i v)"
  using assms by (simp add: view_ok_def records_ok_def mark_record_def count_update list_all_update_same)
   (auto simp: list_all_length nth_list_update; fail)?

lemma reviewed_phase:
  assumes "parsed_all p t" "shielded_ok p t" "i < length (bn_records (view pl p))"
  shows "pool_phase pl (pz_state p) = Closed"
proof -
  have v: "view_ok (pool_phase pl (pz_state p)) pl (view pl p)" using assms(2) by (simp add: shielded_ok_def)
  have "pool_phase pl (pz_state p) \<noteq> NotStarted"
    using v assms(3) by (auto simp: view_ok_def empty_view_def)
  then show ?thesis using assms(1) by (cases pl) (auto simp: parsed_all_def split: if_splits)
qed

definition keyed :: "bytes option \<Rightarrow> bip32_path option \<Rightarrow> pczt_parser \<Rightarrow> pczt_parser" where
  "keyed k kp p = p\<lparr> orchard_spending_key := k, orchard_spending_key_path := kp \<rparr>"

lemma keyed_frame [simp]:
  "view q (keyed k kp p) = view q p" "pz_state (keyed k kp p) = pz_state p"
  "transparent_inputs (keyed k kp p) = transparent_inputs p"
  "inputs_ok E (keyed k kp p) h t = inputs_ok E p h t"
  "outputs_ok E raws (keyed k kp p) h t = outputs_ok E raws p h t"
  "struct_ok (keyed k kp p) = struct_ok p" "shielded_ok (keyed k kp p) t = shielded_ok p t"
  "outputs_reviewed (keyed k kp p) = outputs_reviewed p"
  "pczt_finished (keyed k kp p) = pczt_finished p"
  "parsed_all (keyed k kp p) t = parsed_all p t" "session_fee (keyed k kp p) t = session_fee p t"
proof -
  show vw: "view q (keyed k kp p) = view q p" for q by (cases q; simp add: keyed_def)
qed (simp_all add: keyed_def input_defs output_defs struct_ok_def shielded_ok_def all_pools parsed_all_def
    session_fee_def)

lemma set_view_ok:
  "inputs_ok E (set_view pl v p) h t = inputs_ok E p h t"
  "outputs_ok E raws (set_view pl v p) h t = outputs_ok E raws p h t"
  "struct_ok (set_view pl v p) = struct_ok p" "parsed_all (set_view pl v p) t = parsed_all p t"
  by (simp_all add: input_defs output_defs struct_ok_def parsed_all_def)

lemma set_view_sums:
  assumes "bn_output_sum v = bn_output_sum (view pl p)" "bn_present v = bn_present (view pl p)"
    "bn_balance v = bn_balance (view pl p)"
  shows "orchard_output_value_sum (set_view pl v p) = orchard_output_value_sum p"
    "ironwood_output_value_sum (set_view pl v p) = ironwood_output_value_sum p"
    "has_ironwood_bundle (set_view pl v p) = has_ironwood_bundle p"
    "session_fee (set_view pl v p) t = session_fee p t"
  using assms by (cases pl; simp add: session_fee_def)+

lemma pinv_mark_record:
  assumes inv: "pinv E s" and fin: "is_finished (pczt_parser s)"
    and i: "i < length (bn_records (view pl (pczt_parser s)))"
    and r: "\<not> sr_signed (bn_records (view pl (pczt_parser s)) ! i)"
      "sr_is_real_spend (bn_records (view pl (pczt_parser s)) ! i)"
    and s': "pczt_parser s' = keyed k kp
        (set_view pl ((mark_record i (view pl (pczt_parser s)))\<lparr> bn_sig_digest := x \<rparr>) (pczt_parser s))"
      "new_digests (tx_info s) (tx_info s')"
      "hashers s' = hashers s" "latest_review (events s') = latest_review (events s)"
  shows "pinv E s'"
proof -
  let ?v = "(mark_record i (view pl (pczt_parser s)))\<lparr> bn_sig_digest := x \<rparr>"
  have f: "pczt_finished (pczt_parser s)" "outputs_reviewed (pczt_parser s)"
    using fin by (simp_all add: is_finished_def is_ready_to_sign_def Let_def)
  note act = reviewed_active [OF inv f(2)]
  have ok: "shielded_ok (pczt_parser s) (tx_info s)" "parsed_all (pczt_parser s) (tx_info s)"
    using inv act f by (simp_all add: pinv_def review_ok_def)
  have ph: "pool_phase pl (pz_state (pczt_parser s)) = Closed" by (rule reviewed_phase [OF ok(2,1) i])
  have v: "view_ok (pool_phase q (pz_state (pczt_parser s))) q (view q (pczt_parser s))" for q
    using ok(1) by (simp add: shielded_ok_def)
  have "view_ok Closed pl (mark_record i (view pl (pczt_parser s)))"
    using view_ok_mark [OF v i r ph] ph by simp
  then have v': "view_ok Closed pl ?v" by (simp add: view_ok_def records_ok_def)
  have sums: "bn_output_sum ?v = bn_output_sum (view pl (pczt_parser s))"
    "bn_present ?v = bn_present (view pl (pczt_parser s))" "bn_balance ?v = bn_balance (view pl (pczt_parser s))"
    by (simp_all add: mark_record_def)
  have sh: "shielded_ok (set_view pl ?v (pczt_parser s)) (tx_info s)"
    using ok(1) v v' ph unfolding shielded_ok_def
    by (simp add: all_pools_of [of _ pl] set_view_sums [OF sums])
  show ?thesis
    using inv act f sh
    by (simp add: pinv_def review_ok_def s' new_digests_ok [OF s'(2)] set_view_ok set_view_sums [OF sums])
qed

section \<open>Outcomes of a signing turn\<close>

definition unreleased :: "world \<Rightarrow> world \<Rightarrow> bool" where
  "unreleased s s' \<longleftrightarrow> events s' = events s \<and> comm_out s' = comm_out s
     \<and> swap_params s' = swap_params s \<and> has_released_signature s' = has_released_signature s
     \<and> tx_signing_state s' = tx_signing_state s"

definition sign_fail :: "world \<Rightarrow> app_sw fault \<Rightarrow> world \<Rightarrow> bool" where
  "sign_fail s e s' \<longleftrightarrow> just_fails e \<and> pczt_parser s' = pczt_parser_new \<and> unreleased s s'"

lemma unreleased_simps [simp]:
  "unreleased s s" "unreleased s (s'\<lparr> pczt_parser := p \<rparr>) = unreleased s s'"
  "unreleased s (s'\<lparr> tx_info := t \<rparr>) = unreleased s s'"
  "unreleased s (s'\<lparr> ticks := k \<rparr>) = unreleased s s'"
  "unreleased s (s'\<lparr> orchard_derivations := n \<rparr>) = unreleased s s'"
  "unreleased s (s'\<lparr> is_finished_flag := f \<rparr>) = unreleased s s'"
  by (simp_all add: unreleased_def)

lemma unreleased_digests: "unreleased s s1 \<Longrightarrow> only_digests_changed s1 s' \<Longrightarrow> unreleased s s'"
  by (auto simp: only_digests_changed_def)

lemma sign_fail_Fail [simp]:
  "sign_fail s (Fail x) s' \<longleftrightarrow> pczt_parser s' = pczt_parser_new \<and> unreleased s s'"
  by (simp add: sign_fail_def)

text \<open>Inside a wrapper that resets the parser, an error only has to release nothing.\<close>

lemma wp_guarded:
  "wp m Q (\<lambda>e s'. just_fails e \<and> unreleased s0 s') s \<Longrightarrow> wp (on_parser_error m) Q (sign_fail s0) s"
  "wp k Q1 (\<lambda>e s'. just_fails e \<and> unreleased s0 s') s \<Longrightarrow> wp (on_sw_error k) Q1 (sign_fail s0) s"
  unfolding on_parser_error_def on_sw_error_def wp_catch_err
  by (auto elim!: wp_mono simp: just_fails_def map_pczt_parser_error_def wp_simps)

lemma wp_require:
  assumes "is_finished (pczt_parser s) \<Longrightarrow> Q () s"
  shows "wp require_no_data_and_finished Q (sign_fail s) s"
  using assms unfolding require_no_data_and_finished_def
  by (auto simp: wp_simps split: option.split)

definition same_account :: "tx_info \<Rightarrow> bip32_path \<Rightarrow> bool" where
  "same_account t p \<longleftrightarrow> (\<forall>acc. change_account t = Some acc \<longrightarrow> derivation_account p = Some acc)"

lemma wp_check_change_account:
  assumes "unreleased s0 s" "same_account (tx_info s) p \<Longrightarrow> Q () s"
  shows "wp (check_change_account p) Q (sign_fail s0) s"
  unfolding check_change_account_def wp_bnd wp_gets
  using assms by (intro wp_guarded)
    (auto simp: wp_simps check_change_returns_to_signing_account_def same_account_def err_def split: option.splits)

text \<open>After a signature the parser goes on from \<open>p\<close>, unless nothing is left to sign.\<close>

definition all_signed :: "pczt_parser \<Rightarrow> tx_signing_state \<Rightarrow> bool" where
  "all_signed p t \<longleftrightarrow> (total_input_count t = 0 \<or> already_signed_input_count t \<ge> total_input_count t)
     \<and> are_orchard_signatures_done p \<and> are_ironwood_signatures_done p"

definition session_end :: "pczt_parser \<Rightarrow> world \<Rightarrow> bool" where
  "session_end p s \<longleftrightarrow>
     (if all_signed p (tx_signing_state s) then pczt_parser s = pczt_parser_new \<and> is_finished_flag s
      else pczt_parser s = p)"

lemma session_endD: "session_end p s \<Longrightarrow> pczt_parser s = p \<or> pczt_parser s = pczt_parser_new \<and> is_finished_flag s"
  by (auto simp: session_end_def split: if_splits)

definition input_sighash :: "env \<Rightarrow> world \<Rightarrow> nat \<Rightarrow> bytes" where
  "input_sighash E s i = (let inp = transparent_inputs (pczt_parser s) ! i in
     zip244_sighash E (tx_info s) (SomeTransparentInputs
       (zip244_txin E (in_prevout inp) (in_amount inp) (in_script_pubkey inp) (in_sequence inp))))"

definition shielded_sighash :: "env \<Rightarrow> world \<Rightarrow> bytes" where
  "shielded_sighash E s = zip244_sighash E (tx_info s)
     (shielded_mode E (transparent_input_count (pczt_parser s)) (transparent_output_count (pczt_parser s)))"

text \<open>What a released transparent signature means: the input was there and not yet signed, the
  digest is that of ZIP-244 for this input, and the response is the signature of the input's own
  key with the type of the digest.\<close>

definition signed_transparent :: "env \<Rightarrow> nat \<Rightarrow> world \<Rightarrow> world \<Rightarrow> bool" where
  "signed_transparent E i s s' \<longleftrightarrow>
     (let p = pczt_parser s; inp = transparent_inputs p ! i; d = input_sighash E s i in
      is_finished p \<and> i < length (transparent_inputs p) \<and> \<not> in_signed inp
      \<and> same_account (tx_info s) (in_path inp)
      \<and> (\<exists>sig info. secp256k1_deterministic_sign E (as_slice (in_path inp)) d = Some (sig, info)
           \<and> comm_out s' = comm_out s @ set_parity sig info @ [SIGHASH_ALL])
      \<and> events s' = events s @ [Signed KeyTransparent i d (in_path inp)]
      \<and> has_released_signature s' \<and> swap_params s' = swap_params s
      \<and> new_digests (tx_info s) (tx_info s') \<and> hashers s' = hashers s
      \<and> tx_signing_state s' = (tx_signing_state s)\<lparr> already_signed_input_count :=
            usize_saturating_add (already_signed_input_count (tx_signing_state s)) 1 \<rparr>
      \<and> session_end (mark_input i p) s')"

lemma wp_finish_if_done:
  assumes "\<And>s'. session_end (pczt_parser s) s' \<Longrightarrow> events s' = events s \<Longrightarrow> comm_out s' = comm_out s
      \<Longrightarrow> has_released_signature s' = has_released_signature s \<Longrightarrow> swap_params s' = swap_params s
      \<Longrightarrow> tx_info s' = tx_info s \<Longrightarrow> hashers s' = hashers s
      \<Longrightarrow> tx_signing_state s' = tx_signing_state s \<Longrightarrow> Q () s'"
  shows "wp finish_if_signatures_done Q R s"
  unfolding finish_if_signatures_done_def
  by (simp add: wp_simps)
    (auto intro!: assms simp: session_end_def all_signed_def are_pczt_signatures_done_def
      are_pczt_transparent_signatures_done_def)

lemma sign_transparent_wp:
  assumes inv: "pinv E s"
  shows "wp (handler_pczt_sign_transparent E i) (\<lambda>_. signed_transparent E i s) (sign_fail s) s"
  unfolding handler_pczt_sign_transparent_def wp_bnd
proof (intro wp_require)
  assume fin: "is_finished (pczt_parser s)"
  have hv: "has_version (tx_info s)"
    using inv fin reviewed_active [OF inv]
    by (auto simp: pinv_def is_finished_def is_ready_to_sign_def Let_def)
  show "wp (on_parser_error (mark_transparent_input_signed i))
     (\<lambda>_. wp (on_parser_error (use_transparent_signature_digest E i))
       (\<lambda>sighash. wp (on_parser_error (transparent_input_signing_path i))
         (\<lambda>p. wp (check_change_account p)
           (\<lambda>_. wp (get_ti signature_digest)
             (\<lambda>digest. wp (on_sw_error (append_signature E digest p sighash))
               (\<lambda>_. wp (log_event (Signed KeyTransparent i digest p))
                 (\<lambda>_. wp note_signature_released
                   (\<lambda>_. wp (mod_ss (\<lambda>t. t\<lparr> already_signed_input_count :=
                          usize_saturating_add (already_signed_input_count t) 1 \<rparr>))
                     (\<lambda>_. wp finish_if_signatures_done (\<lambda>_. signed_transparent E i s) (sign_fail s))
                     (sign_fail s)) (sign_fail s)) (sign_fail s)) (sign_fail s)) (sign_fail s))
           (sign_fail s)) (sign_fail s)) (sign_fail s)) (sign_fail s) s"
  proof (cases "i < length (transparent_inputs (pczt_parser s)) \<and> \<not> in_signed (transparent_inputs (pczt_parser s) ! i)")
    case False
    then show ?thesis
      by (intro wp_guarded) (auto simp: mark_transparent_input_signed_def wp_simps vec_get_def)
  next
    case True
    let ?inp = "transparent_inputs (pczt_parser s) ! i"
    let ?s1 = "s\<lparr> pczt_parser := mark_input i (pczt_parser s) \<rparr>"
    let ?d = "zip244_txin E (in_prevout ?inp) (in_amount ?inp) (in_script_pubkey ?inp) (in_sequence ?inp)"
    let ?s2 = "with_sighash E (SomeTransparentInputs ?d) ?s1"
    have vg: "vec_get (transparent_inputs (mark_input i (pczt_parser s))) i = Some (?inp\<lparr> in_signed := True \<rparr>)"
      using True by (simp add: vec_get_def mark_input_ok) (simp add: mark_input_def)
    note mk = mark_input_ok [OF conjunct1 [OF True]]
    have rdy: "is_ready_to_sign (pczt_parser s)" using fin by (simp add: is_finished_def)
    have dg: "signature_digest (tx_info ?s2) = input_sighash E s i"
      by (simp add: with_sighash_def input_sighash_def Let_def)
    have ws: "pczt_parser ?s2 = mark_input i (pczt_parser s)" "unreleased s ?s2"
      "new_digests (tx_info s) (tx_info ?s2)" "hashers ?s2 = hashers s"
      "tx_signing_state ?s2 = tx_signing_state s" "events ?s2 = events s" "comm_out ?s2 = comm_out s" "swap_params ?s2 = swap_params s"
      by (auto simp: with_sighash_def new_digests_def)
    have sm: "same_account (tx_info ?s2) q = same_account (tx_info s) q" for q
      by (simp add: same_account_def new_digests_ok [OF ws(3)])
    have u1: "unreleased s ?s1" by simp
    show ?thesis
      apply (rule wp_guarded)
      apply (simp add: mark_transparent_input_signed_def wp_simps vec_get_def True flip: mark_input_def)
      apply (rule wp_guarded)
      apply (simp add: use_transparent_signature_digest_def compute_transparent_signature_digest_def
          wp_simps vg mk fin vc_simps)
      apply (intro conjI allI impI, erule txin_digest_fault)
      apply (drule txin_digest_Inr, hypsubst)
      apply (rule wp_compute_transparent_input_signature_digest)
        apply (simp add: hv)
       prefer 2
       apply (simp add: unreleased_digests [OF u1])
      apply (rule wp_guarded)
      apply (simp add: transparent_input_signing_path_def wp_simps ws mk rdy vg)
      apply (rule wp_check_change_account, rule ws)
      apply (simp add: wp_simps dg sm)
      apply (rule wp_guarded)
      apply (simp add: append_signature_def wp_simps vc_simps ws)
      apply (intro allI impI wp_finish_if_done)
      using True fin ws(3) by (simp add: signed_transparent_def Let_def ws)
  qed
qed

section \<open>Shielded signatures\<close>

text \<open>The digest a pool keeps from its first signature is the digest of the session.\<close>

definition cached_ok :: "env \<Rightarrow> world \<Rightarrow> bool" where
  "cached_ok E s \<longleftrightarrow> (\<forall>pl d. bn_sig_digest (view pl (pczt_parser s)) = Some d \<longrightarrow> d = shielded_sighash E s)"

text \<open>The spending key used for a path: the cached one of that path, or the device's derivation.\<close>

definition spending_key_of :: "env \<Rightarrow> pczt_parser \<Rightarrow> bip32_path \<Rightarrow> bytes \<Rightarrow> bool" where
  "spending_key_of E p path1 sk \<longleftrightarrow>
     orchard_spending_key_path p = Some path1 \<and> orchard_spending_key p = Some sk
     \<or> (\<exists>t. zip32_orchard_derive E t (as_slice path1) = Some sk)"

text \<open>A RedPallas signature: of the digest, under the key's spend authorization randomized by alpha.\<close>

definition spend_auth_signature :: "env \<Rightarrow> bytes \<Rightarrow> bytes \<Rightarrow> bytes \<Rightarrow> bytes \<Rightarrow> bool" where
  "spend_auth_signature E sk d alpha_bytes auth_sig \<longleftrightarrow>
     (\<exists>ask alpha rask rnd. derive_orchard_ask_from_sk E sk = Inr ask
        \<and> pallas_scalar_from_repr E alpha_bytes = Inr alpha \<and> randomize_ledger E ask alpha = Inr rask
        \<and> sign_ledger E rask rnd d = Inr auth_sig)"

definition signed_shielded :: "env \<Rightarrow> pool \<Rightarrow> nat \<Rightarrow> world \<Rightarrow> world \<Rightarrow> bool" where
  "signed_shielded E pl i s s' \<longleftrightarrow>
     (let p = pczt_parser s; r = bn_records (view pl p) ! i; d = shielded_sighash E s in
      is_finished p \<and> i < length (bn_records (view pl p)) \<and> \<not> sr_signed r \<and> sr_is_real_spend r
      \<and> same_account (tx_info s) (sr_path r)
      \<and> (\<exists>sk auth_sig. spending_key_of E p (sr_path r) sk
           \<and> spend_auth_signature E sk d (sr_alpha r) auth_sig \<and> comm_out s' = comm_out s @ auth_sig)
      \<and> events s' = events s @ [Signed (key_pool_of pl) i d (sr_path r)]
      \<and> has_released_signature s' \<and> swap_params s' = swap_params s
      \<and> new_digests (tx_info s) (tx_info s') \<and> hashers s' = hashers s
      \<and> tx_signing_state s' = tx_signing_state s
      \<and> (\<exists>k kp. session_end (keyed k kp
            (set_view pl ((mark_record i (view pl p))\<lparr> bn_sig_digest := Some d \<rparr>) p)) s'))"

lemma set_view_same [simp]: "set_view pl (view pl p) p = p"
  by (cases pl) simp_all

definition ensured :: "env \<Rightarrow> pool \<Rightarrow> world \<Rightarrow> world \<Rightarrow> bool" where
  "ensured E pl s s1 \<longleftrightarrow>
     pczt_parser s1 = set_view pl ((view pl (pczt_parser s))\<lparr> bn_sig_digest := Some (shielded_sighash E s) \<rparr>) (pczt_parser s)
     \<and> signature_digest (tx_info s1) = shielded_sighash E s \<and> new_digests (tx_info s) (tx_info s1)
     \<and> hashers s1 = hashers s \<and> unreleased s s1"

lemma wp_ensure_signature_digest:
  assumes hv: "has_version (tx_info s)" and c: "cached_ok E s"
    and Q: "\<And>s1. i < length (bn_records (view pl (pczt_parser s))) \<Longrightarrow> \<not> sr_signed (bn_records (view pl (pczt_parser s)) ! i)
      \<Longrightarrow> sr_is_real_spend (bn_records (view pl (pczt_parser s)) ! i) \<Longrightarrow> ensured E pl s s1 \<Longrightarrow> Q () s1"
  shows "wp (ensure_signature_digest E pl i) Q (\<lambda>e s'. just_fails e \<and> unreleased s s') s"
proof (cases "i < length (bn_records (view pl (pczt_parser s)))
    \<and> \<not> sr_signed (bn_records (view pl (pczt_parser s)) ! i) \<and> sr_is_real_spend (bn_records (view pl (pczt_parser s)) ! i)")
  case False
  then show ?thesis by (auto simp: ensure_signature_digest_def wp_simps vec_get_def)
next
  case True
  show ?thesis
  proof (cases "bn_sig_digest (view pl (pczt_parser s))")
    case (Some d)
    then have d: "d = shielded_sighash E s" using c by (auto simp: cached_ok_def)
    have v: "(view pl (pczt_parser s))\<lparr> bn_sig_digest := Some d \<rparr> = view pl (pczt_parser s)"
      using Some by (metis bundle_view.surjective bundle_view.update_convs(6) bundle_view.select_convs(6))
    have "new_digests (tx_info s) ((tx_info s)\<lparr> signature_digest := d \<rparr>)"
      unfolding new_digests_def by (rule exI [of _ "header_digest (tx_info s)"], rule exI [of _ d],
        rule exI [of _ "sighash_type (tx_info s)"]) simp
    then have "ensured E pl s (s\<lparr> tx_info := (tx_info s)\<lparr> signature_digest := d \<rparr> \<rparr>)"
      using v by (simp add: ensured_def flip: d)
    then show ?thesis using True Some Q by (simp add: ensure_signature_digest_def wp_simps vec_get_def)
  next
    case None
    show ?thesis
      unfolding ensure_signature_digest_def
      using True None
      apply (simp add: wp_simps vec_get_def)
      apply (intro impI wp_compute_shielded_signature_digest [OF hv])
       apply (rule Q; (simp; fail)?)
       apply (auto simp: ensured_def with_sighash_def shielded_sighash_def new_digests_def intro: unreleased_digests [OF unreleased_simps(1)])
      done
  qed
qed

lemma wp_get_spending_key:
  assumes u: "unreleased s0 s" and Q: "\<And>sk n t. spending_key_of E (pczt_parser s) path1 sk \<Longrightarrow>
      Q sk (s\<lparr> orchard_derivations := n, ticks := t, pczt_parser := keyed (Some sk) (Some path1) (pczt_parser s) \<rparr>)"
  shows "wp (get_orchard_spending_key E path1) Q (\<lambda>e s'. just_fails e \<and> unreleased s0 s') s"
proof (cases "orchard_spending_key_path (pczt_parser s)")
  case None
  then show ?thesis
    unfolding get_orchard_spending_key_def derive_orchard_sk_bytes_def consume_orchard_derivation_budget_def
    using u Q by (auto simp: wp_simps vc_simps spending_key_of_def keyed_def)
next
  case (Some path2)
  have id: "s\<lparr> orchard_derivations := orchard_derivations s, ticks := ticks s, pczt_parser := pczt_parser s \<rparr> = s"
    by (rule world.equality) simp_all
  have k: "keyed (Some sk) (Some path1) (pczt_parser s) = pczt_parser s"
    if "orchard_spending_key_path (pczt_parser s) = Some path1" "orchard_spending_key (pczt_parser s) = Some sk" for sk
    unfolding keyed_def by (rule pczt_parser.equality) (use that in simp_all)
  have "Q sk s" if "path2 = path1" "orchard_spending_key (pczt_parser s) = Some sk" for sk
    using Q [where sk = sk and n = "orchard_derivations s" and t = "ticks s"] that Some k
    by (simp add: spending_key_of_def id)
  then show ?thesis using Some
    unfolding get_orchard_spending_key_def using u by (auto simp: wp_simps vc_simps)
qed

lemma wp_spend_auth:
  assumes E: "key_laws E" and Q: "\<And>auth_sig t. spend_auth_signature E sk d a auth_sig \<Longrightarrow> Q auth_sig (s\<lparr> ticks := t \<rparr>)"
    and u: "unreleased s0 s"
  shows "wp (orchard_spend_auth_signature_with_sk E sk d a) Q (\<lambda>e s'. just_fails e \<and> unreleased s0 s') s"
proof -
  have cl: "clean (derive_orchard_ask_from_sk E sk)" "clean (pallas_scalar_from_repr E a)"
    "clean (randomize_ledger E x y)" "clean (sign_ledger E x y z)" for x y z
    using derive_fvk_clean [OF E] E by (simp_all add: key_laws_def)
  show ?thesis
    unfolding orchard_spend_auth_signature_with_sk_def orchard_spend_auth_signature_with_ask_def fill_bytes_def
    apply (simp add: wp_simps vc_simps cong: wp_cong)
    by (intro conjI allI impI; (simp add: u; fail)?; (erule cleanD [OF cl(1)])?;
        (rule cleanD [OF clean_map_err [THEN iffD2]], simp_all add: cl; fail)?)
      (rule Q, auto simp: spend_auth_signature_def)
qed

lemma ready_set_view:
  assumes "bn_present v = bn_present (view pl p)"
  shows "is_ready_to_sign (set_view pl v p) = is_ready_to_sign p"
    "is_ready_to_sign (keyed k kp q) = is_ready_to_sign q"
  using assms by (cases pl; simp add: is_ready_to_sign_def Let_def is_orchard_actions_finished_def
      is_ironwood_actions_finished_def keyed_def)+

lemma spending_key_of_set_view [simp]: "spending_key_of E (set_view pl v p) path1 sk = spending_key_of E p path1 sk"
  by (simp add: spending_key_of_def)

lemma set_view_keyed:
  "set_view pl v (keyed k kp p) = keyed k kp (set_view pl v p)"
  "set_view pl v (set_view pl v1 p) = set_view pl v p"
  "keyed k kp (keyed k1 kp1 p) = keyed k kp p"
  by (cases pl; simp add: keyed_def)+

lemma mark_record_code:
  assumes "bn_signed v < USIZE_MAX"
  shows "v\<lparr> bn_sig_digest := x, bn_records := (bn_records v)[i := (bn_records v ! i)\<lparr> sr_signed := True, sr_alpha := zeros 32 \<rparr>],
       bn_signed := usize_saturating_add (bn_signed v) (Suc 0) \<rparr> = (mark_record i v)\<lparr> bn_sig_digest := x \<rparr>"
  using usize_saturating_add_1 [OF assms] by (simp add: mark_record_def)

lemma wp_mark_action_signed:
  assumes v: "view pl (pczt_parser s) = (view pl p)\<lparr> bn_sig_digest := x \<rparr>"
    and i: "i < length (bn_records (view pl p))" "\<not> sr_signed (bn_records (view pl p) ! i)"
    and n: "bn_signed (view pl p) < USIZE_MAX"
    and Q: "\<And>c q p'. p' = set_view pl ((mark_record i (view pl p))\<lparr> bn_sig_digest := x \<rparr>) (pczt_parser s) \<Longrightarrow>
        q = keyed None None p' \<or> q = p' \<Longrightarrow> Q c (s\<lparr> pczt_parser := q \<rparr>)"
  shows "wp (mark_action_signed pl i) Q R s"
  unfolding mark_action_signed_def clear_orchard_spending_key_def
  using v i
  apply (simp add: wp_simps vec_get_def mark_record_code [OF n])
  apply (intro conjI impI)
   apply (rule Q [OF refl], simp add: keyed_def)
  apply (rule Q [OF refl], simp)
  done

lemma sign_shielded_wp:
  assumes E: "key_laws E" and inv: "pinv E s" and c: "cached_ok E s"
  shows "wp (sign_shielded E pl i) (\<lambda>_. signed_shielded E pl i s) (sign_fail s) s"
  unfolding sign_shielded_def wp_bnd
proof (intro wp_require wp_guarded)
  let ?v = "view pl (pczt_parser s)"
  assume fin: "is_finished (pczt_parser s)"
  have rev: "outputs_reviewed (pczt_parser s)" using fin by (simp add: is_finished_def is_ready_to_sign_def Let_def)
  note act = reviewed_active [OF inv rev]
  have hv: "has_version (tx_info s)" using inv act by (simp add: pinv_def)
  have "view_ok (pool_phase pl (pz_state (pczt_parser s))) pl ?v"
    using inv act by (simp add: pinv_def shielded_ok_def)
  then have "records_ok ?v" "bn_parsed ?v \<le> bn_count ?v" "bn_count ?v \<le> max_actions pl"
    by (auto simp: view_ok_def empty_view_def split: phase.splits)
  then have "bn_signed ?v \<le> max_actions pl"
    using length_filter_le [of sr_signed "bn_records ?v"] by (simp add: records_ok_def)
  then have n: "bn_signed ?v < USIZE_MAX"
    by (cases pl) (simp_all add: USIZE_MAX_def MAX_PCZT_ORCHARD_ACTIONS_NUMBER_def MAX_PCZT_IRONWOOD_ACTIONS_NUMBER_def)
  have rdy: "is_ready_to_sign (pczt_parser s)" using fin by (simp add: is_finished_def)
  show "wp (ensure_signature_digest E pl i)
     (\<lambda>_. wp (on_parser_error (action_signing_data pl i))
       (\<lambda>a. wp (case a of (p, alpha) \<Rightarrow> bnd (check_change_account p)
            (\<lambda>_. bnd (on_sw_error (get_orchard_spending_key E p))
              (\<lambda>sk. bnd (get_ti signature_digest)
                (\<lambda>digest. bnd (on_sw_error (orchard_spend_auth_signature_with_sk E sk digest alpha))
                  (\<lambda>auth_sig. bnd (on_parser_error (mark_action_signed pl i))
                    (\<lambda>signed_count. bnd (comm_append auth_sig)
                      (\<lambda>_. bnd (log_event (Signed (key_pool_of pl) i digest p))
                        (\<lambda>_. bnd note_signature_released (\<lambda>_. finish_if_signatures_done)))))))))
          (\<lambda>_. signed_shielded E pl i s) (sign_fail s)) (sign_fail s))
     (\<lambda>e s'. just_fails e \<and> unreleased s s') s"
  proof (rule wp_ensure_signature_digest [OF hv c])
    fix s1
    assume r: "i < length (bn_records ?v)" "\<not> sr_signed (bn_records ?v ! i)" "sr_is_real_spend (bn_records ?v ! i)"
      and e: "ensured E pl s s1"
    note e' = e [unfolded ensured_def]
    note u1 = e' [THEN conjunct2, THEN conjunct2, THEN conjunct2, THEN conjunct2, unfolded unreleased_def]
    have sa: "same_account (tx_info s1) q = same_account (tx_info s) q" for q
      using new_digests_ok(10) [of "tx_info s" "tx_info s1"] e' by (simp add: same_account_def)
    show "wp (on_parser_error (action_signing_data pl i))
       (\<lambda>a. wp (case a of (p, alpha) \<Rightarrow> bnd (check_change_account p)
            (\<lambda>_. bnd (on_sw_error (get_orchard_spending_key E p))
              (\<lambda>sk. bnd (get_ti signature_digest)
                (\<lambda>digest. bnd (on_sw_error (orchard_spend_auth_signature_with_sk E sk digest alpha))
                  (\<lambda>auth_sig. bnd (on_parser_error (mark_action_signed pl i))
                    (\<lambda>signed_count. bnd (comm_append auth_sig)
                      (\<lambda>_. bnd (log_event (Signed (key_pool_of pl) i digest p))
                        (\<lambda>_. bnd note_signature_released (\<lambda>_. finish_if_signatures_done)))))))))
          (\<lambda>_. signed_shielded E pl i s) (sign_fail s)) (sign_fail s) s1"
      apply (rule wp_guarded)
      apply (simp add: action_signing_data_def wp_simps vec_get_def e' r rdy ready_set_view(1))
      apply (rule wp_check_change_account, simp add: e')
      apply (rule wp_guarded, rule wp_get_spending_key, simp add: e')
      apply (rule wp_guarded, rule wp_spend_auth [OF E])
       prefer 2 apply (simp add: e')
      apply (rule wp_guarded, rule wp_mark_action_signed [where p = "pczt_parser s", OF _ r(1,2) n])
       apply (simp add: e')
      apply (rule wp_finish_if_done)
      apply (erule disjE; simp add: signed_shielded_def Let_def e' u1 sa set_view_keyed fin r)
       apply blast+
      done
  qed
qed

section \<open>The invariant across signatures\<close>

definition sinv :: "env \<Rightarrow> world \<Rightarrow> bool" where
  "sinv E s \<longleftrightarrow> swap_ok s \<and> pinv E s \<and> cached_ok E s"

lemma input_sighash_same: "new_digests t t' \<Longrightarrow> zip244_sighash E t' mode = zip244_sighash E t mode"
  by (auto simp: new_digests_def sighash_ignores_digests)

lemma cached_new: "pczt_parser s = pczt_parser_new \<Longrightarrow> cached_ok E s"
  by (simp add: cached_ok_def all_pools pczt_parser_new_def)

lemma sinv_new: "pczt_parser s = pczt_parser_new \<Longrightarrow> swap_ok s \<Longrightarrow> sinv E s"
  by (simp add: sinv_def pinv_new cached_new)

lemma signed_transparent_sinv:
  assumes inv: "sinv E s" and sg: "signed_transparent E i s s'"
  shows "sinv E s'"
proof -
  note sg' = sg [unfolded signed_transparent_def Let_def]
  have sw: "swap_ok s'" using inv sg' by (simp add: sinv_def swap_ok_def)
  show ?thesis
  proof (cases "pczt_parser s' = mark_input i (pczt_parser s)")
    case True
    have c: "cached_ok E s'"
      using inv sg' unfolding sinv_def cached_ok_def shielded_sighash_def
      by (auto simp: True mark_input_ok input_sighash_same) (simp add: mark_input_def)
    have "pinv E s'" by (rule pinv_mark_input [OF _ _ _ True]) (use inv sg' in \<open>simp_all add: sinv_def\<close>)
    then show ?thesis using sw c by (simp add: sinv_def)
  next
    case False
    then have "pczt_parser s' = pczt_parser_new" using sg' by (auto dest!: session_endD)
    then show ?thesis using sw by (rule sinv_new)
  qed
qed

lemma signed_shielded_sinv:
  assumes inv: "sinv E s" and sg: "signed_shielded E pl i s s'"
  shows "sinv E s'"
proof -
  note sg' = sg [unfolded signed_shielded_def Let_def]
  let ?v = "(mark_record i (view pl (pczt_parser s)))\<lparr> bn_sig_digest := Some (shielded_sighash E s) \<rparr>"
  have sw: "swap_ok s'" using inv sg' by (simp add: sinv_def swap_ok_def)
  obtain k kp where se: "session_end (keyed k kp (set_view pl ?v (pczt_parser s))) s'" using sg' by blast
  show ?thesis
  proof (cases "pczt_parser s' = keyed k kp (set_view pl ?v (pczt_parser s))")
    case True
    have p: "pinv E s'" by (rule pinv_mark_record [OF _ _ _ _ _ True]) (use inv sg' in \<open>simp_all add: sinv_def\<close>)
    have "shielded_sighash E s' = shielded_sighash E s"
      using sg' by (simp add: shielded_sighash_def True input_sighash_same keyed_def)
    then have "cached_ok E s'"
      using inv unfolding sinv_def cached_ok_def all_pools_of [of _ pl] by (simp add: True)
    then show ?thesis using sw p by (simp add: sinv_def)
  next
    case False
    then have "pczt_parser s' = pczt_parser_new" using se by (auto dest!: session_endD)
    then show ?thesis using sw by (rule sinv_new)
  qed
qed

end
