(* ===== verification/Pczt_History.thy ===== *)
theory Pczt_History
  imports Pczt_Signing Pczt_Footprint
begin

text \<open>
  The log and the signing counters over a parsing turn.  A turn logs at most one review, after which
  it only succeeds with the outputs approved; without a review it approves nothing.  The counters
  the signing handlers consult agree with the parser as long as nothing is signed.
\<close>

section \<open>Reviews per packet\<close>

text \<open>The counters of the handlers agree with the parser, before anything is signed.\<close>

definition counting :: "world \<Rightarrow> bool" where
  "counting s \<longleftrightarrow> active (pz_state (pczt_parser s)) \<longrightarrow>
     already_signed_input_count (tx_signing_state s) = 0
     \<and> (pz_state (pczt_parser s) \<noteq> WaitTransparentInputsCount \<longrightarrow>
          total_input_count (tx_signing_state s) = transparent_input_count (pczt_parser s))"

text \<open>The log and the counters since a packet arrived.\<close>

definition hist :: "world \<Rightarrow> world \<Rightarrow> bool" where
  "hist s0 s \<longleftrightarrow> (settled s0 s \<or> logged s0 s \<and> outputs_reviewed (pczt_parser s) \<and> active (pz_state (pczt_parser s0)))
     \<and> (counting s0 \<longrightarrow> counting s)
     \<and> (active (pz_state (pczt_parser s)) \<longrightarrow> active (pz_state (pczt_parser s0)))"

definition hist_fail :: "world \<Rightarrow> world \<Rightarrow> bool" where
  "hist_fail s0 s \<longleftrightarrow> events s = events s0 \<or> logged s0 s \<and> active (pz_state (pczt_parser s0))"

lemma hist_refl [simp]: "hist s s" "hist_fail s s"
  by (simp_all add: hist_def hist_fail_def)

lemma hist_weak: "hist s0 s \<Longrightarrow> hist_fail s0 s"
  by (auto simp: hist_def hist_fail_def settled_def)

lemma hist_upd [simp]:
  "hist_fail s0 (s\<lparr> pczt_parser := p \<rparr>) = hist_fail s0 s" "hist_fail s0 (s\<lparr> is_finished_flag := b \<rparr>) = hist_fail s0 s"
  "hist s0 (s\<lparr> pczt_parser := (pczt_parser s)\<lparr> pczt_finished := b \<rparr> \<rparr>) = hist s0 s"
  "hist s (s\<lparr> rd_buf := d, rd_pos := n \<rparr>)"
  by (simp_all add: hist_def hist_fail_def logged_def counting_def settled_def)

lemma hist_stepI:
  assumes step: "\<And>s. env_laws E \<Longrightarrow> swap_ok s \<Longrightarrow> pinv E s \<Longrightarrow> packet_left s \<Longrightarrow> wp step (step_post E s) (step_fail s) s"
    and rev: "reviews step"
    and cnt: "\<And>s u s'. step s = (Inr u, s') \<Longrightarrow> counting s \<Longrightarrow> counting s'"
    and idle: "\<And>s. pz_state (pczt_parser s) = WaitHeaderAndGlobal \<Longrightarrow> \<exists>x. step s = (Inl (Fail x), s)"
    and refuse: "\<And>s. pinv E s \<Longrightarrow> outputs_reviewed (pczt_parser s) \<Longrightarrow> \<exists>x. step s = (Inl (Fail x), s)"
    and inv: "loop_inv E s0 s \<and> hist s0 s" and left: "packet_left s"
  shows "wp step (\<lambda>_ s'. (loop_inv E s0 s' \<and> hist s0 s') \<and> remaining_len s' < remaining_len s)
    (\<lambda>e s'. case e of Fail x \<Rightarrow> hist_fail s0 s' | Panic \<Rightarrow> False | Diverge \<Rightarrow> False) s"
proof (cases "outputs_reviewed (pczt_parser s)")
  case True
  have "pinv E s" using inv by (simp add: loop_inv_def)
  from refuse [OF this True] show ?thesis using inv by (auto simp: wp_def hist_weak)
next
  case False
  then have e: "settled s0 s" using inv by (auto simp: hist_def)
  then have e': "events s = events s0" by (simp add: settled_def)
  have p: "wp step (\<lambda>_ s'. loop_inv E s0 s' \<and> remaining_len s' < remaining_len s)
    (\<lambda>e s'. case e of Fail x \<Rightarrow> parse_frame s0 s' | Panic \<Rightarrow> False | Diverge \<Rightarrow> False) s"
    by (rule packet_stepI [OF step _ left]) (use inv in simp_all)
  have r: "wp step (\<lambda>_ s'. hist s0 s') (\<lambda>_ s'. hist_fail s0 s') s"
  proof (cases "active (pz_state (pczt_parser s))")
    case False
    then obtain x where "step s = (Inl (Fail x), s)" using idle by (auto simp: active_def)
    then show ?thesis using inv by (simp add: wp_def hist_weak)
  next
    case True
    have c: "wp step (\<lambda>_ s'. counting s \<longrightarrow> counting s') (\<lambda>_ s'. True) s"
      by (rule wpI) (auto dest: cnt)
    show ?thesis
      using wp_conj [THEN iffD2, OF conjI, OF c rev [unfolded reviews_def, rule_format, of s]]
      by (rule wp_mono)
        (use inv True in \<open>auto simp: hist_def hist_fail_def e' logged_def intro: settled_trans [OF e]\<close>)
  qed
  show ?thesis
    using wp_conj [THEN iffD2, OF conjI, OF p r] by (rule wp_mono) (auto split: fault.splits)
qed

lemma idle_step_refuses:
  assumes w: "pz_state (pczt_parser s) = WaitHeaderAndGlobal"
  shows "\<exists>x. transparent_inputs_step E s = (Inl (Fail x), s)" "\<exists>x. transparent_outputs_step E s = (Inl (Fail x), s)"
    "\<exists>x. orchard_step E s = (Inl (Fail x), s)" "\<exists>x. ironwood_step E s = (Inl (Fail x), s)"
  unfolding transparent_inputs_step_def transparent_outputs_step_def orchard_step_def ironwood_step_def
    bnd_def get_p_def gets_def using w by (simp_all add: throw_def)

lemma step_inputs_count:
  assumes w: "pz_state (pczt_parser s) = WaitTransparentInputsCount"
  shows "fst (transparent_outputs_step E s) \<noteq> Inr u"
    "fst (orchard_step E s) \<noteq> Inr u" "fst (ironwood_step E s) \<noteq> Inr u"
  unfolding transparent_outputs_step_def orchard_step_def ironwood_step_def
    bnd_def get_p_def gets_def using w by (simp_all add: throw_def)

lemma counting_kept:
  assumes "ledger s' = ledger s" "counting s" "pz_state (pczt_parser s) \<noteq> WaitHeaderAndGlobal"
    "pz_state (pczt_parser s) \<noteq> WaitTransparentInputsCount"
  shows "counting s'"
  using assms by (simp add: counting_def ledger_def active_def)

lemma counting_inputs_start:
  assumes c: "counting s" and st: "pz_state (pczt_parser s) = WaitTransparentInputsCount"
  shows "wp (parse_transparent_inputs_start E) (\<lambda>_ s'. counting s') (\<lambda>_ _. True) s"
  unfolding parse_transparent_inputs_start_def finalize_transparent_inputs_def
    reset_orchard_bundle_state_def reset_bundle_state_def reset_current_action_def
  using c st by (simp add: wp_simps vc_simps counting_def active_def cong: wp_cong split del: if_split)

lemma counting_steps:
  "transparent_inputs_step E s = (Inr u, s') \<Longrightarrow> counting s \<Longrightarrow> counting s'"
  "transparent_outputs_step E s = (Inr u, s') \<Longrightarrow> counting s \<Longrightarrow> counting s'"
  "orchard_step E s = (Inr u, s') \<Longrightarrow> counting s \<Longrightarrow> counting s'"
  "ironwood_step E s = (Inr u, s') \<Longrightarrow> counting s \<Longrightarrow> counting s'"
proof -
  show "counting s'" if r: "transparent_inputs_step E s = (Inr u, s')" and c: "counting s"
  proof (cases "pz_state (pczt_parser s) = WaitTransparentInputsCount")
    case True
    have "wp (transparent_inputs_step E) (\<lambda>_ s'. counting s') (\<lambda>_ _. True) s"
      unfolding transparent_inputs_step_def wp_bnd get_p_def wp_gets True
      using counting_inputs_start [OF c True] by simp
    with r show ?thesis by (simp add: wp_def)
  next
    case False
    have "pz_state (pczt_parser s) \<noteq> WaitHeaderAndGlobal" using idle_step_refuses(1) [of s E] r by auto
    moreover have "ledger s' = ledger s" using ledger_inputs_step [OF False, of E] r by simp
    ultimately show ?thesis using c False by (intro counting_kept [of s' s])
  qed
  show "counting s'" if r: "transparent_outputs_step E s = (Inr u, s')" and c: "counting s"
    by (rule counting_kept [OF keepsD [OF ledger_steps(1) r] c];
      use idle_step_refuses(2) [of s E] step_inputs_count(1) [of s E u] r in auto)
  show "counting s'" if r: "orchard_step E s = (Inr u, s')" and c: "counting s"
    by (rule counting_kept [OF keepsD [OF ledger_steps(2) r] c];
      use idle_step_refuses(3) [of s E] step_inputs_count(2) [of s E u] r in auto)
  show "counting s'" if r: "ironwood_step E s = (Inr u, s')" and c: "counting s"
    by (rule counting_kept [OF keepsD [OF ledger_steps(3) r] c];
      use idle_step_refuses(4) [of s E] step_inputs_count(3) [of s E u] r in auto)
qed

interpretation inputs_log: packet_loop packet_left remaining_len "transparent_inputs_step E"
  "\<lambda>s. loop_inv E s0 s \<and> hist s0 s" "\<lambda>x s'. hist_fail s0 s'" for E s0
  by unfold_locales (rule packet_left_def, rule hist_stepI [OF inputs_step_pinv reviews_steps(1) counting_steps(1) idle_step_refuses(1)],
    simp_all add: reviewed_step_refuses)

interpretation outputs_log: packet_loop packet_left remaining_len "transparent_outputs_step E"
  "\<lambda>s. loop_inv E s0 s \<and> hist s0 s" "\<lambda>x s'. hist_fail s0 s'" for E s0
  by unfold_locales (rule packet_left_def, rule hist_stepI [OF outputs_step_pinv reviews_steps(2) counting_steps(2) idle_step_refuses(2)],
    simp_all add: reviewed_step_refuses)

interpretation orchard_log: packet_loop packet_left remaining_len "orchard_step E"
  "\<lambda>s. loop_inv E s0 s \<and> hist s0 s" "\<lambda>x s'. hist_fail s0 s'" for E s0
  by unfold_locales (rule packet_left_def, rule hist_stepI [OF orchard_step_pinv reviews_steps(3) counting_steps(3) idle_step_refuses(3)],
    simp_all add: reviewed_step_refuses)

interpretation ironwood_log: packet_loop packet_left remaining_len "ironwood_step E"
  "\<lambda>s. loop_inv E s0 s \<and> hist s0 s" "\<lambda>x s'. hist_fail s0 s'" for E s0
  by unfold_locales (rule packet_left_def, rule hist_stepI [OF ironwood_step_pinv reviews_steps(4) counting_steps(4) idle_step_refuses(4)],
    simp_all add: reviewed_step_refuses)

lemma on_packet_hist:
  assumes loop: "\<And>s1. loop_inv E s s1 \<and> hist s s1 \<Longrightarrow> remaining_len s1 \<le> length data \<Longrightarrow>
      wp (while_sm (length data) packet_left step) (\<lambda>_ s'. (loop_inv E s s' \<and> hist s s') \<and> \<not> packet_left s')
        (\<lambda>e s'. case e of Fail x \<Rightarrow> hist_fail s s' | Panic \<Rightarrow> False | Diverge \<Rightarrow> False) s1"
    and E: "env_laws E" "swap_ok s" "pinv E s"
  shows "wp (on_packet data step) (\<lambda>_. hist s) (\<lambda>_. hist_fail s) s"
proof -
  let ?s1 = "s\<lparr> rd_buf := data, rd_pos := 0 \<rparr>"
  have "loop_inv E s ?s1 \<and> hist s ?s1" using E by (simp add: loop_inv_def)
  note w = loop [OF this]
  show ?thesis
    unfolding on_packet_def reset_on_error_def wp_catch_err wp_bnd reader_new_def wp_modify
    by (rule wp_mono [OF w]) (auto simp: remaining_len_def wp_simps split: fault.splits)
qed

lemma packets_hist:
  assumes E: "env_laws E" "swap_ok s" "pinv E s"
  shows "wp (parse_transparent_inputs E data) (\<lambda>_. hist s) (\<lambda>_. hist_fail s) s"
    "wp (parse_transparent_outputs E data) (\<lambda>_. hist s) (\<lambda>_. hist_fail s) s"
    "wp (parse_orchard_actions E data) (\<lambda>_. hist s) (\<lambda>_. hist_fail s) s"
    "wp (parse_ironwood_actions E data) (\<lambda>_. hist s) (\<lambda>_. hist_fail s) s"
  unfolding parse_transparent_inputs_def parse_transparent_outputs_def parse_orchard_actions_def
    parse_ironwood_actions_def
  by (rule on_packet_hist [OF _ E], erule inputs_log.loop_wp outputs_log.loop_wp orchard_log.loop_wp
      ironwood_log.loop_wp, assumption)+

lemma turn_hist:
  assumes E: "env_laws E" "swap_ok s" "pinv E s"
  shows "wp (handler_pczt_transparent_input E first last1) (\<lambda>_. hist s) (\<lambda>_. hist_fail s) s"
    "wp (handler_pczt_transparent_output E first last1) (\<lambda>_. hist s) (\<lambda>_. hist_fail s) s"
    "wp (handler_pczt_orchard_action E first last1 finished) (\<lambda>_. hist s) (\<lambda>_. hist_fail s) s"
    "wp (handler_pczt_ironwood_action E first last1 finished) (\<lambda>_. hist s) (\<lambda>_. hist_fail s) s"
proof -
  have turn: "wp (on_parser_error m) (\<lambda>_. P) (\<lambda>_. hist_fail s) s"
    if "wp m (\<lambda>_. hist s) (\<lambda>_. hist_fail s) s" and "\<And>s'. hist s s' \<Longrightarrow> P s'"
    for m :: "unit papp" and P
    unfolding on_parser_error_def wp_catch_err
    by (rule wp_mono [OF that(1)]) (auto simp: that(2) map_pczt_parser_error_def wp_simps split: fault.splits)
  have fin: "wp (finish_pczt_if_requested b) (\<lambda>_. hist s) (\<lambda>_. hist_fail s) s'" if "hist s s'" for b s'
    using that hist_weak [OF that]
    by (simp add: finish_pczt_if_requested_def finish_pczt_def reset_on_error_def on_parser_error_def
        map_pczt_parser_error_def wp_simps)
  show "wp (handler_pczt_transparent_input E first last1) (\<lambda>_. hist s) (\<lambda>_. hist_fail s) s"
    "wp (handler_pczt_transparent_output E first last1) (\<lambda>_. hist s) (\<lambda>_. hist_fail s) s"
    "wp (handler_pczt_orchard_action E first last1 finished) (\<lambda>_. hist s) (\<lambda>_. hist_fail s) s"
    "wp (handler_pczt_ironwood_action E first last1 finished) (\<lambda>_. hist s) (\<lambda>_. hist_fail s) s"
    unfolding handler_pczt_transparent_input_def handler_pczt_transparent_output_def
      handler_pczt_orchard_action_def handler_pczt_ironwood_action_def wp_bnd wp_get_data
    by (cases "comm_data s"; simp;
      (rule turn, rule packets_hist [OF E], simp add: wp_simps fin hist_weak)?)+
qed

section \<open>The header\<close>

context footprint begin

lemma keeps_header: "keeps f (bnd (get_p pz_state) (\<lambda>st. bnd (ensure (st = WaitHeaderAndGlobal) (Sw BadState)) (\<lambda>_.
    seqs [reader_new data, mod_ti t1, init_v5_tx_hashers E, mod_ti t2,
      parse_pczt_header E, parse_global E, ensure_group_end msg, set_state st2])))"
  unfolding init_v5_tx_hashers_def parse_pczt_header_def parse_global_def
  by (intro keeps_more keeps_if; simp)

end

lemma header_hist:
  "wp (handler_pczt_header E) (\<lambda>_ s'. events s' = events s \<and> counting s' \<and> \<not> outputs_reviewed (pczt_parser s'))
     (\<lambda>_ s'. events s' = events s) s"
proof -
  let ?P = "\<lambda>s'. ledger s' = ledger (reset_ctx Signature s) \<and> trail s' = trail (reset_ctx Signature s)"
  let ?Q = "\<lambda>s'. events s' = events s"
  have b: "wp (bnd (get_p pz_state) (\<lambda>st. bnd (ensure (st = WaitHeaderAndGlobal) (Sw BadState)) (\<lambda>_.
      seqs [reader_new data, mod_ti t1, init_v5_tx_hashers E, mod_ti t2,
        parse_pczt_header E, parse_global E, ensure_group_end msg, set_state st2])))
      (\<lambda>_. ?P) (\<lambda>_. ?P) (reset_ctx Signature s)" for data t1 t2 msg st2
    by (intro wpI conjI; erule keepsD [OF ledger.keeps_header] keepsD [OF log.keeps_header])
  have "wp (on_parser_error (parse_header E data)) (\<lambda>_. ?P) (\<lambda>_. ?Q) (reset_ctx Signature s)" for data
    unfolding on_parser_error_def parse_header_def reset_on_error_def wp_catch_err
    by (rule wp_mono [OF b]) (auto simp: wp_simps map_pczt_parser_error_def trail_def split: fault.splits)
  then have "wp (on_parser_error (parse_header E data)) (\<lambda>_ s'. ?Q s' \<and> counting s' \<and> \<not> outputs_reviewed (pczt_parser s'))
      (\<lambda>_. ?Q) (reset_ctx Signature s)" for data
    by (rule wp_mono) (auto simp: counting_def ledger_def trail_def reset_ctx_def tx_signing_state_default_def
        pczt_parser_new_def)
  then show ?thesis
    unfolding handler_pczt_header_def reset_for_new_transaction_def
    by (auto simp: wp_simps split: option.split)
qed

end
