(* ===== verification/Pczt_Wallet.thy ===== *)
theory Pczt_Wallet
  imports Pczt_History
begin

text \<open>
  The PCZT commands as steps of an abstract wallet.  The invariants of the parsing and of the signing
  turns are put together here, and every turn of the main loop on a PCZT command is shown to be a step
  of a wallet that signs nothing but what its latest review granted, and nothing twice.  Sessions, over
  all commands, are in \<open>Device_Session\<close>.
\<close>

section \<open>The signatures of the log\<close>

text \<open>The PCZT keys that have signed since the last review.\<close>

fun pczt_signature :: "event \<Rightarrow> bool" where
  "pczt_signature (Signed k i d p) \<longleftrightarrow> k \<noteq> KeyLegacy"
| "pczt_signature _ \<longleftrightarrow> False"

fun sig_id :: "event \<Rightarrow> key_pool \<times> nat" where
  "sig_id (Signed k i d p) = (k, i)"
| "sig_id _ = (KeyTransparent, 0)"

definition signed_ids :: "event list \<Rightarrow> (key_pool \<times> nat) list" where
  "signed_ids evs = map sig_id (filter pczt_signature (takeWhile (\<lambda>ev. \<not> is_review ev) (rev evs)))"

lemma signed_ids_append [simp]:
  "signed_ids (evs @ [ev]) = (if is_review ev then []
     else if pczt_signature ev then sig_id ev # signed_ids evs else signed_ids evs)"
  by (simp add: signed_ids_def)

text \<open>What the parser has marked as signed.\<close>

fun marked :: "pczt_parser \<Rightarrow> key_pool \<times> nat \<Rightarrow> bool" where
  "marked p (KeyTransparent, i) \<longleftrightarrow> i < length (transparent_inputs p) \<and> in_signed (transparent_inputs p ! i)"
| "marked p (KeyOrchard, i) \<longleftrightarrow> i < length (bn_records (view OrchardPool p)) \<and> sr_signed (bn_records (view OrchardPool p) ! i)"
| "marked p (KeyIronwood, i) \<longleftrightarrow> i < length (bn_records (view IronwoodPool p)) \<and> sr_signed (bn_records (view IronwoodPool p) ! i)"
| "marked p (KeyLegacy, i) \<longleftrightarrow> False"

definition log_ok :: "world \<Rightarrow> bool" where
  "log_ok s \<longleftrightarrow> distinct (signed_ids (events s))
     \<and> (outputs_reviewed (pczt_parser s) \<longrightarrow> (\<forall>x \<in> set (signed_ids (events s)). marked (pczt_parser s) x))"

section \<open>The counters\<close>

definition counted :: "world \<Rightarrow> bool" where
  "counted s \<longleftrightarrow> active (pz_state (pczt_parser s)) \<longrightarrow>
     already_signed_input_count (tx_signing_state s) = length (filter in_signed (transparent_inputs (pczt_parser s)))
     \<and> (pz_state (pczt_parser s) \<noteq> WaitTransparentInputsCount \<longrightarrow>
          total_input_count (tx_signing_state s) = transparent_input_count (pczt_parser s))"

lemma counted_unsigned: "unsigned (pczt_parser s) \<Longrightarrow> counted s = counting s"
  by (simp add: counted_def counting_def unsigned_def list_all_iff)

text \<open>Once a signature has been released to the Exchange application no other transaction is open.\<close>

definition released_ok :: "world \<Rightarrow> bool" where
  "released_ok s \<longleftrightarrow> swap_params s \<noteq> None \<and> has_released_signature s
     \<and> active (pz_state (pczt_parser s)) \<longrightarrow> outputs_reviewed (pczt_parser s)"

definition session_inv :: "env \<Rightarrow> world \<Rightarrow> bool" where
  "session_inv E s \<longleftrightarrow> sinv E s \<and> counted s \<and> released_ok s \<and> log_ok s"

lemma session_inv_new:
  assumes "pczt_parser s = pczt_parser_new" "swap_ok s" "distinct (signed_ids (events s))"
  shows "session_inv E s"
proof -
  have a: "\<not> active (pz_state (pczt_parser s))" "\<not> outputs_reviewed (pczt_parser s)"
    by (simp_all add: assms(1) pczt_parser_new_def active_def)
  show ?thesis
    unfolding session_inv_def counted_def released_ok_def log_ok_def
    using a assms(3) sinv_new [OF assms(1,2)] by blast
qed

section \<open>The abstract wallet\<close>

datatype wallet =
    Idle
  | Parsing
  | Approved (granting: event) (used: "(key_pool \<times> nat) list")

fun granted :: "event \<Rightarrow> bool" where
  "granted (Reviewed outs fee transfer lock expiry ok) = ok"
| "granted (SwapChecked outs fee) = True"
| "granted (Signed k i d p) = False"

text \<open>A turn of the wallet and what it logs: it may drop everything, open a transaction, go on
  parsing, and show a transaction; only a granted review leads to signing, and each key of the
  transaction signs at most once, the last one closing it.\<close>

inductive wallet_step :: "wallet \<Rightarrow> event list \<Rightarrow> wallet \<Rightarrow> bool" where
  dropped: "wallet_step w [] Idle"
| begun: "wallet_step w [] Parsing"
| refused: "is_review ev \<Longrightarrow> wallet_step Parsing [ev] Idle"
| approved: "granted ev \<Longrightarrow> wallet_step Parsing [ev] (Approved ev [])"
| held: "wallet_step (Approved ev ids) [] (Approved ev ids)"
| signed: "k \<noteq> KeyLegacy \<Longrightarrow> (k, i) \<notin> set ids \<Longrightarrow> wallet_step (Approved ev ids) [Signed k i d p] (Approved ev ((k, i) # ids))"
| closed: "k \<noteq> KeyLegacy \<Longrightarrow> (k, i) \<notin> set ids \<Longrightarrow> wallet_step (Approved ev ids) [Signed k i d p] Idle"

inductive_cases wallet_step_from: "wallet_step w evs w'"

definition wallet_at :: "pczt_parser \<Rightarrow> event list \<Rightarrow> wallet" where
  "wallet_at p evs =
     (if \<not> active (pz_state p) then Idle
      else if \<not> outputs_reviewed p then Parsing
      else case latest_review evs of Some ev \<Rightarrow> Approved ev (signed_ids evs) | None \<Rightarrow> Parsing)"

definition wallet_of :: "world \<Rightarrow> wallet" where
  "wallet_of s = wallet_at (pczt_parser s) (events s)"

lemmas wallet_of_defs = wallet_of_def wallet_at_def

lemma wallet_of_new [simp]: "pczt_parser s = pczt_parser_new \<Longrightarrow> wallet_of s = Idle"
  by (simp add: wallet_of_defs pczt_parser_new_def active_def)

text \<open>The turns that correspond to a step of the wallet.\<close>

definition wallet_turn :: "world \<Rightarrow> world \<Rightarrow> bool" where
  "wallet_turn s s' \<longleftrightarrow> swap_params s' = swap_params s
     \<and> (has_released_signature s \<longrightarrow> has_released_signature s')
     \<and> (\<exists>evs. events s' = events s @ evs \<and> wallet_step (wallet_of s) evs (wallet_of s'))"

lemma approves_granted: "approves ev t f \<Longrightarrow> granted ev"
  by (cases ev) simp_all

lemma reviewed_wallet:
  assumes "pinv E s" "outputs_reviewed (pczt_parser s)"
  obtains ev where "latest_review (events s) = Some ev" "granted ev"
    "wallet_of s = Approved ev (signed_ids (events s))"
  using assms reviewed_active [OF assms]
  by (auto simp: pinv_def review_ok_def wallet_of_defs intro: approves_granted)

section \<open>Turns that parse\<close>

lemma steady_turn:
  assumes inv: "session_inv E s" and r: "outputs_reviewed (pczt_parser s)" and st: "steady s s'" and p: "pinv E s'"
  shows "session_inv E s' \<and> wallet_turn s s'"
proof -
  obtain d n b where s': "s' = s\<lparr> rd_buf := d, rd_pos := n, pczt_parser := (pczt_parser s)\<lparr> pczt_finished := b \<rparr> \<rparr>"
    using st unfolding steady_def by blast
  have m: "marked (pczt_parser s') x = marked (pczt_parser s) x" for x
    by (cases x; cases "fst x") (simp_all add: s')
  have "wallet_of s' = wallet_of s" by (simp add: s' wallet_of_defs split: option.split)
  moreover obtain ev where "wallet_of s = Approved ev (signed_ids (events s))"
    using inv r by (auto simp: session_inv_def sinv_def elim: reviewed_wallet)
  ultimately have "wallet_turn s s'" unfolding wallet_turn_def
    by (intro conjI exI [of _ "[]"]) (simp_all add: s' held)
  moreover have "session_inv E s'"
    using inv p by (simp add: session_inv_def sinv_def counted_def released_ok_def log_ok_def m)
      (simp add: s' swap_ok_def cached_ok_def shielded_sighash_def)
  ultimately show ?thesis by simp
qed

text \<open>A refused command leaves no trace but the review it may have shown.\<close>

definition refused_turn :: "world \<Rightarrow> app_sw fault \<Rightarrow> world \<Rightarrow> bool" where
  "refused_turn s e s' \<longleftrightarrow> just_fails e \<and> swap_params s' = swap_params s
     \<and> has_released_signature s' = has_released_signature s \<and> comm_out s' = comm_out s
     \<and> (events s' = events s \<or> wallet_of s = Parsing \<and> (\<exists>ev. is_review ev \<and> events s' = events s @ [ev]))"

lemma parsed_turn:
  assumes inv: "session_inv E s" and r: "\<not> outputs_reviewed (pczt_parser s)"
    and t: "turn_post E s u s'" and h: "hist s s'"
  shows "session_inv E s' \<and> wallet_turn s s'"
proof -
  have i: "sinv E s" "counted s" "released_ok s" "log_ok s" "pinv E s" using inv by (simp_all add: session_inv_def sinv_def)
  have nf: "\<not> pczt_finished (pczt_parser s)"
    using i(5) r by (cases "active (pz_state (pczt_parser s))") (simp_all add: pinv_def review_ok_def)
  have u: "unsigned (pczt_parser s')" "unsigned (pczt_parser s)" "pinv E s'" "quiet s s'"
    using t nf i(5) by (simp_all add: turn_post_def pinv_unsigned)
  have c: "cached_ok E s'" using u(1) by (simp add: cached_ok_def unsigned_def)
  have sw: "swap_ok s'" using i(1) u(4) by (simp add: sinv_def swap_ok_def quiet_def)
  have ct: "counted s'" using i(2) h u by (simp add: counted_unsigned hist_def)
  have turn: "released_ok s' \<and> log_ok s' \<and> wallet_turn s s'"
  proof (cases "logged s s' \<and> outputs_reviewed (pczt_parser s') \<and> active (pz_state (pczt_parser s))")
    case True
    then obtain ev where ev: "is_review ev" "events s' = events s @ [ev]" by (auto simp: logged_def)
    have w: "wallet_of s = Parsing" using True r by (simp add: wallet_of_defs)
    obtain ev' where "latest_review (events s') = Some ev'" "granted ev'" "wallet_of s' = Approved ev' (signed_ids (events s'))"
      using True u(3) by (auto elim: reviewed_wallet)
    then show ?thesis
      using ev True u(4) by (auto simp: w wallet_turn_def released_ok_def log_ok_def approved quiet_def)
  next
    case False
    then have "settled s s'" using h by (auto simp: hist_def)
    then have e: "events s' = events s" "\<not> outputs_reviewed (pczt_parser s')" using r by (auto simp: settled_def)
    then have "wallet_step (wallet_of s) [] (wallet_of s')"
      by (simp add: wallet_of_defs dropped begun)
    moreover have "active (pz_state (pczt_parser s')) \<Longrightarrow> active (pz_state (pczt_parser s))"
      using h by (simp add: hist_def)
    ultimately show ?thesis
      using e i u(4) r by (auto simp: wallet_turn_def released_ok_def log_ok_def quiet_def)
  qed
  then show ?thesis using u c sw ct by (simp add: session_inv_def sinv_def)
qed

lemma parse_turnI:
  assumes inv: "session_inv E s"
    and P: "wp m (turn_post E s) (turn_fail s) s" and H: "wp m (\<lambda>_. hist s) (\<lambda>_. hist_fail s) s"
    and S: "outputs_reviewed (pczt_parser s) \<Longrightarrow> wp m (\<lambda>_. steady s) (spoiled s) s"
  shows "wp m (\<lambda>_ s'. session_inv E s' \<and> wallet_turn s s') (refused_turn s) s"
proof (cases "outputs_reviewed (pczt_parser s)")
  case True
  show ?thesis
    using wp_conj [THEN iffD2, OF conjI, OF P S [OF True]]
    by (rule wp_mono)
      (use steady_turn [OF inv True] in \<open>auto simp: turn_post_def turn_fail_def spoiled_def refused_turn_def quiet_def\<close>)
next
  case False
  show ?thesis
    using wp_conj [THEN iffD2, OF conjI, OF P H]
  proof (rule wp_mono)
    fix e s' assume "turn_fail s e s' \<and> hist_fail s s'"
    then show "refused_turn s e s'"
      using False by (auto simp: turn_fail_def hist_fail_def refused_turn_def quiet_def logged_def wallet_of_defs)
  qed (use parsed_turn [OF inv False] in blast)
qed

lemma parse_turns:
  assumes E: "env_laws E" and inv: "session_inv E s"
  shows "wp (handler_pczt_transparent_input E first last1) (\<lambda>_ s'. session_inv E s' \<and> wallet_turn s s') (refused_turn s) s"
    "wp (handler_pczt_transparent_output E first last1) (\<lambda>_ s'. session_inv E s' \<and> wallet_turn s s') (refused_turn s) s"
    "wp (handler_pczt_orchard_action E first last1 finished) (\<lambda>_ s'. session_inv E s' \<and> wallet_turn s s') (refused_turn s) s"
    "wp (handler_pczt_ironwood_action E first last1 finished) (\<lambda>_ s'. session_inv E s' \<and> wallet_turn s s') (refused_turn s) s"
proof -
  have i: "swap_ok s" "pinv E s" using inv by (simp_all add: session_inv_def sinv_def)
  show "wp (handler_pczt_transparent_input E first last1) (\<lambda>_ s'. session_inv E s' \<and> wallet_turn s s') (refused_turn s) s"
    "wp (handler_pczt_transparent_output E first last1) (\<lambda>_ s'. session_inv E s' \<and> wallet_turn s s') (refused_turn s) s"
    "wp (handler_pczt_orchard_action E first last1 finished) (\<lambda>_ s'. session_inv E s' \<and> wallet_turn s s') (refused_turn s) s"
    "wp (handler_pczt_ironwood_action E first last1 finished) (\<lambda>_ s'. session_inv E s' \<and> wallet_turn s s') (refused_turn s) s"
    by (rule parse_turnI [OF inv], rule parse_handlers_pinv [OF E i], rule turn_hist [OF E i],
      erule reviewed_turn [OF i(2)])+
qed

lemma header_turn:
  assumes inv: "session_inv E s"
  shows "wp (handler_pczt_header E) (\<lambda>_ s'. session_inv E s' \<and> wallet_turn s s') (refused_turn s) s"
  using wp_conj [THEN iffD2, OF conjI, OF header_turn_pinv [of E s] header_hist [of E s]]
proof (rule wp_mono)
  fix u s'
  assume a: "((turn_post E s u s' \<and> \<not> outputs_reviewed (pczt_parser s')
      \<and> \<not> (swap_params s \<noteq> None \<and> has_released_signature s)))
      \<and> events s' = events s \<and> counting s' \<and> \<not> outputs_reviewed (pczt_parser s')"
  have q: "quiet s s'" "pinv E s'" using a by (simp_all add: turn_post_def)
  have "\<not> pczt_finished (pczt_parser s')"
    using q(2) a by (cases "active (pz_state (pczt_parser s'))") (simp_all add: pinv_def review_ok_def)
  then have u: "unsigned (pczt_parser s')" using q(2) by (rule pinv_unsigned [rotated])
  have "wallet_step (wallet_of s) [] (wallet_of s')" using a by (simp add: wallet_of_defs dropped begun)
  then show "session_inv E s' \<and> wallet_turn s s'"
    using a q u inv by (auto simp: session_inv_def sinv_def swap_ok_def quiet_def cached_ok_def unsigned_def
      released_ok_def log_ok_def wallet_turn_def counted_unsigned [OF u])
qed (use inv in \<open>auto simp: refused_turn_def turn_fail_def quiet_def just_fails_def\<close>)

section \<open>Turns that sign\<close>

lemma sign_turnI:
  assumes inv: "session_inv E s" and si: "sinv E s'" and fin: "is_finished (pczt_parser s)"
    and e: "events s' = events s @ [Signed k i d path1]" "swap_params s' = swap_params s" "has_released_signature s'"
    and m: "\<not> marked (pczt_parser s) (k, i)" and k: "k \<noteq> KeyLegacy"
    and c: "pczt_parser s' \<noteq> pczt_parser_new \<Longrightarrow> counted s' \<and> outputs_reviewed (pczt_parser s')
      \<and> active (pz_state (pczt_parser s'))
      \<and> marked (pczt_parser s') (k, i) \<and> (\<forall>x. marked (pczt_parser s) x \<longrightarrow> marked (pczt_parser s') x)"
  shows "session_inv E s' \<and> wallet_turn s s'"
proof -
  have r: "outputs_reviewed (pczt_parser s)" using fin by (simp add: is_finished_def is_ready_to_sign_def Let_def)
  have "pinv E s" and l: "log_ok s" using inv by (simp_all add: session_inv_def sinv_def)
  then obtain ev where ev: "latest_review (events s) = Some ev" "granted ev"
      "wallet_of s = Approved ev (signed_ids (events s))"
    using r by (auto elim: reviewed_wallet)
  have n: "(k, i) \<notin> set (signed_ids (events s))" using l r m by (auto simp: log_ok_def)
  have d: "distinct (signed_ids (events s'))" using l n k by (simp add: e log_ok_def)
  show ?thesis
  proof (cases "pczt_parser s' = pczt_parser_new")
    case True
    have "swap_ok s'" using si by (simp add: sinv_def)
    then have "session_inv E s'" using True d by (intro session_inv_new)
    then show ?thesis
      using True by (auto simp: wallet_turn_def e ev intro!: closed n k)
  next
    case False
    note c = c [OF False]
    have "wallet_of s' = Approved ev ((k, i) # signed_ids (events s))"
      using c k by (simp add: wallet_of_defs e ev)
    then show ?thesis
      using c si d l r k by (auto simp: wallet_turn_def e ev session_inv_def released_ok_def log_ok_def intro!: signed n)
  qed
qed

lemma key_pool_of_pczt [simp]: "key_pool_of pl \<noteq> KeyLegacy"
  by (cases pl) simp_all

lemma finished_active:
  assumes "sinv E s" "is_finished (pczt_parser s)"
  shows "active (pz_state (pczt_parser s))" "outputs_reviewed (pczt_parser s)"
    "pz_state (pczt_parser s) \<noteq> WaitTransparentInputsCount"
proof -
  show r: "outputs_reviewed (pczt_parser s)"
    using assms(2) by (simp add: is_finished_def is_ready_to_sign_def Let_def)
  have i: "pinv E s" using assms(1) by (simp add: sinv_def)
  show "active (pz_state (pczt_parser s))" using i r by (rule reviewed_active)
  then show "pz_state (pczt_parser s) \<noteq> WaitTransparentInputsCount"
    using i r by (auto simp: pinv_def review_ok_def parsed_all_def split: if_splits)
qed

lemma inputs_bound:
  assumes "pinv E s" "active (pz_state (pczt_parser s))"
  shows "length (transparent_inputs (pczt_parser s)) \<le> MAX_PCZT_TRANSPARENT_INPUTS_NUMBER"
  using assms by (auto simp: pinv_def inputs_ok_def input_counts_ok_def split: if_splits)

lemma sign_transparent_turn:
  assumes inv: "session_inv E s"
  shows "wp (handler_pczt_sign_transparent E i) (\<lambda>_ s'. session_inv E s' \<and> wallet_turn s s') (refused_turn s) s"
proof (rule wp_mono [OF sign_transparent_wp])
  have si: "sinv E s" using inv by (simp add: session_inv_def)
  then show pi: "pinv E s" by (simp add: sinv_def)
  fix u s' assume sg: "signed_transparent E i s s'"
  note sg' = sg [unfolded signed_transparent_def Let_def]
  let ?p = "pczt_parser s"
  have fin: "is_finished ?p" and i: "i < length (transparent_inputs ?p)" "\<not> in_signed (transparent_inputs ?p ! i)"
    using sg' by simp_all
  note fa = finished_active [OF si fin]
  have "length (filter in_signed (transparent_inputs ?p)) \<le> MAX_PCZT_TRANSPARENT_INPUTS_NUMBER"
    using inputs_bound [OF pi fa(1)] by (meson le_trans length_filter_le)
  then have n: "usize_saturating_add (length (filter in_signed (transparent_inputs ?p))) 1
      = Suc (length (filter in_signed (transparent_inputs ?p)))"
    by (simp add: usize_saturating_add_def USIZE_MAX_def MAX_PCZT_TRANSPARENT_INPUTS_NUMBER_def)
  show "session_inv E s' \<and> wallet_turn s s'"
  proof (rule sign_turnI [OF inv signed_transparent_sinv [OF si sg] fin])
    show "events s' = events s @ [Signed KeyTransparent i (input_sighash E s i) (in_path (transparent_inputs ?p ! i))]"
      "swap_params s' = swap_params s" "has_released_signature s'" using sg' by simp_all
    assume "pczt_parser s' \<noteq> pczt_parser_new"
    then have q: "pczt_parser s' = mark_input i ?p" using sg' by (auto dest!: session_endD)
    have c: "counted s'"
      using inv fa i n sg' by (simp add: counted_def session_inv_def q mark_input_ok)
        (simp add: mark_input_def count_update(2))
    have "marked (pczt_parser s') (KeyTransparent, i)" using i by (simp add: q mark_input_def)
    moreover have "marked ?p x \<Longrightarrow> marked (pczt_parser s') x" for x
      by (cases x; cases "fst x") (auto simp: q mark_input_ok i(1) mark_input_def nth_list_update)
    ultimately show "counted s' \<and> outputs_reviewed (pczt_parser s') \<and> active (pz_state (pczt_parser s'))
      \<and> marked (pczt_parser s') (KeyTransparent, i) \<and> (\<forall>x. marked ?p x \<longrightarrow> marked (pczt_parser s') x)"
      using c fa by (simp add: q mark_input_ok i(1))
  qed (use i in simp_all)
qed (auto simp: sign_fail_def refused_turn_def unreleased_def)

lemma sign_shielded_turn:
  assumes E: "key_laws E" and inv: "session_inv E s"
  shows "wp (sign_shielded E pl i) (\<lambda>_ s'. session_inv E s' \<and> wallet_turn s s') (refused_turn s) s"
proof (rule wp_mono [OF sign_shielded_wp [OF E]])
  have si: "sinv E s" using inv by (simp add: session_inv_def)
  then show pi: "pinv E s" "cached_ok E s" by (simp_all add: sinv_def)
  fix u s' assume sg: "signed_shielded E pl i s s'"
  note sg' = sg [unfolded signed_shielded_def Let_def]
  let ?p = "pczt_parser s"
  let ?v = "(mark_record i (view pl ?p))\<lparr> bn_sig_digest := Some (shielded_sighash E s) \<rparr>"
  have fin: "is_finished ?p" and i: "i < length (bn_records (view pl ?p))" "\<not> sr_signed (bn_records (view pl ?p) ! i)"
    using sg' by simp_all
  note fa = finished_active [OF si fin]
  show "session_inv E s' \<and> wallet_turn s s'"
  proof (rule sign_turnI [OF inv signed_shielded_sinv [OF si sg] fin])
    show "events s' = events s @ [Signed (key_pool_of pl) i (shielded_sighash E s) (sr_path (bn_records (view pl ?p) ! i))]"
      "swap_params s' = swap_params s" "has_released_signature s'" using sg' by simp_all
    assume "pczt_parser s' \<noteq> pczt_parser_new"
    then obtain k kp where q: "pczt_parser s' = keyed k kp (set_view pl ?v ?p)"
      using sg' by (auto dest!: session_endD)
    have c: "counted s'" using inv fa sg' by (simp add: counted_def session_inv_def q) (simp add: keyed_def)
    have "marked (pczt_parser s') (key_pool_of pl, i)" using i by (cases pl) (simp_all add: q mark_record_def)
    moreover have "marked ?p x \<Longrightarrow> marked (pczt_parser s') x" for x
      using i(1) by (cases x; cases "fst x"; cases pl) (auto simp: q mark_record_def nth_list_update)
    ultimately show "counted s' \<and> outputs_reviewed (pczt_parser s') \<and> active (pz_state (pczt_parser s'))
      \<and> marked (pczt_parser s') (key_pool_of pl, i) \<and> (\<forall>x. marked ?p x \<longrightarrow> marked (pczt_parser s') x)"
      using c fa by (simp add: q)
  qed (use i in \<open>(cases pl; simp), simp\<close>)
qed (auto simp: sign_fail_def refused_turn_def unreleased_def)

section \<open>Turns of the main loop\<close>

lemma receive_simps [simp]:
  "session_inv E (receive data s) = session_inv E s" "wallet_turn (receive data s) s' = wallet_turn s s'"
  "wallet_of (receive data s) = wallet_of s" "events (receive data s) = events s"
  "pczt_parser (receive data s) = pczt_parser s" "swap_params (receive data s) = swap_params s"
  "has_released_signature (receive data s) = has_released_signature s" "comm_out (receive data s) = []"
  "comm_data (receive data s) = data" "tx_info (receive data s) = tx_info s"
  "tx_signing_state (receive data s) = tx_signing_state s" "hashers (receive data s) = hashers s"
  by (simp_all add: receive_def session_inv_def sinv_def swap_ok_def pinv_def review_ok_def cached_ok_def
      shielded_sighash_def counted_def released_ok_def log_ok_def wallet_turn_def wallet_of_def)

lemma handled_turn:
  assumes E: "env_laws E" and inv: "session_inv E s"
  shows "wp (handle_pczt_apdu E ins) (\<lambda>_ s'. session_inv E s' \<and> wallet_turn s s') (refused_turn s) s"
proof (cases ins)
  case (PcztInvalid sw)
  then show ?thesis by (simp add: wp_simps refused_turn_def)
qed (simp_all add: parse_turns [OF E inv] header_turn [OF inv] sign_transparent_turn [OF inv]
    sign_shielded_turn [OF env_lawsD(3) [OF E] inv] handler_pczt_sign_orchard_def handler_pczt_sign_ironwood_def)

lemma refused_wallet:
  assumes "session_inv E s" "refused_turn s e s1"
  shows "session_inv E (reset_ctx mode s1) \<and> wallet_turn s (reset_ctx mode s1)"
proof -
  have "swap_ok (reset_ctx mode s1)"
    using assms by (simp add: session_inv_def sinv_def swap_ok_def refused_turn_def)
  moreover have "distinct (signed_ids (events s1))"
    using assms by (auto simp: session_inv_def log_ok_def refused_turn_def)
  moreover have "wallet_turn s (reset_ctx mode s1)"
    using assms(2) by (auto simp: refused_turn_def wallet_turn_def dropped refused)
  ultimately show ?thesis by (intro conjI session_inv_new) simp_all
qed

lemma main_turn_inv:
  assumes E: "env_laws E" and inv: "session_inv E s"
  obtains sw s' where "main_turn E ins data s = (Some sw, s')" "session_inv E s'" "wallet_turn s s'"
    "sw \<noteq> app_sw.Ok \<Longrightarrow> wallet_of s' = Idle \<and> comm_out s' = []"
proof -
  have h: "wp (handle_pczt_apdu E ins) (\<lambda>_ s'. session_inv E s' \<and> wallet_turn s s')
      (refused_turn (receive data s)) (receive data s)"
    using handled_turn [OF E, of "receive data s" ins] inv by simp
  show ?thesis
  proof (cases "handle_pczt_apdu E ins (receive data s)")
    case (Pair r s1)
    show ?thesis
    proof (cases r)
      case (Inr u)
      show ?thesis by (rule that [of app_sw.Ok s1]) (use h Pair Inr in \<open>simp_all add: main_turn_def wp_def\<close>)
    next
      case (Inl e)
      then have rt: "refused_turn (receive data s) e s1" using h Pair by (simp add: wp_def)
      then obtain sw where sw: "e = Fail sw" by (cases e) (simp_all add: refused_turn_def just_fails_def)
      have "session_inv E (reset_ctx TrustedInput s1) \<and> wallet_turn s (reset_ctx TrustedInput s1)"
        using refused_wallet [OF _ rt, of E TrustedInput] inv by simp
      then show ?thesis
        using Pair Inl sw rt by (intro that [of sw "reset_ctx TrustedInput s1"])
          (simp_all add: main_turn_def refused_turn_def)
    qed
  qed
qed

end
