(* ===== verification/Device_Frame.thy ===== *)
theory Device_Frame
  imports Legacy_Frame Pczt_Wallet
begin

text \<open>
  What the commands of one kind leave of the state of the others: a PCZT command leaves the legacy
  parsers alone, a read-only command leaves the whole transaction alone, and the parser of the legacy
  outputs logs nothing but the swap check that completes it.
\<close>

section \<open>PCZT commands and the legacy parsers\<close>

lemma keeps_while: "keeps f m \<Longrightarrow> keeps f (while_sm n b m)"
proof (induction n)
  case (Suc n)
  then have "keeps f (bnd m (\<lambda>_. while_sm n b m))" by (intro keeps_bnd) simp
  then show ?case by (simp add: keeps_def)
qed (simp add: keeps_def)

text \<open>A part of the state that no part of a PCZT session belongs to: not the parser, not the log, and of
  the signing state only whether the legacy outputs are reviewed.\<close>

locale session_footprint = footprint f for f :: "world \<Rightarrow> 'x" +
  assumes off_session: "f (s\<lparr> pczt_parser := p \<rparr>) = f s" "f (s\<lparr> events := evs \<rparr>) = f s"
      "is_tx_parsed_once t = is_tx_parsed_once (tx_signing_state s) \<Longrightarrow> f (s\<lparr> tx_signing_state := t \<rparr>) = f s"
begin

lemma keeps_session:
  "keeps f (mod_p g)" "keeps f (log_event ev)" "keeps f pczt_reset"
  "(\<And>x. is_tx_parsed_once (m x) = is_tx_parsed_once x) \<Longrightarrow> keeps f (mod_ss m)"
proof -
  show p: "keeps f (mod_p g)" for g
    unfolding mod_p_def by (rule keeps_modify) (simp add: update_fun_eq(1) [of g] off_session)
  show "keeps f (log_event ev)"
    unfolding log_event_def by (rule keeps_modify) (simp add: off_session)
  show "keeps f pczt_reset" unfolding pczt_reset_def by (rule p)
  have e: "tx_signing_state_update m s = s\<lparr> tx_signing_state := m (tx_signing_state s) \<rparr>" for s :: world
    by (rule world.equality) simp_all
  show "(\<And>x. is_tx_parsed_once (m x) = is_tx_parsed_once x) \<Longrightarrow> keeps f (mod_ss m)"
    unfolding mod_ss_def by (rule keeps_modify) (simp add: e off_session)
qed

lemma keeps_display: "keeps f (ui_display_tx E outs fee transfer lock expiry)"
  unfolding ui_display_tx_def by (intro keeps_more keeps_session; simp add: off)

lemma keeps_review: "keeps f (review_outputs E)"
  unfolding review_outputs_def by (intro keeps_rules keeps_session keeps_display keeps_state(3,6,8,9))

lemma keeps_finalize_actions: "keeps f (finalize_actions E pl)"
  by (cases pl) (simp_all add: finalize_orchard_actions_def finalize_ironwood_actions_def,
    (intro keeps_rules keeps_session keeps_review keeps_state(2-10) keeps_services keeps_shared)+)

lemma keeps_outputs_start: "keeps f (parse_transparent_outputs_start E)"
  unfolding parse_transparent_outputs_start_def
  by (intro keeps_rules keeps_session; intro keeps_more keeps_finalize; simp)

lemma keeps_inputs_start: "keeps f (parse_transparent_inputs_start E)"
  unfolding parse_transparent_inputs_start_def reset_orchard_bundle_state_def
  by (intro keeps_rules; (rule keeps_session; simp; fail)?; intro keeps_more keeps_finalize; simp)

lemma keeps_inputs_step: "keeps f (transparent_inputs_step E)"
  unfolding transparent_inputs_step_def
  by (intro keeps_more; rename_tac st; case_tac st; simp add: keeps_inputs_start keeps_inputs keeps_transparent
      keeps_derivations keeps_rules)

lemma keeps_packets:
  "keeps f (parse_transparent_inputs E data)" "keeps f (parse_transparent_outputs E data)"
  "keeps f (parse_orchard_actions E data)" "keeps f (parse_ironwood_actions E data)"
  unfolding parse_transparent_inputs_def parse_transparent_outputs_def parse_orchard_actions_def
    parse_ironwood_actions_def on_packet_def reset_on_error_def
  by (intro keeps_rules keeps_while keeps_session keeps_reads keeps_inputs_step keeps_outputs_start
      keeps_transparent_steps keeps_pool_steps keeps_finalize_actions)+

lemma keeps_finish: "keeps f finish_pczt"
  unfolding finish_pczt_def reset_on_error_def get_p_def by (intro keeps_rules keeps_session)

end

text \<open>What a handler leaves alone when it succeeds.\<close>

definition keeps_ok :: "('s \<Rightarrow> 'x) \<Rightarrow> ('s, 'e, 'a) sm \<Rightarrow> bool" where
  "keeps_ok f m \<longleftrightarrow> (\<forall>s. wp m (\<lambda>_ s'. f s' = f s) (\<lambda>_ _. True) s)"

lemma keeps_okI: "keeps f m \<Longrightarrow> keeps_ok f m"
  unfolding keeps_ok_def by (auto intro!: wpI dest: keepsD)

lemma keeps_ok_bnd:
  assumes "keeps_ok f m" "\<And>a. keeps_ok f (k a)"
  shows "keeps_ok f (bnd m k)"
  unfolding keeps_ok_def wp_bnd
proof
  fix s
  have "wp (k a) (\<lambda>_ s''. f s'' = f s) (\<lambda>_ _. True) s'" if "f s' = f s" for a s'
    using assms(2) [of a] that unfolding keeps_ok_def by metis
  then show "wp m (\<lambda>a. wp (k a) (\<lambda>_ s'. f s' = f s) (\<lambda>_ _. True)) (\<lambda>_ _. True) s"
    using assms(1) unfolding keeps_ok_def by (blast intro: wp_mono)
qed

lemma keeps_ok_guarded:
  assumes "keeps f m"
  shows "keeps_ok f (on_parser_error m)"
  unfolding keeps_ok_def on_parser_error_def wp_catch_err
  by (intro allI, rule wpI)
    (use assms in \<open>auto dest: keepsD simp: map_pczt_parser_error_def wp_simps split: fault.split\<close>)

lemma keeps_ok_reset: "keeps_ok f (reset_pczt_parser_with_sw sw)"
  by (simp add: keeps_ok_def reset_pczt_parser_with_sw_def wp_simps)

lemma keeps_ok_data: "keeps_ok f get_data_or_reset"
  by (simp add: keeps_ok_def wp_get_data split: option.split)

context session_footprint begin

lemma parse_handlers_keep:
  "keeps_ok f (handler_pczt_transparent_input E first last1)"
  "keeps_ok f (handler_pczt_transparent_output E first last1)"
  "keeps_ok f (handler_pczt_orchard_action E first last1 finished)"
  "keeps_ok f (handler_pczt_ironwood_action E first last1 finished)"
proof -
  have c: "keeps_ok f (if b then m else k)" if "keeps_ok f m" "keeps_ok f k" for b and m k :: "unit happ"
    using that by simp
  have fin: "keeps_ok f (finish_pczt_if_requested b)" for b
    unfolding finish_pczt_if_requested_def by (intro c keeps_okI [OF keeps_pure(1)] keeps_ok_guarded keeps_finish)
  have g: "keeps_ok f (get_p q)" for q :: "pczt_parser \<Rightarrow> bool"
    by (intro keeps_okI keeps_state)
  show "keeps_ok f (handler_pczt_transparent_input E first last1)"
    "keeps_ok f (handler_pczt_transparent_output E first last1)"
    "keeps_ok f (handler_pczt_orchard_action E first last1 finished)"
    "keeps_ok f (handler_pczt_ironwood_action E first last1 finished)"
    unfolding handler_pczt_transparent_input_def handler_pczt_transparent_output_def
      handler_pczt_orchard_action_def handler_pczt_ironwood_action_def
    by (intro keeps_ok_bnd keeps_ok_data keeps_ok_guarded keeps_packets g c keeps_ok_reset fin
        keeps_okI [OF keeps_pure(1)])+
qed

end

text \<open>What the PCZT commands leave of a legacy session.\<close>

definition legs :: "world \<Rightarrow> legacy_parser \<times> legacy_output_parser \<times> bool \<times> bool" where
  "legs s = (legacy_parser s, legacy_output_parser s, is_tx_parsed_once (tx_signing_state s),
     is_extra_header_data_set s)"

interpretation legs: session_footprint legs
  by unfold_locales (simp_all add: legs_def)

interpretation flag: session_footprint is_finished_flag
  by unfold_locales simp_all

lemma legs_digests:
  "keeps legs (compute_no_transparent_input_signature_digest E n t)"
  "keeps legs (compute_transparent_input_signature_digest E d t)"
  "keeps legs (compute_shielded_signature_digest E i n)" "keeps legs (compute_transparent_signature_digest E j)"
  unfolding compute_no_transparent_input_signature_digest_def compute_shielded_signature_digest_def
    compute_transparent_input_signature_digest_def finalize_signature_hash_def compute_header_digest_def
    finalize_signature_hash_from_transparent_digest_def compute_transparent_signature_digest_def
  by (intro legs.keeps_more)+

lemma legs_signing:
  "keeps legs (append_signature E d p t)" "keeps legs (orchard_spend_auth_signature_with_sk E sk d a)"
  "keeps legs (comm_append bs)" "keeps legs note_signature_released" "keeps legs set_finished"
  "keeps legs (mark_transparent_input_signed j)" "keeps legs (use_transparent_signature_digest E j)"
  "keeps legs (transparent_input_signing_path j)" "keeps legs (ensure_signature_digest E pl j)"
  "keeps legs (action_signing_data pl j)" "keeps legs (mark_action_signed pl j)"
  unfolding append_signature_def orchard_spend_auth_signature_with_sk_def orchard_spend_auth_signature_with_ask_def
    fill_bytes_def comm_append_def note_signature_released_def set_finished_def mark_transparent_input_signed_def
    use_transparent_signature_digest_def transparent_input_signing_path_def ensure_signature_digest_def
    action_signing_data_def mark_action_signed_def
  by (intro legs.keeps_more legs_digests legs.keeps_session; simp add: legs_def)+

lemma legs_guards:
  "keeps legs m \<Longrightarrow> keeps legs (on_parser_error m)" "keeps legs k \<Longrightarrow> keeps legs (on_sw_error k)"
  "keeps legs require_no_data_and_finished" "keeps legs (check_change_account p)"
  "keeps legs finish_if_signatures_done"
  unfolding on_parser_error_def on_sw_error_def map_pczt_parser_error_def reset_pczt_parser_with_sw_def
    require_no_data_and_finished_def get_data_or_reset_def check_change_account_def finish_if_signatures_done_def
  by (intro legs.keeps_more legs.keeps_session legs_signing; simp)+

lemma legs_sign:
  "keeps legs (handler_pczt_sign_transparent E i)" "keeps legs (sign_shielded E pl j)"
  unfolding handler_pczt_sign_transparent_def sign_shielded_def
  by (intro keeps_rules legs_guards legs_signing legs.keeps_shared legs.keeps_session legs.keeps_state; simp)+

end
