(* ===== verification/Device_Wallet.thy ===== *)
theory Device_Wallet
  imports Device_Frame
begin

text \<open>
  The abstract wallet of the whole device, over both signing protocols, and the invariant that ties the
  state to it; with what the read-only commands and the parser of the legacy outputs do to the parts of
  the state it is about.  Nothing here assumes a law of the legacy services.
\<close>

section \<open>Commands that only read\<close>

text \<open>The state without the buffers of a command, the pending viewing key and the clock.\<close>

definition tx_part :: "world \<Rightarrow> world" where
  "tx_part s = s\<lparr> comm_data := None, comm_out := [], vk_response := None, is_vk_display_finished := False,
     orchard_derivations := 0, ticks := 0 \<rparr>"

lemma reads_basic:
  "keeps tx_part comm_get_data" "keeps tx_part (comm_append bs)" "keeps tx_part (show_address A scr)"
  "keeps tx_part (derive_orchard_fvk E p)" "keeps tx_part (modify (\<lambda>s. s\<lparr> vk_response := r \<rparr>))"
  unfolding comm_get_data_def comm_append_def show_address_def derive_orchard_fvk_def derive_orchard_sk_bytes_def
    consume_orchard_derivation_budget_def
  by (intro keeps_rules keeps_modify; simp add: tx_part_def)+

lemmas reads = keeps_rules reads_basic

lemma reads_screens:
  "keeps tx_part (ui_display_pk A t)" "keeps tx_part (ui_display_shielded_address A x y)"
  "keeps tx_part (ui_display_orchard_fvk A t a)" "keeps tx_part (ui_display_ufvk A t a)"
  unfolding ui_display_pk_def ui_display_shielded_address_def ui_display_orchard_fvk_def ui_display_ufvk_def
    ui_display_fvk_def
  by (intro reads)+

lemma reads_vk:
  "keeps tx_part append_pending_vk_chunk" "keeps tx_part m \<Longrightarrow> keeps tx_part (confirm_export m)"
  unfolding append_pending_vk_chunk_def confirm_export_def Let_def
  by (intro reads keeps_modify; simp add: tx_part_def)+

lemma reads_export: "keeps tx_part (vk_export E A mode p t a fvk)"
  by (cases mode) (simp, intro reads reads_vk reads_screens)+

lemma reads_address: "keeps tx_part (address_response E A mode display p t fvk)"
  by (cases mode) (simp, intro reads reads_screens)+

lemma read_only:
  assumes "\<not> resets_on_error ins"
  shows "keeps tx_part (handle_apdu E A L ins)"
proof (cases ins)
  case GetVersion
  show ?thesis unfolding GetVersion handle_apdu.simps handler_get_version_def
    by (intro reads)
next
  case (GetPubkey display)
  show ?thesis unfolding GetPubkey handle_apdu.simps handler_get_public_key_def
    by (intro reads reads_screens)
next
  case (GetShieldedAddr display mode)
  show ?thesis unfolding GetShieldedAddr handle_apdu.simps handler_get_shielded_addr_def
    by (intro reads reads_address)
next
  case (GetVk mode c)
  show ?thesis unfolding GetVk handle_apdu.simps handler_get_vk_def
    by (intro reads reads_vk reads_export)
qed (use assms in simp_all)

section \<open>The parser of the legacy outputs\<close>

text \<open>What a packet of outputs leaves untouched, and its place in the log.\<close>

definition lofoot :: "world \<Rightarrow> (pczt_parser \<times> create_tx_params option \<times> bool) \<times> (bytes option \<times> bytes \<times> bool \<times> bool)
    \<times> legacy_parser \<times> bool" where
  "lofoot s = ((pczt_parser s, swap_params s, has_released_signature s),
     (comm_data s, comm_out s, is_extra_header_data_set s, is_finished_flag s),
     legacy_parser s, is_tx_parsed_once (tx_signing_state s))"

abbreviation outputs_done :: "world \<Rightarrow> bool" where
  "outputs_done s \<equiv> lo_is_finished (legacy_output_parser s)"

definition swap_checked :: "world \<Rightarrow> world \<Rightarrow> bool" where
  "swap_checked s s' \<longleftrightarrow> swap_params s \<noteq> None \<and> (\<exists>outs fee. events s' = events s @ [SwapChecked outs fee])"

definition lo_rel :: "world \<Rightarrow> world \<Rightarrow> bool" where
  "lo_rel s s' \<longleftrightarrow> lofoot s' = lofoot s
     \<and> (if outputs_done s' \<and> swap_params s \<noteq> None then swap_checked s s' else events s' = events s)"

definition lo_fail :: "world \<Rightarrow> world \<Rightarrow> bool" where
  "lo_fail s s' \<longleftrightarrow> lofoot s' = lofoot s \<and> (events s' = events s \<or> swap_checked s s')"

lemma lo_step_frame:
  assumes "\<not> outputs_done s"
  shows "wp (lo_step E) (\<lambda>_. lo_rel s) (\<lambda>_. lo_fail s) s"
proof (cases "lo_state (legacy_output_parser s)")
  case LoParsingNumberOfOutputs
  then show ?thesis
    unfolding lo_step_def lo_number_of_outputs_def
    by (simp add: wp_simps vc_simps lo_rel_def lo_fail_def lofoot_def lo_is_finished_def cong: wp_cong)
next
  case LoParsingOutput
  then show ?thesis
    unfolding lo_step_def lo_parse_output_def
    by (simp add: wp_simps vc_simps lo_rel_def lo_fail_def lofoot_def lo_is_finished_def cong: wp_cong)
next
  case (LoProcessOutputScript n r)
  then show ?thesis
    unfolding lo_step_def lo_process_script_def lo_push_output_def finalize_outputs_def
    apply (simp add: wp_simps vc_simps Let_def cong: wp_cong split del: if_split)
    by (auto simp: wp_simps lo_rel_def lo_fail_def lofoot_def lo_is_finished_def swap_checked_def)
qed (use assms in \<open>simp add: lo_is_finished_def\<close>)

lemma wp_while_frame:
  assumes "\<And>s. I s \<Longrightarrow> b s \<Longrightarrow> wp m (\<lambda>_. I) R s" "\<And>s. I s \<Longrightarrow> R Diverge s" "I s"
  shows "wp (while_sm n b m) (\<lambda>_. I) R s"
  using assms(3)
proof (induction n arbitrary: s)
  case 0
  then show ?case using assms(2) by (simp add: wp_def)
next
  case (Suc n)
  show ?case
  proof (cases "b s")
    case True
    have "wp m (\<lambda>_. wp (while_sm n b m) (\<lambda>_. I) R) R s"
      by (rule wp_mono [OF assms(1) [OF Suc.prems True]]) (simp_all add: Suc.IH)
    then have "wp (bnd m (\<lambda>_. while_sm n b m)) (\<lambda>_. I) R s" by (simp add: wp_bnd)
    then show ?thesis using True by (simp add: wp_def)
  qed (use Suc.prems in \<open>simp add: wp_def\<close>)
qed

lemma lo_rel_trans: "lo_rel s s' \<Longrightarrow> \<not> outputs_done s' \<Longrightarrow> lo_rel s' s'' \<Longrightarrow> lo_rel s s''"
  by (auto simp: lo_rel_def swap_checked_def lofoot_def)

lemma lo_rel_fail: "lo_rel s s' \<Longrightarrow> lo_fail s s'"
  by (auto simp: lo_rel_def lo_fail_def split: if_splits)

lemma lo_fail_trans: "lo_rel s s' \<Longrightarrow> \<not> outputs_done s' \<Longrightarrow> lo_fail s' s'' \<Longrightarrow> lo_fail s s''"
  by (auto simp: lo_rel_def lo_fail_def swap_checked_def lofoot_def)

lemma lo_parse_frame:
  assumes "\<not> outputs_done s"
  shows "wp (lo_parse E data) (\<lambda>_. lo_rel s) (\<lambda>_. lo_fail s) s"
proof -
  have "wp (while_sm n (\<lambda>s. remaining_len s > 0 \<and> \<not> outputs_done s) (lo_step E)) (\<lambda>_. lo_rel s) (\<lambda>_. lo_fail s)
      (s\<lparr> rd_buf := data, rd_pos := 0 \<rparr>)" for n
  proof (rule wp_while_frame [where I = "lo_rel s"])
    show "lo_rel s (s\<lparr> rd_buf := data, rd_pos := 0 \<rparr>)"
      using assms by (simp add: lo_rel_def lofoot_def)
    show "wp (lo_step E) (\<lambda>_. lo_rel s) (\<lambda>_. lo_fail s) s'"
      if "lo_rel s s'" "0 < remaining_len s' \<and> \<not> outputs_done s'" for s'
      by (rule wp_mono [OF lo_step_frame]) (use that in \<open>auto intro: lo_rel_trans lo_fail_trans\<close>)
  qed (rule lo_rel_fail)
  then show ?thesis by (simp add: lo_parse_def reader_new_def wp_simps del: while_sm.simps)
qed

section \<open>The wallet of the device\<close>

text \<open>The PCZT wallet, or a transaction of the legacy protocol whose outputs were granted.\<close>

datatype device_wallet = Pczt wallet | Granted event

text \<open>A turn of the device and what it logs.  The legacy protocol has its outputs granted, or refused, when
  no PCZT session is open; then its signatures follow, until another transaction replaces it.\<close>

inductive device_step :: "device_wallet \<Rightarrow> event list \<Rightarrow> device_wallet \<Rightarrow> bool" where
  pczt: "wallet_step w evs w' \<Longrightarrow> device_step (Pczt w) evs (Pczt w')"
| left: "device_step w [] (Pczt Idle)"
| opened: "device_step w [] (Pczt Parsing)"
| kept: "device_step w [] w"
| legacy_refused: "is_review ev \<Longrightarrow> device_step (Pczt Idle) [ev] (Pczt Idle)"
| legacy_granted: "granted ev \<Longrightarrow> device_step (Pczt Idle) [ev] (Granted ev)"
| legacy_signed: "device_step (Granted ev) [Signed KeyLegacy i d p] (Granted ev)"

abbreviation idle :: "world \<Rightarrow> bool" where
  "idle s \<equiv> \<not> active (pz_state (pczt_parser s))"

abbreviation seen :: "world \<Rightarrow> bool" where
  "seen s \<equiv> is_tx_parsed_once (tx_signing_state s)"

abbreviation swap_closed :: "world \<Rightarrow> bool" where
  "swap_closed s \<equiv> swap_params s \<noteq> None \<and> has_released_signature s"

definition legacy_open :: "world \<Rightarrow> bool" where
  "legacy_open s \<longleftrightarrow> outputs_done s \<and> (swap_params s \<noteq> None \<or> seen s)"

definition device_wallet :: "world \<Rightarrow> device_wallet" where
  "device_wallet s =
     (if idle s \<and> legacy_open s
      then (case latest_review (events s) of Some ev \<Rightarrow> Granted ev | None \<Rightarrow> Pczt Idle)
      else Pczt (wallet_of s))"

text \<open>The legacy part of the invariant: the legacy parsers rest during a PCZT session, the signing pass
  follows the review of complete outputs, and after a signature for the Exchange application no other
  outputs can be read.\<close>

definition legacy_ok :: "world \<Rightarrow> bool" where
  "legacy_ok s \<longleftrightarrow> ends_ok s
     \<and> (\<not> idle s \<longrightarrow> lg_state (legacy_parser s) = LgNone \<and> \<not> seen s \<and> \<not> outputs_done s)
     \<and> (seen s \<longrightarrow> outputs_done s \<and> is_extra_header_data_set s)
     \<and> (legacy_open s \<longrightarrow> (\<exists>ev. latest_review (events s) = Some ev \<and> granted ev))
     \<and> (swap_closed s \<and> idle s \<and> \<not> outputs_done s \<longrightarrow> lg_mode (legacy_parser s) = TrustedInput
          \<or> is_finished_flag s \<and> lg_state (legacy_parser s) = LgNone)"

definition device_inv :: "env \<Rightarrow> world \<Rightarrow> bool" where
  "device_inv E s \<longleftrightarrow> session_inv E s \<and> legacy_ok s"

text \<open>A turn that succeeds, and what one that fails leaves behind before the context is reset.\<close>

definition grows :: "world \<Rightarrow> world \<Rightarrow> event list \<Rightarrow> bool" where
  "grows s s' evs \<longleftrightarrow> events s' = events s @ evs \<and> swap_params s' = swap_params s
     \<and> (swap_closed s \<longrightarrow> (\<forall>ev \<in> set evs. \<not> is_review ev))"

definition device_turn :: "world \<Rightarrow> world \<Rightarrow> bool" where
  "device_turn s s' \<longleftrightarrow> (has_released_signature s \<longrightarrow> has_released_signature s')
     \<and> (\<exists>evs. grows s s' evs \<and> device_step (device_wallet s) evs (device_wallet s'))"

definition device_refused :: "world \<Rightarrow> world \<Rightarrow> bool" where
  "device_refused s s' \<longleftrightarrow> has_released_signature s' = has_released_signature s
     \<and> (\<exists>evs. grows s s' evs \<and> (evs = [] \<or> (\<exists>ev. is_review ev \<and> evs = [ev] \<and> device_wallet s \<in> {Pczt Idle, Pczt Parsing})))"

lemma grows_Nil: "events s' = events s \<Longrightarrow> swap_params s' = swap_params s \<Longrightarrow> grows s s' []"
  by (simp add: grows_def)

lemma idle_pczt:
  assumes "session_inv E s" "idle s"
  shows "pczt_parser s = pczt_parser_new" "wallet_of s = Idle"
  using assms by (simp_all add: session_inv_def sinv_def pinv_def wallet_of_defs)

text \<open>Idle, the PCZT invariant is about the log only.\<close>

lemma session_inv_idle:
  assumes "session_inv E s" "idle s" "pczt_parser s' = pczt_parser s" "swap_params s' = swap_params s"
    and "distinct (signed_ids (events s'))"
  shows "session_inv E s'"
proof (rule session_inv_new)
  show "pczt_parser s' = pczt_parser_new" using idle_pczt [OF assms(1,2)] assms(3) by simp
  show "swap_ok s'" using assms(1,4) by (simp add: session_inv_def sinv_def swap_ok_def)
qed (rule assms(5))

lemma session_inv_distinct: "session_inv E s \<Longrightarrow> distinct (signed_ids (events s))"
  by (simp add: session_inv_def log_ok_def)

end
