(* ===== verification/Device_Turns.thy ===== *)
theory Device_Turns
  imports Device_Wallet
begin

text \<open>
  The handlers of all instructions as steps of the wallet of the device: the PCZT commands, the four
  commands of the legacy protocol and the read-only commands.  A command that fails logs at most the
  review it showed and releases nothing.
\<close>

section \<open>PCZT commands\<close>

definition pczt_ends :: "world \<Rightarrow> world \<Rightarrow> bool" where
  "pczt_ends s s' \<longleftrightarrow> legs s' = legs s
     \<and> (idle s \<longrightarrow> idle s' \<and> is_finished_flag s' = is_finished_flag s
          \<and> has_released_signature s' = has_released_signature s)
     \<and> (\<not> idle s \<and> idle s' \<longrightarrow> is_finished_flag s' \<or> \<not> swap_closed s')"

lemma keeps_okD: "keeps_ok f m \<Longrightarrow> m s = (Inr u, s') \<Longrightarrow> f s' = f s"
  unfolding keeps_ok_def by (auto dest: wp_InrD)

lemma parse_ends:
  assumes inv: "session_inv E s" and k: "keeps_ok legs m" "keeps_ok is_finished_flag m"
    and P: "wp m (turn_post E s) (turn_fail s) s" and H: "wp m (\<lambda>_. hist s) (\<lambda>_. hist_fail s) s"
    and S: "outputs_reviewed (pczt_parser s) \<Longrightarrow> wp m (\<lambda>_. steady s) (spoiled s) s"
  shows "wp m (\<lambda>_. pczt_ends s) (\<lambda>_ _. True) s"
proof (rule wpI)
  fix u s' assume m: "m s = (Inr u, s')"
  note k' = k [THEN keeps_okD, OF m]
  have h: "idle s \<Longrightarrow> idle s'" using wp_InrD [OF H m] by (auto simp: hist_def)
  have q: "quiet s s'" using wp_InrD [OF P m] by (simp add: turn_post_def)
  have "\<not> swap_closed s'" if "\<not> idle s" "idle s'"
  proof -
    have "\<not> outputs_reviewed (pczt_parser s)"
    proof
      assume "outputs_reviewed (pczt_parser s)"
      then have "steady s s'" using wp_InrD [OF S m] by simp
      then show False using that by (auto simp: steady_def)
    qed
    then show ?thesis using inv that(1) q by (auto simp: session_inv_def released_ok_def quiet_def)
  qed
  then show "pczt_ends s s'" using h k' q by (auto simp: pczt_ends_def quiet_def)
qed simp

lemma sign_ends:
  assumes inv: "session_inv E s" "session_inv E s'" and fin: "is_finished (pczt_parser s)"
    and e: "session_end q s'" and q: "\<not> idle s \<Longrightarrow> active (pz_state q)" and l: "legs s' = legs s"
  shows "pczt_ends s s'"
proof -
  have "sinv E s" using inv(1) by (simp add: session_inv_def)
  then have "\<not> idle s" using finished_active(1) [OF _ fin] by simp
  then show ?thesis using q session_endD [OF e] l by (auto simp: pczt_ends_def)
qed

lemma pczt_command_ends:
  assumes E: "env_laws E" and inv: "session_inv E s" and ins: "ins \<noteq> PcztHeader"
  shows "wp (handle_pczt_apdu E ins) (\<lambda>_. pczt_ends s) (\<lambda>_ _. True) s"
proof -
  have i: "swap_ok s" "pinv E s" "sinv E s" using inv by (simp_all add: session_inv_def sinv_def)
  have parse: "wp (handler_pczt_transparent_input E first last1) (\<lambda>_. pczt_ends s) (\<lambda>_ _. True) s"
    "wp (handler_pczt_transparent_output E first last1) (\<lambda>_. pczt_ends s) (\<lambda>_ _. True) s"
    "wp (handler_pczt_orchard_action E first last1 finished) (\<lambda>_. pczt_ends s) (\<lambda>_ _. True) s"
    "wp (handler_pczt_ironwood_action E first last1 finished) (\<lambda>_. pczt_ends s) (\<lambda>_ _. True) s"
    for first last1 finished
    by (rule parse_ends [OF inv], rule legs.parse_handlers_keep, rule flag.parse_handlers_keep,
      rule parse_handlers_pinv [OF E i(1,2)], rule turn_hist [OF E i(1,2)], erule reviewed_turn [OF i(2)])+
  have transparent: "wp (handler_pczt_sign_transparent E j) (\<lambda>_. pczt_ends s) (\<lambda>_ _. True) s" for j
  proof (rule wpI)
    fix u s' assume m: "handler_pczt_sign_transparent E j s = (Inr u, s')"
    have sg: "signed_transparent E j s s'" using wp_InrD [OF sign_transparent_wp m] i by simp
    note sg' = sg [unfolded signed_transparent_def Let_def]
    show "pczt_ends s s'"
    proof (rule sign_ends [OF inv])
      show "session_inv E s'" using wp_InrD [OF sign_transparent_turn [OF inv] m] by simp
      show "is_finished (pczt_parser s)" "session_end (mark_input j (pczt_parser s)) s'" using sg' by simp_all
      show "active (pz_state (mark_input j (pczt_parser s)))" if "\<not> idle s"
        using that sg' by (simp add: mark_input_ok)
    qed (rule keepsD [OF legs_sign(1) m])
  qed simp
  have shielded: "wp (sign_shielded E pl j) (\<lambda>_. pczt_ends s) (\<lambda>_ _. True) s" for pl j
  proof (rule wpI)
    fix u s' assume m: "sign_shielded E pl j s = (Inr u, s')"
    have sg: "signed_shielded E pl j s s'"
      using wp_InrD [OF sign_shielded_wp [OF env_lawsD(3) [OF E]] m] i by (simp add: sinv_def)
    note sg' = sg [unfolded signed_shielded_def Let_def]
    then obtain k kp where e: "session_end (keyed k kp (set_view pl ((mark_record j (view pl (pczt_parser s)))
        \<lparr> bn_sig_digest := Some (shielded_sighash E s) \<rparr>) (pczt_parser s))) s'" by blast
    show "pczt_ends s s'"
    proof (rule sign_ends [OF inv _ _ e])
      show "session_inv E s'" using wp_InrD [OF sign_shielded_turn [OF env_lawsD(3) [OF E] inv] m] by simp
      show "is_finished (pczt_parser s)" using sg' by simp
    qed (simp_all add: keepsD [OF legs_sign(2) m])
  qed simp
  show ?thesis
    using ins by (cases ins) (simp_all add: parse transparent shielded handler_pczt_sign_orchard_def
      handler_pczt_sign_ironwood_def wp_simps)
qed

text \<open>The header starts from a reset context.\<close>

lemma header_legs:
  "wp (handler_pczt_header E) (\<lambda>_ s'. legs s' = legs (reset_ctx Signature s) \<and> \<not> idle s') (\<lambda>_ _. True) s"
proof -
  have b: "wp (parse_header E data) (\<lambda>_ s'. legs s' = legs (reset_ctx Signature s) \<and> \<not> idle s') (\<lambda>_ _. True)
      (reset_ctx Signature s)" for data
  proof (rule wpI)
    fix u s' assume m: "parse_header E data (reset_ctx Signature s) = (Inr u, s')"
    have "keeps legs (parse_header E data)"
      unfolding parse_header_def reset_on_error_def
      by (intro keeps_catch_err legs.keeps_header legs.keeps_session keeps_bnd keeps_pure)
    moreover have "wp (parse_header E data) (\<lambda>_ s'. \<not> idle s') (\<lambda>_ _. True) (reset_ctx Signature s)"
    proof -
      have any: "wp m Q (\<lambda>_ _. True) s1" if "\<And>a s'. Q a s'" for m :: "unit papp" and Q s1
        by (intro wpI that TrueI)
      have "wp (bnd (get_p pz_state) (\<lambda>st. bnd (ensure (st = WaitHeaderAndGlobal) (Sw BadState)) (\<lambda>_.
          seqs [m1, m2, m3, m4, m5, m6, m7, set_state WaitTransparentInputsCount])))
          (\<lambda>_ s'. \<not> idle s') (\<lambda>_ _. True) s1" for m1 m2 m3 m4 m5 m6 m7 s1
        by (auto simp: get_p_def wp_simps seqs.simps active_def
            intro!: any [of _ m1] any [of _ m2] any [of _ m3] any [of _ m4] any [of _ m5] any [of _ m6] any [of _ m7])
      then show ?thesis
        unfolding parse_header_def reset_on_error_def wp_catch_err
        by (rule wp_mono) (auto simp: wp_simps split: fault.splits)
    qed
    ultimately show "legs s' = legs (reset_ctx Signature s) \<and> \<not> idle s'"
      using m by (auto dest: keepsD wp_InrD)
  qed simp
  then show ?thesis
    unfolding handler_pczt_header_def reset_for_new_transaction_def on_parser_error_def
    by (auto simp: wp_simps map_pczt_parser_error_def elim!: wp_mono split: option.split fault.split)
qed

text \<open>A context that was reset, whatever became of the PCZT session since.\<close>

lemma fresh_legacy:
  assumes "legs s = legs (reset_ctx mode t)" "mode = TrustedInput \<or> \<not> swap_closed s \<or> \<not> idle s"
  shows "legacy_ok s" "\<not> legacy_open s" "device_wallet s = Pczt (wallet_of s)"
  using assms
  by (auto simp: legs_def reset_ctx_def legacy_ok_def ends_ok_def legacy_open_def device_wallet_def lo_is_finished_def
      legacy_parser_new_def legacy_output_parser_new_def tx_signing_state_default_def)

lemma device_wallet_active: "device_inv E s \<Longrightarrow> \<not> idle s \<Longrightarrow> device_wallet s = Pczt (wallet_of s)"
  by (simp add: device_wallet_def)

text \<open>After a signature for the Exchange application no turn of the PCZT wallet shows a review.\<close>

lemma closed_wallet:
  assumes inv: "session_inv E s" and c: "swap_closed s"
  shows "wallet_of s \<noteq> Parsing" "wallet_step (wallet_of s) evs w' \<Longrightarrow> \<forall>ev \<in> set evs. \<not> is_review ev"
proof -
  show p: "wallet_of s \<noteq> Parsing"
    using inv c by (auto simp: session_inv_def released_ok_def sinv_def wallet_of_defs split: if_splits
        elim!: reviewed_wallet)
  show "\<forall>ev \<in> set evs. \<not> is_review ev" if "wallet_step (wallet_of s) evs w'"
    using that p by (cases rule: wallet_step.cases) auto
qed

lemma pczt_device_turn:
  assumes E: "env_laws E" and inv: "device_inv E s"
  shows "wp (handle_pczt_apdu E ins) (\<lambda>_ s'. device_inv E s' \<and> device_turn s s') (\<lambda>_. device_refused s) s"
proof -
  have si: "session_inv E s" and lo: "legacy_ok s" using inv by (simp_all add: device_inv_def)
  note h = handled_turn [OF E si, of ins]
  note cl = closed_wallet [OF si]
  show ?thesis
  proof (rule wpI)
    fix u s' assume m: "handle_pczt_apdu E ins s = (Inr u, s')"
    have si': "session_inv E s'" and wt: "wallet_turn s s'" using wp_InrD [OF h m] by simp_all
    obtain evs where e: "events s' = events s @ evs" "wallet_step (wallet_of s) evs (wallet_of s')"
        "swap_params s' = swap_params s" "has_released_signature s \<longrightarrow> has_released_signature s'"
      using wt by (auto simp: wallet_turn_def)
    have g: "grows s s' evs" using e cl(2) by (auto simp: grows_def)
    show "device_inv E s' \<and> device_turn s s'"
    proof (cases "ins = PcztHeader")
      case True
      have hd: "handler_pczt_header E s = (Inr u, s')" using m True by simp
      have l: "legs s' = legs (reset_ctx Signature s)" "\<not> idle s'" using wp_InrD [OF header_legs hd] by simp_all
      have n: "events s' = events s" "\<not> outputs_reviewed (pczt_parser s')"
        using wp_InrD [OF header_hist hd] by simp_all
      have w: "wallet_of s' = Parsing" using l(2) n(2) by (simp add: wallet_of_defs)
      have d: "legacy_ok s'" "device_wallet s' = Pczt Parsing"
        using fresh_legacy [OF l(1)] l(2) by (simp_all add: w)
      then show ?thesis using si' e g n by (auto simp: device_inv_def device_turn_def opened)
    next
      case False
      have p: "pczt_ends s s'" using wp_InrD [OF pczt_command_ends [OF E si False] m] .
      then have l: "legs s' = legs s" by (simp add: pczt_ends_def)
      show ?thesis
      proof (cases "idle s")
        case True
        have i: "idle s'" "is_finished_flag s' = is_finished_flag s" "has_released_signature s' = has_released_signature s"
          using p True by (simp_all add: pczt_ends_def)
        have w: "wallet_of s = Idle" "wallet_of s' = Idle" using idle_pczt [OF si True] idle_pczt [OF si' i(1)] by simp_all
        have n: "evs = []" using e(2) by (cases rule: wallet_step.cases) (auto simp: w)
        have "device_wallet s' = device_wallet s"
          using l i(1) True e n by (auto simp: device_wallet_def legacy_open_def legs_def w)
        moreover have "legacy_ok s'"
          using lo l i True e n by (simp add: legacy_ok_def ends_ok_def lkey_def legs_def legacy_open_def)
        ultimately show ?thesis
          using si' e g n by (auto simp: device_inv_def device_turn_def intro: kept)
      next
        case False
        have lo': "\<not> legacy_open s'" "ends_ok s'" "\<not> seen s'" "\<not> outputs_done s'"
            "lg_state (legacy_parser s') = LgNone"
          using lo False l by (auto simp: legacy_ok_def legs_def ends_ok_def legacy_open_def)
        have "legacy_ok s'" using lo' p False by (auto simp: legacy_ok_def pczt_ends_def)
        moreover have "device_step (device_wallet s) evs (device_wallet s')"
          using e(2) lo' False by (simp add: device_wallet_def pczt)
        ultimately show ?thesis using si' e g by (auto simp: device_inv_def device_turn_def)
      qed
    qed
  next
    fix e s' assume m: "handle_pczt_apdu E ins s = (Inl e, s')"
    have r: "refused_turn s e s'" using h m by (simp add: wp_def)
    have "device_wallet s = Pczt Parsing" if "wallet_of s = Parsing"
      using that by (auto simp: device_wallet_def wallet_of_defs split: if_splits)
    then show "device_refused s s'"
      using r cl(1) by (auto simp: device_refused_def refused_turn_def grows_def)
  qed
qed

section \<open>Legacy commands\<close>

text \<open>What the log and the session keep when a command fails.\<close>

definition logs :: "world \<Rightarrow> event list \<times> create_tx_params option \<times> bool" where
  "logs s = (events s, swap_params s, has_released_signature s)"

lemma logs_refused: "logs s' = logs s \<Longrightarrow> device_refused s s'"
  by (auto simp: logs_def device_refused_def intro!: exI [of _ "[]"] grows_Nil)

lemma logs_simps:
  "lrel s s' \<Longrightarrow> logs s' = logs s" "tx_part s' = tx_part s \<Longrightarrow> logs s' = logs s" "logs (reset_ctx mode s) = logs s"
proof -
  show "logs s' = logs s" if "tx_part s' = tx_part s"
  proof -
    have "logs (tx_part s') = logs (tx_part s)" using that by simp
    then show ?thesis by (simp add: logs_def tx_part_def)
  qed
qed (auto simp: logs_def lrel_def lfoot_def reset_ctx_def)

lemma device_inv_tx_part [simp]:
  "device_inv E (tx_part s) = device_inv E s" "device_wallet (tx_part s) = device_wallet s"
proof -
  show "device_inv E (tx_part s) = device_inv E s"
    by (simp add: tx_part_def device_inv_def session_inv_def sinv_def swap_ok_def pinv_def review_ok_def cached_ok_def
      shielded_sighash_def counted_def released_ok_def log_ok_def legacy_ok_def ends_ok_def lkey_def legacy_open_def)
  show "device_wallet (tx_part s) = device_wallet s"
    unfolding device_wallet_def legacy_open_def wallet_of_def tx_part_def by auto
qed

lemma tx_part_kept:
  assumes "tx_part s' = tx_part s"
  shows "device_inv E s' = device_inv E s" "device_wallet s' = device_wallet s"
  using device_inv_tx_part(1) [of E s] device_inv_tx_part(1) [of E s']
    device_inv_tx_part(2) [of s] device_inv_tx_part(2) [of s'] assms by simp_all

text \<open>A turn that leaves the wallet where it is.\<close>

lemma kept_turn: "logs s' = logs s \<Longrightarrow> device_wallet s' = device_wallet s \<Longrightarrow> device_turn s s'"
  by (auto simp: device_turn_def logs_def intro!: exI [of _ "[]"] grows_Nil kept)

lemma left_turn: "logs s' = logs s \<Longrightarrow> device_wallet s' = Pczt Idle \<Longrightarrow> device_turn s s'"
  by (auto simp: device_turn_def logs_def intro!: exI [of _ "[]"] grows_Nil left)

text \<open>A pass of the legacy parser over a packet, when no PCZT session is open and no transaction is
  finished.\<close>

lemma lrel_kept:
  assumes inv: "device_inv E s" and i: "idle s" "\<not> is_finished_flag s" and r: "lrel s s'"
  shows "device_inv E s'" "device_wallet s' = device_wallet s" "idle s'"
proof -
  have f: "lfoot s' = lfoot s" using r by (simp add: lrel_def)
  have si: "session_inv E s" "legacy_ok s" using inv by (simp_all add: device_inv_def)
  show d: "device_wallet s' = device_wallet s"
    using f by (auto simp: lfoot_def device_wallet_def legacy_open_def wallet_of_defs)
  show "idle s'" using f i(1) by (simp add: lfoot_def)
  have "session_inv E s'"
    by (rule session_inv_idle [OF si(1) i(1)]) (use f session_inv_distinct [OF si(1)] in \<open>simp_all add: lfoot_def\<close>)
  moreover have "legacy_ok s'"
    using si(2) r i by (auto simp: legacy_ok_def lrel_def lfoot_def legacy_open_def)
  ultimately show "device_inv E s'" by (simp add: device_inv_def)
qed

lemma wp_legacy_parse:
  assumes "\<And>s'. lrel s s' \<Longrightarrow> Q () s'" "\<And>e s'. logs s' = logs s \<Longrightarrow> R e s'"
  shows "wp (legacy_parse E L data) Q R s"
  by (rule wp_mono [OF legacy_parse_frame]) (use assms logs_simps(1) in auto)

lemma issue_reads: "keeps tx_part (issue_trusted_input E L)"
  unfolding issue_trusted_input_def fill_bytes_def
  by (intro reads keeps_modify; simp add: tx_part_def)

lemma wp_issue:
  assumes "\<And>s'. tx_part s' = tx_part s \<Longrightarrow> Q () s'" "\<And>e s'. logs s' = logs s \<Longrightarrow> R e s'"
  shows "wp (issue_trusted_input E L) Q R s"
proof (rule wpI)
  fix u s' assume "issue_trusted_input E L s = (Inr u, s')"
  then show "Q u s'" using assms(1) keepsD [OF issue_reads] by simp
next
  fix e s' assume "issue_trusted_input E L s = (Inl e, s')"
  then show "R e s'" by (intro assms(2) logs_simps(2) keepsD [OF issue_reads])
qed

text \<open>A fresh transaction of the legacy protocol.\<close>

lemma fresh_inv:
  assumes inv: "device_inv E s" and m: "mode = TrustedInput \<or> \<not> swap_closed s"
    and u: "u = (reset_ctx mode s)\<lparr> trusted_input_info := t \<rparr>"
  shows "device_inv E u" "device_wallet u = Pczt Idle" "idle u" "\<not> is_finished_flag u" "logs u = logs s"
proof -
  have l: "legs u = legs (reset_ctx mode s)" by (simp add: u legs_def)
  have p: "pczt_parser u = pczt_parser_new" "events u = events s" "swap_params u = swap_params s"
      "has_released_signature u = has_released_signature s"
    by (simp_all add: u reset_ctx_def)
  then show "idle u" by (simp add: pczt_parser_new_def active_def)
  show "\<not> is_finished_flag u" by (simp add: u reset_ctx_def)
  show "logs u = logs s" using p by (simp add: logs_def)
  have f: "legacy_ok u" "device_wallet u = Pczt (wallet_of u)" using fresh_legacy [OF l] m p by auto
  then show "device_wallet u = Pczt Idle" using p(1) by simp
  have "session_inv E s" using inv by (simp add: device_inv_def)
  then have "session_inv E u"
    using p by (intro session_inv_new) (simp_all add: session_inv_def sinv_def swap_ok_def log_ok_def)
  then show "device_inv E u" using f by (simp add: device_inv_def)
qed

lemma wp_legacy_round [wp_simps]:
  "wp require_legacy_round Q R s =
     (if \<not> is_session_active (pczt_parser s) \<and> \<not> is_finished_flag s then Q () s else R (Fail BadState) s)"
  by (simp add: require_legacy_round_def get_p_def wp_simps)

lemma inactive_idle: "\<not> is_session_active (pczt_parser s) \<Longrightarrow> idle s"
  by (simp add: is_session_active_def active_def)

lemma wp_reset_new [wp_simps]:
  "wp (reset_for_new_transaction mode) Q R s =
     (if swap_closed s then R (Fail BadState) s else Q () (reset_ctx mode s))"
  by (simp add: reset_for_new_transaction_def wp_simps)

text \<open>Parsing a packet, and vouching for the input that completes, from a state the wallet may leave or
  keep.\<close>

definition parsed_from :: "world \<Rightarrow> world \<Rightarrow> bool" where
  "parsed_from u s' \<longleftrightarrow> (\<exists>s2. lrel u s2 \<and> tx_part s' = tx_part s2)"

lemma parsed_kept:
  assumes "device_inv E u" "idle u" "\<not> is_finished_flag u" "parsed_from u s'"
  shows "device_inv E s'" "device_wallet s' = device_wallet u" "logs s' = logs u"
proof -
  obtain s2 where s2: "lrel u s2" "tx_part s' = tx_part s2" using assms(4) by (auto simp: parsed_from_def)
  note k = lrel_kept [OF assms(1-3) s2(1)] tx_part_kept [OF s2(2)]
  show "device_inv E s'" using k(1,4) by simp
  show "device_wallet s' = device_wallet u" using k(2,5) by simp
  show "logs s' = logs u" using logs_simps(1) [OF s2(1)] logs_simps(2) [OF s2(2)] by simp
qed

definition trusted_tail :: "env \<Rightarrow> legacy_env \<Rightarrow> bytes \<Rightarrow> unit happ" where
  "trusted_tail E L data =
     bnd (map_err legacy_error_sw (legacy_parse E L data)) (\<lambda>_.
     bnd (gets legacy_parser) (\<lambda>p. when_do (lg_is_finished p) (issue_trusted_input E L)))"

lemma trusted_packet: "wp (trusted_tail E L data) (\<lambda>_. parsed_from u) (\<lambda>_ s'. logs s' = logs u) u"
  unfolding trusted_tail_def wp_bnd wp_map_err
  by (rule wp_legacy_parse) (auto simp: wp_simps parsed_from_def logs_simps(1) intro!: wp_issue split: fault.split)

lemma trusted_turn:
  assumes inv: "device_inv E s"
  shows "wp (handler_get_trusted_input E L first) (\<lambda>_ s'. device_inv E s' \<and> device_turn s s') (\<lambda>_. device_refused s) s"
proof (cases "comm_data s")
  case None
  then show ?thesis by (simp add: handler_get_trusted_input_def trusted_tail_def [symmetric] wp_simps logs_refused)
next
  case (Some data)
  show ?thesis
  proof (cases first)
    case True
    have "wp (trusted_tail E L d)
       (\<lambda>_ s'. device_inv E s' \<and> device_turn s s') (\<lambda>_. device_refused s)
       ((reset_ctx TrustedInput s)\<lparr> trusted_input_info := t \<rparr>)" for d t
    proof (rule wp_mono [OF trusted_packet])
      note f = fresh_inv [OF inv disjI1 [OF refl] refl, of t]
      show "device_inv E s' \<and> device_turn s s'"
        if "parsed_from ((reset_ctx TrustedInput s)\<lparr> trusted_input_info := t \<rparr>) s'" for s'
        using parsed_kept [OF f(1,3,4) that] f(2,5) by (simp add: left_turn)
      show "device_refused s s'" if "logs s' = logs ((reset_ctx TrustedInput s)\<lparr> trusted_input_info := t \<rparr>)" for s'
        using that f(5) by (simp add: logs_refused)
    qed
    then show ?thesis
      using Some True
      by (auto simp: handler_get_trusted_input_def trusted_tail_def [symmetric] begin_trusted_input_def wp_simps logs_refused logs_simps(3)
          set_transaction_trusted_input_idx_def legacy_update_eq(3) [of "\<lambda>t. t\<lparr> input_idx := Some i \<rparr>" for i]
          split: sum.split)
  next
    case False
    have "wp (trusted_tail E L d)
       (\<lambda>_ s'. device_inv E s' \<and> device_turn s s') (\<lambda>_. device_refused s) s"
      if "idle s" "\<not> is_finished_flag s" for d
      by (rule wp_mono [OF trusted_packet]) (use parsed_kept [OF inv that] in \<open>auto intro: kept_turn logs_refused\<close>)
    then show ?thesis
      using Some False by (simp add: inactive_idle handler_get_trusted_input_def trusted_tail_def [symmetric] wp_simps logs_refused)
  qed
qed

text \<open>The inputs of the transaction to sign: a first pass from a fresh context, a pass for a signature over
  the reviewed outputs, or another packet of a pass.\<close>

definition start_tail :: "env \<Rightarrow> legacy_env \<Rightarrow> unit happ" where
  "start_tail E L = bnd comm_get_data (\<lambda>data. map_err legacy_error_sw (legacy_parse E L data))"

lemma start_packet: "wp (start_tail E L) (\<lambda>_. parsed_from u) (\<lambda>_ s'. logs s' = logs u) u"
  unfolding start_tail_def wp_bnd wp_map_err wp_comm_get_data
  by (auto intro!: wp_legacy_parse simp: parsed_from_def split: fault.split option.split)

lemma resume_inv:
  assumes inv: "device_inv E s" and i: "idle s" and r: "seen s"
    and u: "u = s\<lparr> legacy_parser := p \<rparr>" "lg_state p = LgNone"
  shows "device_inv E u" "device_wallet u = device_wallet s" "logs u = logs s" "idle u"
    "is_finished_flag u = is_finished_flag s"
proof -
  have si: "session_inv E s" "legacy_ok s" using inv by (simp_all add: device_inv_def)
  have "session_inv E u"
    by (rule session_inv_idle [OF si(1) i]) (use session_inv_distinct [OF si(1)] in \<open>simp_all add: u\<close>)
  moreover have "legacy_ok u"
    using si(2) r i u(2) by (auto simp: u(1) legacy_ok_def ends_ok_def legacy_open_def lkey_def)
  ultimately show "device_inv E u" by (simp add: device_inv_def)
  show "device_wallet u = device_wallet s" by (auto simp: u device_wallet_def legacy_open_def wallet_of_def)
qed (use i in \<open>simp_all add: u logs_def\<close>)

lemma start_turn:
  assumes inv: "device_inv E s"
  shows "wp (handler_hash_input_start E L first cont) (\<lambda>_ s'. device_inv E s' \<and> device_turn s s')
    (\<lambda>_. device_refused s) s"
proof -
  have pass: "wp (start_tail E L) (\<lambda>_ s'. device_inv E s' \<and> device_turn s s') (\<lambda>_. device_refused s) u"
    if "device_inv E u" "idle u" "\<not> is_finished_flag u" "logs u = logs s"
      "device_wallet u = device_wallet s \<or> device_wallet u = Pczt Idle" for u
    by (rule wp_mono [OF start_packet])
      (use parsed_kept [OF that(1-3)] that(4,5) in \<open>auto intro: kept_turn left_turn logs_refused\<close>)
  have new: "wp (start_tail E L) (\<lambda>_ s'. device_inv E s' \<and> device_turn s s') (\<lambda>_. device_refused s)
      (reset_ctx Signature s)" if "\<not> swap_closed s"
  proof -
    have e: "reset_ctx Signature s = (reset_ctx Signature s)\<lparr> trusted_input_info := trusted_input_info_default \<rparr>"
      by (simp add: reset_ctx_def)
    show ?thesis by (rule pass) (use fresh_inv [OF inv disjI2 [OF that] e] in simp_all)
  qed
  have on: "wp (start_tail E L) (\<lambda>_ s'. device_inv E s' \<and> device_turn s s') (\<lambda>_. device_refused s) s"
    if "\<not> is_session_active (pczt_parser s)" "\<not> is_finished_flag s"
    by (rule pass [OF inv inactive_idle [OF that(1)] that(2)]) simp_all
  have again: "wp (start_tail E L) (\<lambda>_ s'. device_inv E s' \<and> device_turn s s') (\<lambda>_. device_refused s)
      (s\<lparr> legacy_parser := (legacy_parser_new Signature)\<lparr> lg_output_count := n \<rparr> \<rparr>)"
    if "\<not> is_session_active (pczt_parser s)" "\<not> is_finished_flag s" "seen s" for n
  proof -
    have "lg_state ((legacy_parser_new Signature)\<lparr> lg_output_count := n \<rparr>) = LgNone"
      by (simp add: legacy_parser_new_def)
    note r = resume_inv [OF inv inactive_idle [OF that(1)] that(3) refl this]
    show ?thesis by (rule pass) (use r that(2) in simp_all)
  qed
  show ?thesis
    unfolding handler_hash_input_start_def start_tail_def [symmetric] resume_signing_round_def
    by (simp add: wp_simps get_ti_def new on again logs_refused cong: wp_cong)
qed

text \<open>Its outputs.\<close>

lemma change_path_frame:
  "wp (install_change_path E data) (\<lambda>_ s'. \<exists>t. s' = s\<lparr> tx_info := t \<rparr>) (\<lambda>_ s'. logs s' = logs s) s"
  unfolding install_change_path_def
  by (auto simp: wp_simps logs_def split: sum.split)

lemma change_path_kept:
  assumes inv: "device_inv E s" and i: "idle s"
  shows "device_inv E (s\<lparr> tx_info := t \<rparr>)" "device_turn s (s\<lparr> tx_info := t \<rparr>)"
proof -
  have si: "session_inv E s" "legacy_ok s" using inv by (simp_all add: device_inv_def)
  have "session_inv E (s\<lparr> tx_info := t \<rparr>)"
    by (rule session_inv_idle [OF si(1) i]) (use session_inv_distinct [OF si(1)] in simp_all)
  then show "device_inv E (s\<lparr> tx_info := t \<rparr>)"
    using si(2) by (simp add: device_inv_def legacy_ok_def ends_ok_def legacy_open_def lkey_def)
  show "device_turn s (s\<lparr> tx_info := t \<rparr>)"
    by (rule kept_turn) (auto simp: logs_def device_wallet_def legacy_open_def wallet_of_def)
qed

lemma outputs_turn:
  assumes inv: "device_inv E s" and p: "is_presign_ready (legacy_parser s)" and o1: "\<not> outputs_done s"
  shows "lo_rel s s' \<Longrightarrow> device_inv E s' \<and> device_turn s s'" "lo_fail s s' \<Longrightarrow> device_refused s s'"
proof -
  have si: "session_inv E s" "legacy_ok s" using inv by (simp_all add: device_inv_def)
  have i: "idle s" "\<not> swap_closed s" "\<not> seen s" "ends_ok s"
    using si(2) p o1 by (auto simp: legacy_ok_def is_presign_ready_def ends_ok_def lkey_def)
  have w: "device_wallet s = Pczt Idle"
    using idle_pczt [OF si(1) i(1)] o1 by (simp add: device_wallet_def legacy_open_def)
  have d: "distinct (signed_ids (events s))" using session_inv_distinct [OF si(1)] .
  show "device_inv E s' \<and> device_turn s s'" if r: "lo_rel s s'"
  proof -
    have f: "lofoot s' = lofoot s" using r by (simp add: lo_rel_def)
    then have f': "pczt_parser s' = pczt_parser s" "swap_params s' = swap_params s" "seen s' = seen s"
        "has_released_signature s' = has_released_signature s" "legacy_parser s' = legacy_parser s"
      by (simp_all add: lofoot_def)
    have e': "ends_ok s'" using i(4) f' by (simp add: ends_ok_def lkey_def)
    show ?thesis
    proof (cases "outputs_done s' \<and> swap_params s \<noteq> None")
      case True
      then obtain outs fee where ev: "events s' = events s @ [SwapChecked outs fee]"
        using r by (auto simp: lo_rel_def swap_checked_def)
      have si': "session_inv E s'" by (rule session_inv_idle [OF si(1) i(1) f'(1,2)]) (simp add: ev)
      have "legacy_ok s'" using e' i f' True by (auto simp: legacy_ok_def ev)
      moreover have "device_wallet s' = Granted (SwapChecked outs fee)"
        using i f' True by (simp add: device_wallet_def legacy_open_def ev)
      ultimately show ?thesis
        using si' ev f' i(2)
        by (auto simp: device_inv_def device_turn_def w grows_def intro!: exI [of _ "[SwapChecked outs fee]"] legacy_granted)
    next
      case False
      then have ev: "events s' = events s" using r by (simp add: lo_rel_def split: if_splits)
      have si': "session_inv E s'" by (rule session_inv_idle [OF si(1) i(1) f'(1,2)]) (simp add: ev d)
      have l: "\<not> legacy_open s'" using False i(3) f' by (auto simp: legacy_open_def)
      then have "legacy_ok s'" using e' i f' by (auto simp: legacy_ok_def)
      moreover have "device_wallet s' = Pczt Idle"
        using l idle_pczt [OF si'] i(1) f' by (simp add: device_wallet_def)
      ultimately show ?thesis
        using si' ev f' by (simp add: device_inv_def left_turn logs_def)
    qed
  qed
  show "device_refused s s'" if lf: "lo_fail s s'"
  proof -
    have f: "swap_params s' = swap_params s" "has_released_signature s' = has_released_signature s"
      using lf by (simp_all add: lo_fail_def lofoot_def)
    show ?thesis
    proof (cases "events s' = events s")
      case False
      then obtain outs fee where "events s' = events s @ [SwapChecked outs fee]"
        using lf by (auto simp: lo_fail_def swap_checked_def)
      then show ?thesis
        using f i(2) by (auto simp: device_refused_def grows_def w intro!: exI [of _ "[SwapChecked outs fee]"])
    qed (use f in \<open>simp add: logs_refused logs_def\<close>)
  qed
qed

lemma finalize_turn:
  assumes inv: "device_inv E s"
  shows "wp (handler_hash_input_finalize_full E change) (\<lambda>_ s'. device_inv E s' \<and> device_turn s s')
    (\<lambda>_. device_refused s) s"
proof -
  have i: "idle s" if "is_presign_ready (legacy_parser s)"
    using inv that by (auto simp: device_inv_def legacy_ok_def is_presign_ready_def)
  have c: "wp (install_change_path E data) (\<lambda>_ s'. device_inv E s' \<and> device_turn s s') (\<lambda>_. device_refused s) s"
    if "is_presign_ready (legacy_parser s)" for data
    by (rule wp_mono [OF change_path_frame]) (auto simp: change_path_kept [OF inv i [OF that]] logs_refused)
  have o1: "wp (catch_err (lo_parse E data) on_output_error) (\<lambda>_ s'. device_inv E s' \<and> device_turn s s')
      (\<lambda>_. device_refused s) s" if "is_presign_ready (legacy_parser s)" "\<not> outputs_done s" for data
  proof -
    have "device_refused s (s'\<lparr> is_finished_flag := b \<rparr>)" if "device_refused s s'" for s' b
      using that by (simp add: device_refused_def grows_def)
    then show ?thesis
      unfolding wp_catch_err
      by (intro wp_mono [OF lo_parse_frame [OF that(2)]])
        (auto simp: outputs_turn [OF inv that] on_output_error_def wp_simps split: fault.split)
  qed
  show ?thesis
    unfolding handler_hash_input_finalize_full_def
    by (simp add: wp_comm_get_data wp_bnd wp_gets wp_ensure c o1 logs_refused split: option.split)
qed

text \<open>The review and the signatures.\<close>

definition sign_frame :: "world \<Rightarrow> world \<Rightarrow> bool" where
  "sign_frame s s' \<longleftrightarrow> pczt_parser s' = pczt_parser s \<and> legacy_parser s' = legacy_parser s
     \<and> legacy_output_parser s' = legacy_output_parser s \<and> swap_params s' = swap_params s"

definition header_done :: "world \<Rightarrow> world \<Rightarrow> bool" where
  "header_done s s' \<longleftrightarrow> sign_frame s s' \<and> has_released_signature s' = has_released_signature s
     \<and> seen s' \<and> is_extra_header_data_set s'
     \<and> (if swap_params s = None then \<exists>outs fee t lock expiry. events s' = events s @ [Reviewed outs fee t lock expiry True]
        else events s' = events s)"

definition header_refused :: "world \<Rightarrow> world \<Rightarrow> bool" where
  "header_refused s s' \<longleftrightarrow> logs s' = logs s
     \<or> has_released_signature s' = has_released_signature s \<and> swap_params s' = None \<and> swap_params s = None
       \<and> (\<exists>ev. is_review ev \<and> events s' = events s @ [ev])"

lemma hash_sign_header_frame:
  "wp (hash_sign_header E data) (\<lambda>_. header_done s) (\<lambda>_. header_refused s) s"
  unfolding hash_sign_header_def legacy_review_def ui_display_tx_def set_extra_header_data_def set_finished_def
  by (auto simp: wp_simps Let_def header_done_def sign_frame_def header_refused_def logs_def split: sum.split)

definition signature_done :: "world \<Rightarrow> world \<Rightarrow> bool" where
  "signature_done s s' \<longleftrightarrow> lg_is_ready_to_sign (legacy_parser s) \<and> sign_frame s s' \<and> has_released_signature s'
     \<and> seen s' = seen s \<and> is_extra_header_data_set s' = is_extra_header_data_set s
     \<and> (\<exists>i d p. events s' = events s @ [Signed KeyLegacy i d p])"

lemma hash_sign_signature_frame:
  "wp (hash_sign_signature E data) (\<lambda>_. signature_done s) (\<lambda>_ s'. logs s' = logs s) s"
  unfolding hash_sign_signature_def append_signature_def comm_append_def log_event_def note_signature_released_def
    count_legacy_signature_def set_finished_def
  by (auto simp: wp_simps Let_def signature_done_def sign_frame_def logs_def split: sum.split option.split)

lemma header_kept:
  assumes inv: "device_inv E s" and i: "idle s" and h: "outputs_done s" "\<not> is_extra_header_data_set s"
  shows "header_done s s' \<Longrightarrow> device_inv E s' \<and> device_turn s s'" "header_refused s s' \<Longrightarrow> device_refused s s'"
proof -
  have si: "session_inv E s" "legacy_ok s" using inv by (simp_all add: device_inv_def)
  have ns: "\<not> seen s" "ends_ok s" using si(2) h(2) by (auto simp: legacy_ok_def)
  have w: "device_wallet s = Pczt Idle" if "swap_params s = None"
    using idle_pczt [OF si(1) i] ns that by (simp add: device_wallet_def legacy_open_def)
  have d: "distinct (signed_ids (events s))" using session_inv_distinct [OF si(1)] .
  show "device_inv E s' \<and> device_turn s s'" if hd: "header_done s s'"
  proof -
    have f: "pczt_parser s' = pczt_parser s" "swap_params s' = swap_params s" "seen s'" "is_extra_header_data_set s'"
        "has_released_signature s' = has_released_signature s" "legacy_parser s' = legacy_parser s"
        "legacy_output_parser s' = legacy_output_parser s"
      using hd by (simp_all add: header_done_def sign_frame_def)
    have e': "ends_ok s'" using ns f by (auto simp: ends_ok_def lkey_def)
    have lo: "legacy_ok s'" if "\<exists>ev. latest_review (events s') = Some ev \<and> granted ev"
      using that e' f i h by (auto simp: legacy_ok_def)
    show ?thesis
    proof (cases "swap_params s")
      case None
      then obtain ev where ev: "events s' = events s @ [ev]" "granted ev" "is_review ev"
        using hd by (auto simp: header_done_def)
      have "session_inv E s'" by (rule session_inv_idle [OF si(1) i f(1,2)]) (simp add: ev)
      moreover have "device_wallet s' = Granted ev"
        using f i h by (simp add: device_wallet_def legacy_open_def ev)
      ultimately show ?thesis
        using lo ev f None by (auto simp: device_inv_def device_turn_def w grows_def intro!: exI [of _ "[ev]"] legacy_granted)
    next
      case (Some params)
      then have ev: "events s' = events s" using hd by (simp add: header_done_def)
      have "session_inv E s'" by (rule session_inv_idle [OF si(1) i f(1,2)]) (simp add: ev d)
      moreover have "device_wallet s' = device_wallet s"
        using f i h Some by (simp add: device_wallet_def legacy_open_def ev)
      moreover have "legacy_ok s'" using si(2) h Some by (intro lo) (auto simp: legacy_ok_def legacy_open_def ev)
      ultimately show ?thesis using f ev by (simp add: device_inv_def kept_turn logs_def)
    qed
  qed
  show "device_refused s s'" if "header_refused s s'"
  proof (cases "logs s' = logs s")
    case False
    then show ?thesis using that by (auto simp: header_refused_def device_refused_def grows_def w)
  qed (rule logs_refused)
qed

lemma signature_kept:
  assumes inv: "device_inv E s" and i: "idle s" and sg: "signature_done s s'"
  shows "device_inv E s' \<and> device_turn s s'"
proof -
  have si: "session_inv E s" "legacy_ok s" using inv by (simp_all add: device_inv_def)
  have f: "pczt_parser s' = pczt_parser s" "swap_params s' = swap_params s" "seen s' = seen s"
      "is_extra_header_data_set s' = is_extra_header_data_set s" "has_released_signature s'"
      "legacy_parser s' = legacy_parser s" "legacy_output_parser s' = legacy_output_parser s"
    using sg by (simp_all add: signature_done_def sign_frame_def)
  obtain j d p where ev: "events s' = events s @ [Signed KeyLegacy j d p]" using sg by (auto simp: signature_done_def)
  have r: "seen s" "outputs_done s" "legacy_open s"
    using si(2) sg by (auto simp: signature_done_def lg_is_ready_to_sign_def legacy_ok_def ends_ok_def lkey_def legacy_open_def)
  then obtain rv where rv: "latest_review (events s) = Some rv" "granted rv" using si(2) by (auto simp: legacy_ok_def)
  have "session_inv E s'"
    by (rule session_inv_idle [OF si(1) i f(1,2)]) (simp add: ev session_inv_distinct [OF si(1)])
  moreover have "legacy_ok s'"
    using si(2) f r rv i by (auto simp: legacy_ok_def ends_ok_def lkey_def legacy_open_def ev)
  moreover have "device_wallet s = Granted rv" "device_wallet s' = Granted rv"
    using f r rv i by (auto simp: device_wallet_def legacy_open_def ev)
  ultimately show ?thesis
    using ev f by (auto simp: device_inv_def device_turn_def grows_def intro!: exI [of _ "[Signed KeyLegacy j d p]"] legacy_signed)
qed

lemma hash_sign_turn:
  assumes inv: "device_inv E s"
  shows "wp (handler_hash_sign E) (\<lambda>_ s'. device_inv E s' \<and> device_turn s s') (\<lambda>_. device_refused s) s"
proof -
  have h: "wp (hash_sign_header E data) (\<lambda>_ s'. device_inv E s' \<and> device_turn s s') (\<lambda>_. device_refused s) s"
    if "\<not> is_session_active (pczt_parser s)" "outputs_done s" "\<not> is_extra_header_data_set s" for data
    by (rule wp_mono [OF hash_sign_header_frame])
      (use header_kept [OF inv inactive_idle [OF that(1)] that(2,3)] in simp_all)
  have g: "wp (hash_sign_signature E data) (\<lambda>_ s'. device_inv E s' \<and> device_turn s s') (\<lambda>_. device_refused s) s"
    if "\<not> is_session_active (pczt_parser s)" for data
    by (rule wp_mono [OF hash_sign_signature_frame])
      (use signature_kept [OF inv inactive_idle [OF that]] in \<open>simp_all add: logs_refused\<close>)
  show ?thesis
    unfolding handler_hash_sign_def get_p_def
    by (simp add: wp_comm_get_data wp_bnd wp_gets wp_ensure h g logs_refused split: option.split)
qed

section \<open>Every command\<close>

lemma device_handled:
  assumes E: "env_laws E" and inv: "device_inv E s"
  shows "wp (handle_apdu E A L ins) (\<lambda>_ s'. device_inv E s' \<and> device_turn s s')
    (\<lambda>_ s'. device_refused s s' \<and> (\<not> resets_on_error ins \<longrightarrow> tx_part s' = tx_part s)) s"
proof (cases "resets_on_error ins")
  case True
  then show ?thesis
    by (cases ins) (simp_all add: pczt_device_turn [OF E inv] trusted_turn [OF inv] start_turn [OF inv]
        finalize_turn [OF inv] hash_sign_turn [OF inv])
next
  case False
  show ?thesis
  proof (rule wpI)
    fix u s' assume m: "handle_apdu E A L ins s = (Inr u, s')"
    have t: "tx_part s' = tx_part s" by (rule keepsD [OF read_only [OF False] m])
    show "device_inv E s' \<and> device_turn s s'"
      using tx_part_kept [OF t] logs_simps(2) [OF t] inv by (simp add: kept_turn)
  next
    fix e s' assume m: "handle_apdu E A L ins s = (Inl e, s')"
    have t: "tx_part s' = tx_part s" by (rule keepsD [OF read_only [OF False] m])
    then show "device_refused s s' \<and> (\<not> resets_on_error ins \<longrightarrow> tx_part s' = tx_part s)"
      using logs_simps(2) [OF t] by (simp add: logs_refused)
  qed
qed

end
