(* ===== verification/Device_Session.thy ===== *)
theory Device_Session
  imports Device_Turns
begin

text \<open>
  Sessions of the whole device.  A session is a sequence of turns of the main loop over all
  instructions (\<open>Legacy_Handlers.apdu_turn\<close>) from a freshly initialised context: PCZT commands, legacy
  commands and read-only commands in any order.  Every turn keeps the invariant of the device and is a
  step of its abstract wallet.  Of the services, only the laws of the PCZT protocol are used.
\<close>

section \<open>Turns of the main loop\<close>

lemma receive_device [simp]:
  "tx_part (receive data s) = tx_part s" "comm_out (receive data s) = []"
  by (simp_all add: receive_def tx_part_def)

lemma receive_inv:
  "device_inv E (receive data s) = device_inv E s" "device_wallet (receive data s) = device_wallet s"
  by (rule tx_part_kept; simp)+

lemma receive_turns:
  "device_turn (receive data s) s' = device_turn s s'" "device_refused (receive data s) s' = device_refused s s'"
  by (simp_all add: device_turn_def device_refused_def grows_def receive_inv)

text \<open>The status screen only clears the flag that asks for it.\<close>

lemma status_screen_reads:
  "tx_part (snd (show_status_and_home_if_needed ins sw s)) = tx_part s"
  "comm_out (snd (show_status_and_home_if_needed ins sw s)) = comm_out s"
  "resets_on_error ins \<Longrightarrow> snd (show_status_and_home_if_needed ins sw s) = s"
  by (cases ins; simp add: show_status_and_home_if_needed_def tx_part_def split: option.split)+

lemma refused_reset:
  assumes inv: "device_inv E s" and r: "device_refused s s1"
  shows "device_inv E (reset_ctx TrustedInput s1)" "device_turn s (reset_ctx TrustedInput s1)"
proof -
  let ?u = "reset_ctx TrustedInput s1"
  have p: "pczt_parser ?u = pczt_parser_new" "events ?u = events s1" "swap_params ?u = swap_params s1"
      "has_released_signature ?u = has_released_signature s1"
    by (simp_all add: reset_ctx_def)
  obtain evs where e: "grows s s1 evs" "has_released_signature s1 = has_released_signature s"
      "evs = [] \<or> (\<exists>ev. is_review ev \<and> evs = [ev] \<and> device_wallet s \<in> {Pczt Idle, Pczt Parsing})"
    using r by (auto simp: device_refused_def)
  have f: "legacy_ok ?u" "device_wallet ?u = Pczt (wallet_of ?u)"
    using fresh_legacy [of ?u TrustedInput s1] by simp_all
  then have w: "device_wallet ?u = Pczt Idle" using p(1) by simp
  have "session_inv E s" using inv by (simp add: device_inv_def)
  then have "session_inv E ?u"
    using e by (intro session_inv_new) (auto simp: session_inv_def sinv_def swap_ok_def log_ok_def grows_def p)
  then show "device_inv E ?u" using f by (simp add: device_inv_def)
  have "device_step (device_wallet s) evs (Pczt Idle)"
    using e(3) by (auto intro: left legacy_refused pczt [OF refused])
  then show "device_turn s ?u"
    using e(1,2) by (auto simp: device_turn_def w grows_def p)
qed

text \<open>What a turn does to the device, and what it leaves when it is refused.\<close>

lemma apdu_turn_inv:
  assumes E: "env_laws E" and inv: "device_inv E s"
    and t: "apdu_turn E A L ins data s = (Some sw, b, s')"
  shows "device_inv E s'" "device_turn s s'"
    "sw \<noteq> app_sw.Ok \<Longrightarrow> \<exists>s1. handle_apdu E A L ins (receive data s) = (Inl (Fail sw), s1) \<and> device_refused s s1
       \<and> comm_out s' = comm_out s1
       \<and> (if resets_on_error ins then s' = reset_ctx TrustedInput s1 else tx_part s' = tx_part s)"
proof -
  have ri: "device_inv E (receive data s)" using inv by (simp add: receive_inv)
  note h = device_handled [OF E ri, of A L ins, unfolded receive_turns receive_device]
  obtain r s1 where m: "handle_apdu E A L ins (receive data s) = (r, s1)" by (rule prod.exhaust)
  have "device_inv E s' \<and> device_turn s s' \<and> (sw \<noteq> app_sw.Ok \<longrightarrow>
      (\<exists>s1. handle_apdu E A L ins (receive data s) = (Inl (Fail sw), s1) \<and> device_refused s s1
       \<and> comm_out s' = comm_out s1
       \<and> (if resets_on_error ins then s' = reset_ctx TrustedInput s1 else tx_part s' = tx_part s)))"
  proof (cases r)
    case (Inr u)
    let ?s2 = "snd (show_status_and_home_if_needed ins app_sw.Ok s1)"
    have e: "s' = ?s2" "sw = app_sw.Ok" using t m Inr by (auto simp: apdu_turn_def Let_def)
    have d: "device_inv E s1" "device_turn s s1" using wp_InrD [OF h m [unfolded Inr]] by simp_all
    note k = tx_part_kept [OF status_screen_reads(1) [of ins "app_sw.Ok" s1]]
      logs_simps(2) [OF status_screen_reads(1) [of ins "app_sw.Ok" s1]]
    have "device_turn s ?s2" using d(2) k(2,3) by (simp add: device_turn_def grows_def logs_def)
    then show ?thesis using d(1) k(1) e by simp
  next
    case (Inl f)
    then obtain x where f: "f = Fail x" "sw = x" using t m by (cases f) (auto simp: apdu_turn_def Let_def)
    let ?s2 = "snd (show_status_and_home_if_needed ins sw s1)"
    have s': "s' = (if resets_on_error ins then reset_ctx TrustedInput ?s2 else ?s2)"
      using t m Inl f by (auto simp: apdu_turn_def Let_def)
    have d: "device_refused s s1" "\<not> resets_on_error ins \<longrightarrow> tx_part s1 = tx_part s"
      using h m Inl f by (simp_all add: wp_def)
    show ?thesis
    proof (cases "resets_on_error ins")
      case True
      then have "s' = reset_ctx TrustedInput s1" using s' status_screen_reads(3) by simp
      then show ?thesis
        using refused_reset [OF inv d(1)] d m Inl f True by (auto simp: reset_ctx_def)
    next
      case False
      then have p: "tx_part s' = tx_part s" using s' d(2) status_screen_reads(1) by simp
      then show ?thesis
        using tx_part_kept [OF p] logs_simps(2) [OF p] inv m Inl f d(1) False s' status_screen_reads(2)
        by (simp add: kept_turn)
    qed
  qed
  then show "device_inv E s'" "device_turn s s'"
    "sw \<noteq> app_sw.Ok \<Longrightarrow> \<exists>s1. handle_apdu E A L ins (receive data s) = (Inl (Fail sw), s1) \<and> device_refused s s1
       \<and> comm_out s' = comm_out s1
       \<and> (if resets_on_error ins then s' = reset_ctx TrustedInput s1 else tx_part s' = tx_part s)"
    by blast+
qed

text \<open>On a PCZT command the main loop is \<open>main_turn\<close>.\<close>

lemma apdu_turn_pczt:
  "apdu_turn E A L (PcztCommand i) data s = (case main_turn E i data s of
     (r, s') \<Rightarrow> (r, r \<noteq> None \<and> swap_exit E i data s, s'))"
proof -
  have st: "snd (show_status_and_home_if_needed (PcztCommand i) sw s1) = s1" for sw s1
    by (rule status_screen_reads(3)) simp
  obtain r s1 where m: "handle_pczt_apdu E i (receive data s) = (r, s1)" by (rule prod.exhaust)
  have sw: "swap_params (reset_ctx TrustedInput s1) = swap_params s1" by (simp add: reset_ctx_def)
  show ?thesis
  proof (cases r)
    case (Inl f)
    then show ?thesis by (cases f) (simp_all add: apdu_turn_def main_turn_def swap_exit_def m st sw Let_def)
  qed (simp add: apdu_turn_def main_turn_def swap_exit_def m st Let_def)
qed

section \<open>Sessions\<close>

text \<open>The states the main loop reaches, in normal mode or for a request of the Exchange application.
  A turn that panicked has no state after it; the turns after the one that returns to the Exchange
  application are counted as well, since nothing shown here rests on its return.\<close>

inductive session :: "env \<Rightarrow> account_env \<Rightarrow> legacy_env \<Rightarrow> create_tx_params option \<Rightarrow> world \<Rightarrow> bool" for E A L params where
  opened: "events w = [] \<Longrightarrow> session E A L params (init_in_place params TrustedInput w)"
| turn: "session E A L params s \<Longrightarrow> apdu_turn E A L ins data s = (Some sw, b, s') \<Longrightarrow> session E A L params s'"

lemma session_pczt:
  assumes "session E A L params s" "main_turn E i data s = (Some sw, s')"
  shows "session E A L params s'"
proof -
  have "apdu_turn E A L (PcztCommand i) data s = (Some sw, swap_exit E i data s, s')"
    unfolding apdu_turn_pczt assms(2) by simp
  then show ?thesis by (rule session.turn [OF assms(1)])
qed

definition params_ok :: "create_tx_params option \<Rightarrow> bool" where
  "params_ok params \<longleftrightarrow> (case params of None \<Rightarrow> True | Some r \<Rightarrow> swap_params_wf r)"

text \<open>The logs of the abstract wallet.\<close>

inductive device_run :: "event list \<Rightarrow> device_wallet \<Rightarrow> bool" where
  start: "device_run [] (Pczt Idle)"
| next_turn: "device_run evs w \<Longrightarrow> device_step w new w' \<Longrightarrow> device_run (evs @ new) w'"

lemma init_simps [simp]:
  "pczt_parser (init_in_place params mode w) = pczt_parser_new" "events (init_in_place params mode w) = events w"
  "swap_params (init_in_place params mode w) = params" "has_released_signature (init_in_place params mode w) = False"
  "legs (init_in_place params mode w) = legs (reset_ctx mode w)"
  by (simp_all add: init_in_place_def legs_def)

lemma session_induct_inv:
  assumes E: "env_laws E" and params: "params_ok params" and s: "session E A L params s"
  shows "device_inv E s \<and> device_run (events s) (device_wallet s) \<and> swap_params s = params"
  using s
proof induction
  case (opened w)
  let ?s = "init_in_place params TrustedInput w"
  have "session_inv E ?s"
    using params opened by (intro session_inv_new) (simp_all add: swap_ok_def params_ok_def signed_ids_def)
  moreover have "legacy_ok ?s" "device_wallet ?s = Pczt (wallet_of ?s)"
    using fresh_legacy [of ?s TrustedInput w] by simp_all
  ultimately show ?case using opened by (simp add: device_inv_def start)
next
  case (turn s ins data sw b s')
  have inv: "device_inv E s" using turn.IH by simp
  note t = apdu_turn_inv [OF E inv turn.hyps(2)]
  obtain new where "events s' = events s @ new" "device_step (device_wallet s) new (device_wallet s')"
      "swap_params s' = swap_params s"
    using t(2) by (auto simp: device_turn_def grows_def)
  then show ?case using t(1) turn.IH by (auto intro: next_turn)
qed

lemma session_facts:
  assumes "env_laws E" "params_ok params" "session E A L params s"
  shows "session_inv E s" "sinv E s" "pinv E s" "device_inv E s" "device_run (events s) (device_wallet s)"
    "swap_params s = params"
  using session_induct_inv [OF assms] by (simp_all add: device_inv_def session_inv_def sinv_def)

text \<open>What the abstract wallet guarantees of its logs.\<close>

definition log_granted :: "event list \<Rightarrow> bool" where
  "log_granted evs \<longleftrightarrow> (\<forall>pre k i d path1 post. evs = pre @ [Signed k i d path1] @ post \<longrightarrow>
     (\<exists>ev. latest_review pre = Some ev \<and> granted ev) \<and> (k \<noteq> KeyLegacy \<longrightarrow> (k, i) \<notin> set (signed_ids pre)))"

lemma log_granted_Nil [simp]: "log_granted []"
  by (simp add: log_granted_def)

lemma log_granted_snoc [simp]:
  "log_granted (evs @ [ev]) \<longleftrightarrow> log_granted evs \<and> (\<forall>k i d path1. ev = Signed k i d path1 \<longrightarrow>
     (\<exists>ev. latest_review evs = Some ev \<and> granted ev) \<and> (k \<noteq> KeyLegacy \<longrightarrow> (k, i) \<notin> set (signed_ids evs)))"
proof -
  have split: "evs @ [ev] = pre @ [x] @ post \<longleftrightarrow>
      pre = evs \<and> x = ev \<and> post = [] \<or> (\<exists>post'. post = post' @ [ev] \<and> evs = pre @ [x] @ post')" for pre x post
    by (cases post rule: rev_cases) auto
  show ?thesis unfolding log_granted_def split by blast
qed

lemma device_run_log:
  assumes "device_run evs w"
  shows "log_granted evs
    \<and> (\<forall>ev ids. w = Pczt (Approved ev ids) \<longrightarrow> latest_review evs = Some ev \<and> granted ev \<and> signed_ids evs = ids)
    \<and> (\<forall>ev. w = Granted ev \<longrightarrow> latest_review evs = Some ev \<and> granted ev)"
  using assms
proof induction
  case (next_turn evs w new w')
  have g: "granted ev \<Longrightarrow> is_review ev" for ev by (cases ev) simp_all
  from next_turn.hyps(2) next_turn.IH show ?case
  proof (cases rule: device_step.cases)
    case (pczt v v')
    from pczt(3) next_turn.IH show ?thesis
      unfolding pczt(1,2) by (cases rule: wallet_step.cases) (auto dest: g)
  qed (auto dest: g)
qed simp

end
