(* ===== verification/Pczt_Example.thy ===== *)
theory Pczt_Example
  imports Device_Session Example_Device
begin

text \<open>
  A concrete session on the example device, on which the statements about sessions are instantiated:
  the commands of a transaction with one transparent input and one transparent output, up to its
  signature.
\<close>

section \<open>A session\<close>

definition ex_script :: bytes where
  "ex_script = 25 # p2pkh_script (replicate 20 7)"

definition ex_turns :: "(instruction \<times> bytes) list" where
  "ex_turns = [
     (PcztHeader, MAGIC_BYTES @ [1, 0, 0, 0, 5, 0, 0, 0, 0x0A, 0x27, 0xA7, 0x26, 0xF0, 0x4D, 0xEC, 0x4D, 0]
        @ [0, 0, 0, 0, 133, 0, 0, 0, 0]),
     (PcztTransparentInput True False, [1]),
     (PcztTransparentInput False False, replicate 36 9 @ [0] @ [0xA0, 0x86, 1, 0, 0, 0, 0, 0]),
     (PcztTransparentInput False False, ex_script),
     (PcztTransparentInput False True, [1, 1] @ 2 # zeros 32 @ zeros 32
        @ encode_path [hardened 44, hardened 133, hardened 0, 0, 0]),
     (PcztTransparentOutput True False, [1]),
     (PcztTransparentOutput False False, [0x90, 0x5F, 1, 0, 0, 0, 0, 0]),
     (PcztTransparentOutput False False, ex_script),
     (PcztTransparentOutput False True, [0]),
     (PcztOrchardAction True True True, [0])]"

text \<open>The answers to a series of commands, and the state after them.\<close>

fun run_turns :: "env \<Rightarrow> (instruction \<times> bytes) list \<Rightarrow> world \<Rightarrow> app_sw option list \<times> world" where
  "run_turns E [] s = ([], s)"
| "run_turns E ((ins, data) # ts) s =
     (case main_turn E ins (Some data) s of (r, s') \<Rightarrow> (case run_turns E ts s' of (rs, s'') \<Rightarrow> (r # rs, s'')))"

lemma run_session:
  "session E A L params s \<Longrightarrow> None \<notin> set (fst (run_turns E ts s)) \<Longrightarrow> session E A L params (snd (run_turns E ts s))"
proof (induction ts arbitrary: s)
  case (Cons t ts)
  obtain ins data r s' where t: "t = (ins, data)" "main_turn E ins (Some data) s = (r, s')"
    by (cases t; cases "main_turn E (fst t) (Some (snd t)) s") auto
  obtain rs s'' where u: "run_turns E ts s' = (rs, s'')" by fastforce
  have n: "None \<notin> set rs" and "\<exists>sw. r = Some sw" using Cons.prems(2) by (cases r; simp add: t u)+
  then have "session E A L params s'" using session_pczt [OF Cons.prems(1)] t(2) by blast
  then show ?case using Cons.IH [of s'] n by (simp add: t u)
qed simp

definition ex_approved :: world where
  "ex_approved = snd (run_turns ex_env ex_turns ex_start)"

text \<open>The device runs the session: every command is accepted, the review is approved, and the input is
  signed.\<close>

lemma ex_run:
  "case run_turns ex_env ex_turns ex_start of (rs, s) \<Rightarrow>
     rs = replicate 10 (Some app_sw.Ok) \<and> is_finished (pczt_parser s)
     \<and> length (transparent_inputs (pczt_parser s)) = 1 \<and> \<not> in_signed (transparent_inputs (pczt_parser s) ! 0)
     \<and> length (outputs (tx_info s)) = 1 \<and> length (events s) = 1
     \<and> (case handle_pczt_apdu ex_env (PcztSignTransparent 0) (receive (Some []) s) of
            (Inr _, s') \<Rightarrow> length (events s') = 2 \<and> \<not> is_review (events s' ! 1)
          | (Inl _, _) \<Rightarrow> False)"
  by code_simp

lemma ex_approved_facts:
  "is_finished (pczt_parser ex_approved)" "length (transparent_inputs (pczt_parser ex_approved)) = 1"
  "\<not> in_signed (transparent_inputs (pczt_parser ex_approved) ! 0)" "length (outputs (tx_info ex_approved)) = 1"
  "length (events ex_approved) = 1"
  using ex_run by (simp_all add: ex_approved_def split_beta)

text \<open>With whatever services the other commands have.\<close>

lemma ex_session: "session ex_env A L None ex_start" "session ex_env A L None ex_approved"
proof -
  show s: "session ex_env A L None ex_start" unfolding ex_start_def by (rule session.opened) simp
  have "None \<notin> set (fst (run_turns ex_env ex_turns ex_start))" using ex_run by (simp add: split_beta)
  with s show "session ex_env A L None ex_approved" unfolding ex_approved_def by (rule run_session)
qed

lemma ex_signed:
  obtains s' ev k i d path1 where
    "handle_pczt_apdu ex_env (PcztSignTransparent 0) (receive (Some []) ex_approved) = (Inr (), s')"
    "main_turn ex_env (PcztSignTransparent 0) (Some []) ex_approved = (Some app_sw.Ok, s')"
    "\<And>A L. session ex_env A L None s'" "events s' = [ev] @ [Signed k i d path1] @ []"
proof -
  have run: "case handle_pczt_apdu ex_env (PcztSignTransparent 0) (receive (Some []) ex_approved) of
      (Inr _, s') \<Rightarrow> length (events s') = 2 \<and> \<not> is_review (events s' ! 1) | (Inl _, _) \<Rightarrow> False"
    using ex_run unfolding ex_approved_def split_beta by (elim conjE)
  obtain r s' where p: "handle_pczt_apdu ex_env (PcztSignTransparent 0) (receive (Some []) ex_approved) = (r, s')"
    by (rule prod.exhaust)
  have h: "handle_pczt_apdu ex_env (PcztSignTransparent 0) (receive (Some []) ex_approved) = (Inr (), s')"
      and e: "length (events s') = 2" "\<not> is_review (events s' ! 1)"
    using run unfolding p by (cases r; simp)+
  have t: "main_turn ex_env (PcztSignTransparent 0) (Some []) ex_approved = (Some app_sw.Ok, s')"
    using h by (simp add: main_turn_def)
  have "events s' = [events s' ! 0, events s' ! 1]"
    using e(1) by (auto simp: length_Suc_conv numeral_2_eq_2)
  moreover obtain k i d path1 where "events s' ! 1 = Signed k i d path1" using e(2) by (cases "events s' ! 1") auto
  ultimately show ?thesis using that h t session_pczt [OF ex_session(2) t] by auto
qed

lemma ex_params: "params_ok None"
  by (simp add: params_ok_def)

end
