(* ===== verification/Pczt_Theorems.thy ===== *)
theory Pczt_Theorems
  imports Pczt_Example
begin

text \<open>
  What holds of PCZT transactions in the sessions of the device, which may run commands of the other
  kinds in between: the theorems about the reachable states and about the turns on PCZT commands, each
  instantiated on the session of \<open>Pczt_Example\<close>.
\<close>

section \<open>Turns\<close>

lemma handled_main_turn:
  "handle_pczt_apdu E ins (receive data s) = (Inr u, s') \<Longrightarrow> main_turn E ins data s = (Some app_sw.Ok, s')"
  by (simp add: main_turn_def)

lemma pinv_receive: "pinv E (receive data s) = pinv E s"
  by (simp add: receive_def pinv_def review_ok_def)

section \<open>The state between commands\<close>

text \<open>C8: The invariant of the PCZT part of the state holds between any two commands of any session, PCZT
  commands and all others: the parser's structure, the agreement of retained data, running hashers and digests, the review
  bookkeeping, the signing counters and the log of events.\<close>

theorem session_invariant:
  assumes "env_laws E" "params_ok params" "session E A L params s"
  shows "session_inv E s"
  using session_facts(1) [OF assms] .

lemma session_invariant_witness: "session_inv ex_env ex_approved"
  by (rule session_invariant [OF ex_env_laws ex_params ex_session(2)])

text \<open>C9: No PCZT command panics or loops: in every state of a session each PCZT instruction, with any
  data, is answered with a status word, and the fuel of the packet loops is enough.\<close>

theorem main_turn_answers:
  assumes "env_laws E" "params_ok params" "session E A L params s"
  shows "\<exists>sw s'. main_turn E ins data s = (Some sw, s')"
  using main_turn_inv [OF assms(1) session_facts(1) [OF assms], of ins data] by blast

lemma main_turn_answers_witness:
  "\<exists>sw s'. main_turn ex_env (PcztTransparentInput True True) (Some [3, 1, 4]) ex_approved = (Some sw, s')"
  by (rule main_turn_answers [OF ex_env_laws ex_params ex_session(2)])

section \<open>What is signed\<close>

lemma list_all2_member: "list_all2 P xs ys \<Longrightarrow> y \<in> set ys \<Longrightarrow> \<exists>x \<in> set xs. P x y"
  by (induction rule: list_all2_induct) auto

text \<open>The outputs and the fee of a review.\<close>

fun shown_outputs :: "event \<Rightarrow> tx_output list" where
  "shown_outputs (Reviewed outs fee transfer lock expiry ok) = outs"
| "shown_outputs (SwapChecked outs fee) = outs"
| "shown_outputs (Signed k i d p) = []"

fun shown_fee :: "event \<Rightarrow> u64" where
  "shown_fee (Reviewed outs fee transfer lock expiry ok) = fee"
| "shown_fee (SwapChecked outs fee) = fee"
| "shown_fee (Signed k i d p) = 0"

lemma approves_shown: "approves ev t f \<Longrightarrow> shown_outputs ev = outputs t \<and> int (unat (shown_fee ev)) = f"
  by (cases ev) simp_all

lemma amount_sum_pools: "amount_sum (outputs t) = amount_sum (transparent_outs t) + amount_sum (shielded_outs t)"
proof -
  have "amount_sum outs = amount_sum (filter (\<lambda>out. out_pool out = PoolTransparent) outs)
      + amount_sum (filter (\<lambda>out. out_pool out = PoolOrchard) outs)" for outs
  proof (induction outs)
    case (Cons out outs)
    then show ?case by (cases "out_pool out") (simp_all add: amount_sum_def)
  qed (simp add: amount_sum_def)
  then show ?thesis unfolding transparent_outs_def shielded_outs_def .
qed

lemma approved_state:
  assumes "pinv E s" "outputs_reviewed (pczt_parser s)"
  shows "parsed_all (pczt_parser s) (tx_info s)" "inputs_ok E (pczt_parser s) (hashers s) (tx_info s)"
    "\<exists>raws. outputs_ok E raws (pczt_parser s) (hashers s) (tx_info s)" "change_ok (tx_info s)" "budget_ok (tx_info s)"
    "shielded_ok (pczt_parser s) (tx_info s)" "struct_ok (pczt_parser s)" "review_ok s"
    "\<exists>ev. latest_review (events s) = Some ev \<and> approves ev (tx_info s) (session_fee (pczt_parser s) (tx_info s))"
    "\<not> inputs_open (pz_state (pczt_parser s))" "\<not> outputs_open (pz_state (pczt_parser s))"
    "\<not> in_head (pz_state (pczt_parser s))" "\<not> out_head (pz_state (pczt_parser s))"
    "\<not> in_script (pz_state (pczt_parser s))" "\<not> out_script (pz_state (pczt_parser s))"
    "pz_state (pczt_parser s) \<noteq> WaitTransparentInputsCount" "pz_state (pczt_parser s) \<noteq> TransparentInputsDone"
proof -
  have a: "active (pz_state (pczt_parser s))" using assms by (rule reviewed_active)
  show "parsed_all (pczt_parser s) (tx_info s)" "inputs_ok E (pczt_parser s) (hashers s) (tx_info s)"
    "\<exists>raws. outputs_ok E raws (pczt_parser s) (hashers s) (tx_info s)" "change_ok (tx_info s)" "budget_ok (tx_info s)"
    "shielded_ok (pczt_parser s) (tx_info s)" "struct_ok (pczt_parser s)" "review_ok s"
    "\<exists>ev. latest_review (events s) = Some ev \<and> approves ev (tx_info s) (session_fee (pczt_parser s) (tx_info s))"
    using assms a by (simp_all add: pinv_def review_ok_def)
  then show "\<not> inputs_open (pz_state (pczt_parser s))" "\<not> outputs_open (pz_state (pczt_parser s))"
    "\<not> in_head (pz_state (pczt_parser s))" "\<not> out_head (pz_state (pczt_parser s))"
    "\<not> in_script (pz_state (pczt_parser s))" "\<not> out_script (pz_state (pczt_parser s))"
    "pz_state (pczt_parser s) \<noteq> WaitTransparentInputsCount" "pz_state (pczt_parser s) \<noteq> TransparentInputsDone"
    by (auto simp: parsed_all_def split: if_splits)
qed

text \<open>C6: An accepted command to sign the transparent input \<open>i\<close> returns the signature, by the key of the
  path recorded for that input, of its ZIP-244 digest for the transaction held by the device, with
  the type \<open>SIGHASH_ALL\<close>; the input was not signed before, and its account is that of the hidden
  change.\<close>

theorem transparent_signature_exact:
  assumes "env_laws E" "params_ok params" "session E A L params s"
    and "handle_pczt_apdu E (PcztSignTransparent i) (receive data s) = (Inr (), s')"
    and "inp = transparent_inputs (pczt_parser s) ! i"
  shows "i < length (transparent_inputs (pczt_parser s)) \<and> \<not> in_signed inp
    \<and> (\<forall>account. change_account (tx_info s) = Some account \<longrightarrow> derivation_account (in_path inp) = Some account)
    \<and> (\<exists>sig info. secp256k1_deterministic_sign E (as_slice (in_path inp))
          (zip244_sighash E (tx_info s) (SomeTransparentInputs
            (zip244_txin E (in_prevout inp) (in_amount inp) (in_script_pubkey inp) (in_sequence inp)))) = Some (sig, info)
        \<and> comm_out s' = set_parity sig info @ [SIGHASH_ALL])"
proof -
  have "pinv E (receive data s)" using session_facts(3) [OF assms(1-3)] by (simp add: pinv_receive)
  then have "signed_transparent E i (receive data s) s'"
    using assms(4) sign_transparent_wp by (auto dest: wp_InrD)
  then show ?thesis
    by (simp add: signed_transparent_def Let_def input_sighash_def same_account_def assms(5))
qed

lemma transparent_signature_exact_witness:
  "\<exists>s' sig info. handle_pczt_apdu ex_env (PcztSignTransparent 0) (receive (Some []) ex_approved) = (Inr (), s')
     \<and> comm_out s' = set_parity sig info @ [SIGHASH_ALL]"
proof (rule ex_signed)
  fix s' assume h: "handle_pczt_apdu ex_env (PcztSignTransparent 0) (receive (Some []) ex_approved) = (Inr (), s')"
  obtain sig info where c: "comm_out s' = set_parity sig info @ [SIGHASH_ALL]"
    using transparent_signature_exact [OF ex_env_laws ex_params ex_session(2) h refl] by (elim conjE exE) blast
  show ?thesis by (rule exI [of _ s'], rule exI [of _ sig], rule exI [of _ info], rule conjI [OF h c])
qed

text \<open>C3: The digests that enter every signature of an approved session commit to exactly the
  transparent inputs retained for signing and to a list of outputs that the review displays one by
  one: same amounts, the address of the script, and hidden only where the script pays to a key of
  the device on the change branch of the recorded account.\<close>

theorem digests_commit_to_review:
  assumes "env_laws E" "params_ok params" "session E A L params s" "outputs_reviewed (pczt_parser s)"
    and "ins = transparent_inputs (pczt_parser s)" "ti = tx_info s"
  shows "length ins = transparent_input_count (pczt_parser s)
    \<and> prevouts_hash ti = blake_of E ZCASH_PREVOUTS_HASH_PERSONALIZATION (concat (map in_prevout ins))
    \<and> sequence_hash ti = blake_of E ZCASH_SEQUENCE_HASH_PERSONALIZATION
         (concat (map (\<lambda>i. u32_to_le_bytes (in_sequence i)) ins))
    \<and> amounts_hash ti = blake_of E ZCASH_TRANSPARENT_AMOUNTS_HASH_PERSONALIZATION (concat (map in_amount ins))
    \<and> scripts_hash ti = blake_of E ZCASH_TRANSPARENT_SCRIPTS_HASH_PERSONALIZATION
         (concat (map (\<lambda>i. ser_script E (in_script_pubkey i)) ins))
    \<and> (\<exists>ev raws. latest_review (events s) = Some ev
         \<and> approves ev ti (session_fee (pczt_parser s) ti)
         \<and> length raws = transparent_output_count (pczt_parser s)
         \<and> outputs_hash ti = blake_of E ZCASH_OUTPUTS_HASH_PERSONALIZATION (concat (map (ser_output E) raws))
         \<and> list_all2 (displays E (change_account ti)) raws
              (filter (\<lambda>out. out_pool out = PoolTransparent) (outputs ti)))"
proof -
  note a = approved_state [OF session_facts(3) [OF assms(1-3)] assms(4)]
  from a(3) obtain raws where o: "outputs_ok E raws (pczt_parser s) (hashers s) (tx_info s)" by blast
  show ?thesis
    using a(2) a(9-17) o assms(5,6)
    by (auto simp: inputs_ok_def input_counts_ok_def input_digests_ok_def digest_of_def prevouts_data_def
        sequence_data_def amounts_data_def scripts_data_def outputs_ok_def output_counts_ok_def outputs_data_def
        transparent_outs_def)
qed

text \<open>C4: Conservation of value.  The fee and the outputs of the granted review are, to the last
  zatoshi, the value of the transparent inputs and of the shielded spends of the transaction.\<close>

theorem reviewed_fee_is_exact:
  assumes "env_laws E" "params_ok params" "session E A L params s" "outputs_reviewed (pczt_parser s)"
  shows "\<exists>ev. latest_review (events s) = Some ev
    \<and> input_total (transparent_inputs (pczt_parser s))
        + unat (orchard_spend_value_sum (pczt_parser s)) + unat (ironwood_spend_value_sum (pczt_parser s))
      = unat (shown_fee ev) + amount_sum (shown_outputs ev)"
proof -
  note a = approved_state [OF session_facts(3) [OF assms(1-3)] assms(4)]
  let ?p = "pczt_parser s" and ?t = "tx_info s"
  obtain ev where ev: "latest_review (events s) = Some ev" "approves ev ?t (session_fee ?p ?t)" using a(9) by blast
  obtain raws where "outputs_ok E raws ?p (hashers s) ?t" using a(3) by blast
  then have out: "unat (total_output_amount ?p) = amount_sum (transparent_outs ?t)"
    using a(13) by (simp add: outputs_ok_def)
  have inp: "unat (total_amount ?t) = input_total (transparent_inputs ?p)"
    using a(2,12) by (simp add: inputs_ok_def)
  have v: "view_ok (pool_phase pl (pz_state ?p)) pl (view pl ?p)" for pl using a(6) by (simp add: shielded_ok_def)
  have bal: "bn_balance (view pl ?p) = int (unat (bn_spend_sum (view pl ?p))) - int (unat (bn_output_sum (view pl ?p)))" for pl
    using v [of pl] a(1) by (cases pl)
      (auto simp: parsed_all_def view_ok_def empty_view_def split: if_splits)
  have sums: "unat (orchard_output_value_sum ?p) + unat (ironwood_output_value_sum ?p) = amount_sum (shielded_outs ?t)"
    using a(6) by (simp add: shielded_ok_def)
  have "int (unat (shown_fee ev)) = session_fee ?p ?t" "shown_outputs ev = outputs ?t"
    using approves_shown [OF ev(2)] by simp_all
  then have "input_total (transparent_inputs ?p) + unat (orchard_spend_value_sum ?p) + unat (ironwood_spend_value_sum ?p)
      = unat (shown_fee ev) + amount_sum (shown_outputs ev)"
    using bal [of OrchardPool] bal [of IronwoodPool] sums inp out
      amount_sum_pools [of ?t]
    unfolding session_fee_def by (simp del: of_nat_unat)
  with ev(1) show ?thesis by blast
qed

text \<open>C5: At most one output of a transaction is hidden from the review as change, and then the
  account whose keys may sign is recorded; a hidden transparent output carries the address of a script
  that pays to a key the device derives on the change branch of that account.\<close>

theorem hidden_change_is_own:
  assumes "env_laws E" "params_ok params" "session E A L params s" "outputs_reviewed (pczt_parser s)"
  shows "\<exists>ev. latest_review (events s) = Some ev \<and> length (filter out_is_change (shown_outputs ev)) \<le> 1
    \<and> (\<forall>out \<in> set (shown_outputs ev). out_is_change out \<longrightarrow> change_account (tx_info s) \<noteq> None
         \<and> (out_pool out = PoolTransparent \<longrightarrow>
              (\<exists>scr. own_change E scr (change_account (tx_info s)) \<and> from_output_script E scr = Inr (out_address out))))"
proof -
  note a = approved_state [OF session_facts(3) [OF assms(1-3)] assms(4)]
  obtain ev where ev: "latest_review (events s) = Some ev" "shown_outputs ev = outputs (tx_info s)"
    using a(9) approves_shown by blast
  obtain raws where o: "outputs_ok E raws (pczt_parser s) (hashers s) (tx_info s)" using a(3) by blast
  have "\<exists>scr. own_change E scr (change_account (tx_info s)) \<and> from_output_script E scr = Inr (out_address out)"
    if "out \<in> set (outputs (tx_info s))" "out_is_change out" "out_pool out = PoolTransparent" for out
  proof -
    have "out \<in> set (transparent_outs (tx_info s))" using that by (simp add: transparent_outs_def)
    moreover have "list_all2 (displays E (change_account (tx_info s))) raws (transparent_outs (tx_info s))"
      using o by (simp add: outputs_ok_def)
    ultimately obtain r where "displays E (change_account (tx_info s)) r out"
      by (metis list_all2_member)
    then show ?thesis using that(2) by (auto simp: displays_def)
  qed
  moreover have "length (filter out_is_change (outputs (tx_info s))) \<le> 1"
    using a(4) by (simp add: change_ok_def split: if_splits)
  ultimately show ?thesis
    using a(4) ev by (intro exI [of _ ev]) (auto simp: change_ok_def list_ex_iff)
qed

text \<open>C13: The memory an open session takes is bounded: at most 32 inputs, 10 transparent outputs and 32
  actions per pool are retained, at most 4 shielded outputs are displayed, and their memos take at most
  1024 bytes.\<close>

theorem session_is_bounded:
  assumes "env_laws E" "params_ok params" "session E A L params s" "wallet_of s \<noteq> Idle"
  shows "length (transparent_inputs (pczt_parser s)) \<le> 32 \<and> length (transparent_outs (tx_info s)) \<le> 10
    \<and> length (orchard_signing_records (pczt_parser s)) \<le> 32 \<and> length (ironwood_signing_records (pczt_parser s)) \<le> 32
    \<and> displayed_shielded_outputs (tx_info s) \<le> 4 \<and> retained_memo_bytes (tx_info s) \<le> 1024"
proof -
  have i: "pinv E s" using session_facts(3) [OF assms(1-3)] .
  have ac: "active (pz_state (pczt_parser s))" using assms(4) by (auto simp: wallet_of_defs split: if_splits)
  have c: "input_counts_ok (pczt_parser s)" "budget_ok (tx_info s)" "shielded_ok (pczt_parser s) (tx_info s)"
    using i ac by (auto simp: pinv_def inputs_ok_def)
  obtain raws where o: "output_counts_ok raws (pczt_parser s)" "length raws = length (transparent_outs (tx_info s))"
    using i ac by (auto simp: pinv_def outputs_ok_def dest: list_all2_lengthD)
  have ins: "length (transparent_inputs (pczt_parser s)) \<le> 32"
    using c(1) by (auto simp: input_counts_ok_def MAX_PCZT_TRANSPARENT_INPUTS_NUMBER_def split: if_splits)
  have outs: "length (transparent_outs (tx_info s)) \<le> 10"
    using o by (auto simp: output_counts_ok_def MAX_PCZT_TRANSPARENT_OUTPUTS_NUMBER_def split: if_splits)
  have recs: "length (bn_records (view pl (pczt_parser s))) \<le> 32" for pl
  proof -
    have "view_ok (pool_phase pl (pz_state (pczt_parser s))) pl (view pl (pczt_parser s))"
      using c(3) by (simp add: shielded_ok_def)
    then have "length (bn_records (view pl (pczt_parser s))) \<le> max_actions pl"
      by (auto simp: view_ok_def records_ok_def empty_view_def split: phase.splits)
    then show ?thesis
      by (cases pl) (simp_all add: MAX_PCZT_ORCHARD_ACTIONS_NUMBER_def MAX_PCZT_IRONWOOD_ACTIONS_NUMBER_def)
  qed
  show ?thesis
    using ins outs recs [of OrchardPool] recs [of IronwoodPool] c(2)
    by (simp add: budget_ok_def size_consts MAX_PCZT_SHIELDED_DISPLAYED_OUTPUTS_NUMBER_def)
qed

lemma ex_reviewed: "outputs_reviewed (pczt_parser ex_approved)" "wallet_of ex_approved \<noteq> Idle"
proof -
  show r: "outputs_reviewed (pczt_parser ex_approved)"
    using ex_approved_facts(1) by (simp add: is_finished_def is_ready_to_sign_def Let_def)
  have "pinv ex_env ex_approved" using session_facts(3) [OF ex_env_laws ex_params ex_session(2)] .
  then show "wallet_of ex_approved \<noteq> Idle"
    using r by (auto elim: reviewed_wallet)
qed

lemma session_is_bounded_witness: "length (transparent_outs (tx_info ex_approved)) \<le> 10"
  using session_is_bounded [OF ex_env_laws ex_params ex_session(2) ex_reviewed(2)] by simp

lemma digests_commit_to_review_witness:
  "transparent_input_count (pczt_parser ex_approved) = 1
   \<and> (\<exists>raws. outputs_hash (tx_info ex_approved)
        = blake_of ex_env ZCASH_OUTPUTS_HASH_PERSONALIZATION (concat (map (ser_output ex_env) raws)))"
  using digests_commit_to_review [OF ex_env_laws ex_params ex_session(2) ex_reviewed(1) refl refl] ex_approved_facts(2)
  by auto

lemma reviewed_fee_is_exact_witness: "\<exists>ev. latest_review (events ex_approved) = Some ev"
  using reviewed_fee_is_exact [OF ex_env_laws ex_params ex_session(2) ex_reviewed(1)] by blast

lemma hidden_change_is_own_witness:
  "\<exists>ev. latest_review (events ex_approved) = Some ev \<and> length (filter out_is_change (shown_outputs ev)) \<le> 1"
  using hidden_change_is_own [OF ex_env_laws ex_params ex_session(2) ex_reviewed(1)] by blast

end
