(* ===== verification/Pczt_Turn_Theorems.thy ===== *)
theory Pczt_Turn_Theorems
  imports Pczt_Theorems
begin

text \<open>
  The PCZT commands that sign: what a shielded signature is, and when a session closes.
\<close>

lemma session_handled:
  assumes "env_laws E" "params_ok params" "session E A L params s"
  shows "wp (handle_pczt_apdu E ins) (\<lambda>_ s'. session_inv E s' \<and> wallet_turn s s')
    (refused_turn (receive data s)) (receive data s)"
  using handled_turn [OF assms(1), of "receive data s" ins] session_facts(1) [OF assms] by simp

section \<open>Signatures\<close>

fun sign_command :: "pool \<Rightarrow> nat \<Rightarrow> instruction" where
  "sign_command OrchardPool i = PcztSignOrchard i"
| "sign_command IronwoodPool i = PcztSignIronwood i"

text \<open>C7: A command to sign the shielded spend \<open>i\<close> of a pool either returns the spend authorization
  signature of the transaction's ZIP-244 digest under the key of the spend's recorded path,
  randomized by the spend's alpha, for a real spend that was not signed before and whose account is
  that of the hidden change; or it returns nothing and closes the session.\<close>

theorem shielded_signature_exact:
  assumes "env_laws E" "params_ok params" "session E A L params s"
    and "r = bn_records (view pl (pczt_parser s)) ! i"
  shows "case handle_pczt_apdu E (sign_command pl i) (receive data s) of
      (Inr _, s') \<Rightarrow>
        i < length (bn_records (view pl (pczt_parser s))) \<and> sr_is_real_spend r \<and> \<not> sr_signed r
        \<and> (\<forall>account. change_account (tx_info s) = Some account \<longrightarrow> derivation_account (sr_path r) = Some account)
        \<and> (\<exists>sk auth_sig. spending_key_of E (pczt_parser s) (sr_path r) sk
             \<and> spend_auth_signature E sk (zip244_sighash E (tx_info s)
                 (shielded_mode E (transparent_input_count (pczt_parser s)) (transparent_output_count (pczt_parser s))))
                 (sr_alpha r) auth_sig
             \<and> comm_out s' = auth_sig)
    | (Inl _, s') \<Rightarrow> pczt_parser s' = pczt_parser_new \<and> comm_out s' = []"
proof -
  have i: "sinv E (receive data s)"
    using session_facts(1) [OF assms(1-3)] receive_simps(1) [of E data s] by (simp add: session_inv_def)
  have "wp (sign_shielded E pl i) (\<lambda>_. signed_shielded E pl i (receive data s)) (sign_fail (receive data s))
      (receive data s)"
    by (rule sign_shielded_wp) (use env_lawsD(3) [OF assms(1)] i in \<open>simp_all add: sinv_def\<close>)
  then have "wp (handle_pczt_apdu E (sign_command pl i)) (\<lambda>_. signed_shielded E pl i (receive data s))
      (sign_fail (receive data s)) (receive data s)"
    by (cases pl) (simp_all add: handler_pczt_sign_orchard_def handler_pczt_sign_ironwood_def)
  then show ?thesis
    by (auto simp: wp_def signed_shielded_def Let_def same_account_def shielded_sighash_def assms(4)
        sign_fail_def unreleased_def split: prod.splits sum.splits)
qed

lemma shielded_signature_exact_witness:
  "\<exists>r s'. handle_pczt_apdu ex_env (sign_command OrchardPool 0) (receive (Some []) ex_approved) = (r, s')
     \<and> (case r of Inr _ \<Rightarrow> sr_is_real_spend (bn_records (view OrchardPool (pczt_parser ex_approved)) ! 0)
         | Inl _ \<Rightarrow> pczt_parser s' = pczt_parser_new)"
  using shielded_signature_exact [OF ex_env_laws ex_params ex_session(2) refl,
      where pl = OrchardPool and i = 0 and data = "Some []"]
  by (cases "handle_pczt_apdu ex_env (sign_command OrchardPool 0) (receive (Some []) ex_approved)")
    (auto split: sum.splits)

section \<open>The end of a session\<close>

text \<open>What a transaction asks the device to sign.\<close>

fun signable :: "pczt_parser \<Rightarrow> key_pool \<times> nat \<Rightarrow> bool" where
  "signable p (KeyTransparent, i) \<longleftrightarrow> i < length (transparent_inputs p)"
| "signable p (KeyOrchard, i) \<longleftrightarrow> i < length (bn_records (view OrchardPool p))
     \<and> sr_is_real_spend (bn_records (view OrchardPool p) ! i)"
| "signable p (KeyIronwood, i) \<longleftrightarrow> i < length (bn_records (view IronwoodPool p))
     \<and> sr_is_real_spend (bn_records (view IronwoodPool p) ! i)"
| "signable p (KeyLegacy, i) \<longleftrightarrow> False"

fun command_key :: "instruction \<Rightarrow> (key_pool \<times> nat) option" where
  "command_key (PcztSignTransparent i) = Some (KeyTransparent, i)"
| "command_key (PcztSignOrchard i) = Some (KeyOrchard, i)"
| "command_key (PcztSignIronwood i) = Some (KeyIronwood, i)"
| "command_key _ = None"

lemma filter_all_length: "length (filter P xs) \<ge> length xs \<longleftrightarrow> (\<forall>i < length xs. P (xs ! i))"
  using length_filter_less [of _ xs P]
  by (metis all_set_conv_all_nth filter_True linorder_not_le order_refl)

lemma filter_count_le:
  assumes "list_all (\<lambda>x. Q x \<longrightarrow> P x) xs"
  shows "length (filter Q xs) \<ge> length (filter P xs) \<longleftrightarrow> (\<forall>i < length xs. P (xs ! i) \<longrightarrow> Q (xs ! i))"
proof -
  have f: "filter Q xs = filter Q (filter P xs)"
    using assms by (induction xs) auto
  have "length (filter Q (filter P xs)) \<ge> length (filter P xs) \<longleftrightarrow> (\<forall>x \<in> set (filter P xs). Q x)"
    by (simp only: filter_all_length all_set_conv_all_nth)
  also have "\<dots> \<longleftrightarrow> (\<forall>x \<in> set xs. P x \<longrightarrow> Q x)" by auto
  finally show ?thesis by (simp only: f [symmetric] all_set_conv_all_nth)
qed

text \<open>The counters of the handlers decide whether everything is signed.\<close>

lemma all_signed_iff:
  assumes "total_input_count t = length (transparent_inputs p)"
    and "already_signed_input_count t = length (filter in_signed (transparent_inputs p))"
    and "\<And>pl. records_ok (view pl p) \<and> (bn_present (view pl p) \<or> bn_records (view pl p) = [])"
  shows "all_signed p t \<longleftrightarrow> (\<forall>x. signable p x \<longrightarrow> marked p x)"
proof -
  have tr: "(total_input_count t = 0 \<or> total_input_count t \<le> already_signed_input_count t)
      \<longleftrightarrow> (\<forall>i. signable p (KeyTransparent, i) \<longrightarrow> marked p (KeyTransparent, i))"
    using filter_all_length [where P = in_signed and xs = "transparent_inputs p"] assms(1,2) by auto
  have rec: "(\<not> bn_present (view pl p) \<or> bn_real (view pl p) \<le> bn_signed (view pl p))
      \<longleftrightarrow> (\<forall>i < length (bn_records (view pl p)). sr_is_real_spend (bn_records (view pl p) ! i)
            \<longrightarrow> sr_signed (bn_records (view pl p) ! i))" for pl
    using assms(3) [of pl] filter_count_le [of sr_signed sr_is_real_spend "bn_records (view pl p)"]
    by (auto simp: records_ok_def)
  have all: "(\<forall>x. signable p x \<longrightarrow> marked p x) \<longleftrightarrow> (\<forall>i. signable p (KeyTransparent, i) \<longrightarrow> marked p (KeyTransparent, i))
      \<and> (\<forall>i. signable p (KeyOrchard, i) \<longrightarrow> marked p (KeyOrchard, i))
      \<and> (\<forall>i. signable p (KeyIronwood, i) \<longrightarrow> marked p (KeyIronwood, i))"
    by (metis (full_types) key_pool.exhaust signable.simps(4) surj_pair)
  show ?thesis
    unfolding all tr [symmetric] all_signed_def are_orchard_signatures_done_def are_ironwood_signatures_done_def
      orchard_signature_count_def ironwood_signature_count_def
    using rec [of OrchardPool] rec [of IronwoodPool] by auto
qed

lemma closing_turn:
  assumes inv: "session_inv E s'" and e: "session_end q s'" and r: "outputs_reviewed q"
    and sg: "\<And>y. signable q y = signable p y" and mk: "\<And>y. marked q y \<longleftrightarrow> marked p y \<or> y = x"
    and n: "total_input_count (tx_signing_state s') = length (transparent_inputs q)"
      "already_signed_input_count (tx_signing_state s') = length (filter in_signed (transparent_inputs q))"
    and v: "\<And>pl. records_ok (view pl q) \<and> (bn_present (view pl q) \<or> bn_records (view pl q) = [])"
  shows "if \<forall>y. signable p y \<longrightarrow> marked p y \<or> y = x
    then pczt_parser s' = pczt_parser_new \<and> is_finished_flag s'
    else wallet_of s' \<noteq> Idle \<and> (\<forall>y. marked (pczt_parser s') y \<longleftrightarrow> marked p y \<or> y = x)"
proof -
  have a: "all_signed q (tx_signing_state s') \<longleftrightarrow> (\<forall>y. signable p y \<longrightarrow> marked p y \<or> y = x)"
    using all_signed_iff [OF n v] by (simp add: sg mk)
  have "pinv E s'" using inv by (simp add: session_inv_def sinv_def)
  then have "wallet_of s' \<noteq> Idle" if "pczt_parser s' = q"
    using that r by (auto elim: reviewed_wallet)
  then show ?thesis using e unfolding session_end_def a by (simp add: mk)
qed

lemma approved_counts:
  assumes "session_inv E s" "is_finished (pczt_parser s)"
  shows "total_input_count (tx_signing_state s) = length (transparent_inputs (pczt_parser s))"
    "already_signed_input_count (tx_signing_state s) = length (filter in_signed (transparent_inputs (pczt_parser s)))"
    "records_ok (view pl (pczt_parser s))"
    "bn_present (view pl (pczt_parser s)) \<or> bn_records (view pl (pczt_parser s)) = []"
    "length (filter in_signed (transparent_inputs (pczt_parser s))) < USIZE_MAX"
proof -
  have si: "sinv E s" "pinv E s" "counted s" using assms(1) by (simp_all add: session_inv_def sinv_def)
  note f = finished_active [OF si(1) assms(2)]
  note a = approved_state [OF si(2) f(2)]
  have "length (transparent_inputs (pczt_parser s)) = transparent_input_count (pczt_parser s)"
    using a(2,10,16) by (simp add: inputs_ok_def input_counts_ok_def)
  then show "total_input_count (tx_signing_state s) = length (transparent_inputs (pczt_parser s))"
    "already_signed_input_count (tx_signing_state s) = length (filter in_signed (transparent_inputs (pczt_parser s)))"
    using si(3) f by (simp_all add: counted_def)
  have "view_ok (pool_phase pl (pz_state (pczt_parser s))) pl (view pl (pczt_parser s))"
    using a(6) by (simp add: shielded_ok_def)
  then show "records_ok (view pl (pczt_parser s))"
    "bn_present (view pl (pczt_parser s)) \<or> bn_records (view pl (pczt_parser s)) = []"
    by (auto simp: view_ok_def empty_view_def records_ok_def split: phase.splits)
  have "length (filter in_signed (transparent_inputs (pczt_parser s))) \<le> MAX_PCZT_TRANSPARENT_INPUTS_NUMBER"
    using inputs_bound [OF si(2) f(1)] by (meson le_trans length_filter_le)
  then show "length (filter in_signed (transparent_inputs (pczt_parser s))) < USIZE_MAX"
    by (simp add: USIZE_MAX_def MAX_PCZT_TRANSPARENT_INPUTS_NUMBER_def)
qed

lemma marked_keyed [simp]:
  "marked (keyed k kp p) x = marked p x" "signable (keyed k kp p) x = signable p x"
  by (cases x; cases "fst x"; simp)+

lemma mark_input_marks:
  assumes "i < length (transparent_inputs p)"
  shows "marked (mark_input i p) y \<longleftrightarrow> marked p y \<or> y = (KeyTransparent, i)"
    "signable (mark_input i p) y = signable p y"
  using assms by (cases y; cases "fst y"; auto simp: mark_input_ok mark_input_def nth_list_update)+

lemma mark_record_marks:
  assumes "i < length (bn_records (view pl p))"
  shows "marked (set_view pl ((mark_record i (view pl p))\<lparr> bn_sig_digest := d \<rparr>) p) y
      \<longleftrightarrow> marked p y \<or> y = (key_pool_of pl, i)"
    "signable (set_view pl ((mark_record i (view pl p))\<lparr> bn_sig_digest := d \<rparr>) p) y = signable p y"
  using assms by (cases y; cases "fst y"; cases pl; auto simp: mark_record_def nth_list_update)+

lemma records_ok_mark:
  assumes "records_ok v" "i < length (bn_records v)" "\<not> sr_signed (bn_records v ! i)" "sr_is_real_spend (bn_records v ! i)"
  shows "records_ok ((mark_record i v)\<lparr> bn_sig_digest := d \<rparr>)"
  using assms by (simp add: records_ok_def mark_record_def count_update list_all_update_same)

lemma view_other: "q \<noteq> pl \<Longrightarrow> view q (set_view pl v p) = view q p"
  by (cases q; cases pl; simp)

text \<open>C11: A signing command that is accepted closes the session exactly when it was the last one: if every
  input and every real spend is signed now, the parser is as new and the transaction is finished;
  otherwise exactly this key is marked in addition, and the session goes on.\<close>

theorem session_closes_with_last_signature:
  assumes "env_laws E" "params_ok params" "session E A L params s"
    and "command_key ins = Some x" "handle_pczt_apdu E ins (receive data s) = (Inr u, s')"
  shows "if \<forall>y. signable (pczt_parser s) y \<longrightarrow> marked (pczt_parser s) y \<or> y = x
    then pczt_parser s' = pczt_parser_new \<and> is_finished_flag s'
    else wallet_of s' \<noteq> Idle \<and> (\<forall>y. marked (pczt_parser s') y \<longleftrightarrow> marked (pczt_parser s) y \<or> y = x)"
proof -
  let ?s = "receive data s"
  have i0: "session_inv E ?s" using session_facts(1) [OF assms(1-3)] by simp
  have inv: "session_inv E ?s" "session_inv E s'" "sinv E ?s"
    using i0 wp_InrD [OF session_handled [OF assms(1-3)] assms(5)] by (simp, simp, simp only: session_inv_def)
  have shielded: ?thesis if h: "sign_shielded E pl i ?s = (Inr u, s')" and x: "x = (key_pool_of pl, i)" for pl i
  proof -
    have sg: "signed_shielded E pl i ?s s'"
      using wp_InrD [OF sign_shielded_wp [OF env_lawsD(3) [OF assms(1)]] h] inv(3) by (simp add: sinv_def)
    let ?v = "(mark_record i (view pl (pczt_parser s)))\<lparr> bn_sig_digest := Some (shielded_sighash E ?s) \<rparr>"
    note sg' = sg [unfolded signed_shielded_def Let_def receive_simps]
    have fin: "is_finished (pczt_parser ?s)" and i: "i < length (bn_records (view pl (pczt_parser s)))"
        "\<not> sr_signed (bn_records (view pl (pczt_parser s)) ! i)" "sr_is_real_spend (bn_records (view pl (pczt_parser s)) ! i)"
      using sg' by simp_all
    note c = approved_counts [OF inv(1) fin]
    obtain k kp where e: "session_end (keyed k kp (set_view pl ?v (pczt_parser s))) s'" using sg' by blast
    show ?thesis
    proof (rule closing_turn [OF inv(2) e])
      show "total_input_count (tx_signing_state s') = length (transparent_inputs (keyed k kp (set_view pl ?v (pczt_parser s))))"
        "already_signed_input_count (tx_signing_state s')
          = length (filter in_signed (transparent_inputs (keyed k kp (set_view pl ?v (pczt_parser s)))))"
        using c(1,2) sg' by simp_all
      have v: "records_ok (view q (pczt_parser s)) \<and> (bn_present (view q (pczt_parser s)) \<or> bn_records (view q (pczt_parser s)) = [])" for q
        using approved_counts(3,4) [OF inv(1) fin, of q] by simp
      show "records_ok (view q (keyed k kp (set_view pl ?v (pczt_parser s))))
        \<and> (bn_present (view q (keyed k kp (set_view pl ?v (pczt_parser s))))
            \<or> bn_records (view q (keyed k kp (set_view pl ?v (pczt_parser s)))) = [])" for q
        using v [of q] v [of pl] i by (cases "q = pl") (auto simp: records_ok_mark view_other mark_record_def [THEN arg_cong, of bn_present])
      show "outputs_reviewed (keyed k kp (set_view pl ?v (pczt_parser s)))"
        using finished_active(2) [OF inv(3) fin] by simp
    qed (simp_all add: mark_record_marks i x)
  qed
  have transparent: ?thesis if h: "handler_pczt_sign_transparent E i ?s = (Inr u, s')" and x: "x = (KeyTransparent, i)" for i
  proof -
    have sg: "signed_transparent E i ?s s'"
      using wp_InrD [OF sign_transparent_wp h] inv(3) by (simp add: sinv_def)
    note sg' = sg [unfolded signed_transparent_def Let_def receive_simps]
    have fin: "is_finished (pczt_parser ?s)" and i: "i < length (transparent_inputs (pczt_parser s))"
        "\<not> in_signed (transparent_inputs (pczt_parser s) ! i)" and e: "session_end (mark_input i (pczt_parser s)) s'"
      using sg' by simp_all
    note c = approved_counts [OF inv(1) fin]
    show ?thesis
    proof (rule closing_turn [OF inv(2) e])
      show "total_input_count (tx_signing_state s') = length (transparent_inputs (mark_input i (pczt_parser s)))"
        using c(1) sg' by (simp add: mark_input_def)
      show "already_signed_input_count (tx_signing_state s') = length (filter in_signed (transparent_inputs (mark_input i (pczt_parser s))))"
        using c(2) usize_saturating_add_1 [OF c(5)] sg' i by (simp add: mark_input_def count_update(2))
      show "outputs_reviewed (mark_input i (pczt_parser s))"
        using finished_active(2) [OF inv(3) fin] by (simp add: mark_input_ok i(1))
    qed (simp_all add: mark_input_marks i mark_input_ok approved_counts(3,4) [OF inv(1) fin, simplified] x)
  qed
  show ?thesis
  proof (cases ins)
    case (PcztSignTransparent i)
    show ?thesis by (rule transparent [of i]) (use assms(4,5) PcztSignTransparent in simp_all)
  next
    case (PcztSignOrchard i)
    show ?thesis
      by (rule shielded [of OrchardPool i])
        (use assms(4,5) PcztSignOrchard in \<open>simp_all add: handler_pczt_sign_orchard_def\<close>)
  next
    case (PcztSignIronwood i)
    show ?thesis
      by (rule shielded [of IronwoodPool i])
        (use assms(4,5) PcztSignIronwood in \<open>simp_all add: handler_pczt_sign_ironwood_def\<close>)
  qed (use assms(4) in simp_all)
qed

lemma session_closes_with_last_signature_witness:
  "\<exists>s'. handle_pczt_apdu ex_env (PcztSignTransparent 0) (receive (Some []) ex_approved) = (Inr (), s')
     \<and> (if \<forall>y. signable (pczt_parser ex_approved) y \<longrightarrow> marked (pczt_parser ex_approved) y \<or> y = (KeyTransparent, 0)
         then pczt_parser s' = pczt_parser_new \<and> is_finished_flag s' else wallet_of s' \<noteq> Idle)"
proof (rule ex_signed)
  fix s' assume h: "handle_pczt_apdu ex_env (PcztSignTransparent 0) (receive (Some []) ex_approved) = (Inr (), s')"
  show ?thesis
    by (rule exI [of _ s'], rule conjI [OF h],
      use session_closes_with_last_signature [OF ex_env_laws ex_params ex_session(2) _ h, of "(KeyTransparent, 0)"]
      in \<open>simp split: if_splits\<close>)
qed

end
