(* ===== verification/Pczt_Swap_Example.thy ===== *)
theory Pczt_Swap_Example
  imports Pczt_Example
begin

text \<open>
  The session of \<open>Pczt_Example\<close>, started by the Exchange application: its request matches the
  transaction, so that the outputs are cross-checked instead of shown, and the input is signed.
\<close>

definition ex_request :: create_tx_params where
  "ex_request = \<lparr>
     sp_amount = zeros 8 @ [0, 0, 0, 0, 0, 1, 0x5F, 0x90],
     sp_fee_amount = zeros 8 @ [0, 0, 0, 0, 0, 0, 0x27, 0x10],
     sp_dest_address = [0x1C, 0x38] @ replicate 20 7 @ [0x1C, 0x38, 7, 7] @ zeros 10,
     sp_dest_address_len = 26, sp_dest_address_extra_id_len = 0 \<rparr>"

lemma ex_request_ok: "params_ok (Some ex_request)"
  by (simp add: params_ok_def swap_params_wf_def ex_request_def)

definition ex_swap_signed :: world where
  "ex_swap_signed = snd (run_turns ex_env (ex_turns @ [(PcztSignTransparent 0, [])])
     (init_in_place (Some ex_request) TrustedInput ex_start))"

lemma ex_swap_run:
  "case run_turns ex_env (ex_turns @ [(PcztSignTransparent 0, [])])
          (init_in_place (Some ex_request) TrustedInput ex_start) of
     (rs, s) \<Rightarrow> rs = replicate 11 (Some app_sw.Ok) \<and> has_released_signature s \<and> length (events s) = 2"
  by code_simp

lemma ex_swap_session: "session ex_env A L (Some ex_request) ex_swap_signed"
proof -
  have s: "session ex_env A L (Some ex_request) (init_in_place (Some ex_request) TrustedInput ex_start)"
    by (rule session.opened) (simp add: ex_start_def)
  have "None \<notin> set (fst (run_turns ex_env (ex_turns @ [(PcztSignTransparent 0, [])])
      (init_in_place (Some ex_request) TrustedInput ex_start)))"
    using ex_swap_run by (simp add: split_beta)
  with s show ?thesis unfolding ex_swap_signed_def by (rule run_session)
qed

lemma ex_swap_released: "has_released_signature ex_swap_signed" "length (events ex_swap_signed) = 2"
  using ex_swap_run by (simp_all add: ex_swap_signed_def split_beta)

end
