(* ===== verification/Device_Theorems.thy ===== *)
theory Device_Theorems
  imports Pczt_Theorems Pczt_Swap_Example
begin

text \<open>
  What holds of the whole device, whatever commands of whatever protocol the host sends in whatever
  order: its turns are steps of an abstract wallet, its signatures follow a granted review, a refused
  command releases nothing, and for the Exchange application it signs one transaction.
\<close>

section \<open>The wallet\<close>

text \<open>C1: Refinement.  Every command of the main loop is a step of the abstract wallet of the device: it
  leaves the wallet as it is or drops what it holds, opens or goes on with a PCZT transaction, shows the
  outputs of a transaction, signs with a PCZT key the approved transaction has not used yet, or signs
  under the granted outputs of a legacy transaction; the log grows by exactly the event of that step.\<close>

theorem sessions_refine_wallet:
  assumes "env_laws E" "params_ok params" "session E A L params s"
    and "apdu_turn E A L ins data s = (Some sw, b, s')"
  shows "\<exists>evs. events s' = events s @ evs \<and> device_step (device_wallet s) evs (device_wallet s')"
  using apdu_turn_inv(2) [OF assms(1) session_facts(4) [OF assms(1-3)] assms(4)]
  by (auto simp: device_turn_def grows_def)

lemma ex_turn:
  assumes "main_turn ex_env i data s = (Some sw, s')"
  shows "apdu_turn ex_env A L (PcztCommand i) data s = (Some sw, swap_exit ex_env i data s, s')"
  by (simp add: apdu_turn_pczt assms)

lemma sessions_refine_wallet_witness:
  "\<exists>b s' evs. apdu_turn ex_env ex_account ex_legacy (PcztCommand (PcztSignTransparent 0)) (Some []) ex_approved
       = (Some app_sw.Ok, b, s')
     \<and> events s' = events ex_approved @ evs \<and> device_step (device_wallet ex_approved) evs (device_wallet s')"
proof (rule ex_signed)
  fix s' assume "main_turn ex_env (PcztSignTransparent 0) (Some []) ex_approved = (Some app_sw.Ok, s')"
  note t = ex_turn [OF this, of ex_account ex_legacy]
  show ?thesis using sessions_refine_wallet [OF ex_env_laws ex_params ex_session(2) t] t by blast
qed

text \<open>C2: Every signature ever released, by a command of either protocol, was released under a review that
  was granted (approved on the screen, or matching the request of the Exchange application) and that
  was the latest one; and no PCZT key signs twice for the same review.\<close>

theorem signatures_are_granted:
  assumes "env_laws E" "params_ok params" "session E A L params s"
    and "events s = pre @ [Signed k i d path1] @ post"
  shows "(\<exists>ev. latest_review pre = Some ev \<and> granted ev)
    \<and> (k \<noteq> KeyLegacy \<longrightarrow> (k, i) \<notin> set (signed_ids pre))"
  using device_run_log [OF session_facts(5) [OF assms(1-3)]] assms(4) unfolding log_granted_def by blast

lemma signatures_are_granted_witness:
  "\<exists>s' ev k i d path1. session ex_env ex_account ex_legacy None s' \<and> events s' = [ev, Signed k i d path1] \<and> granted ev"
proof (rule ex_signed)
  fix s' ev k i d path1
  assume s: "\<And>A L. session ex_env A L None s'" and e: "events s' = [ev] @ [Signed k i d path1] @ []"
  have "granted ev" using signatures_are_granted [OF ex_env_laws ex_params s e]
    by (auto simp: latest_review_def split: if_splits)
  moreover have "session ex_env ex_account ex_legacy None s'" by (rule s)
  ultimately show ?thesis using e by auto
qed

section \<open>The Exchange application\<close>

text \<open>C10: Started by the Exchange application, the device signs one transaction: once a signature has
  been released, no later command of either protocol shows or checks outputs again or leaves a
  transaction open for review, whatever the host sends.\<close>

theorem swap_signs_one_transaction:
  assumes "env_laws E" "params_ok (Some request)" "session E A L (Some request) s" "has_released_signature s"
    and "apdu_turn E A L ins data s = (Some sw, b, s')"
  shows "(\<exists>evs. events s' = events s @ evs \<and> list_all (\<lambda>ev. \<not> is_review ev) evs)
    \<and> device_wallet s' \<noteq> Pczt Parsing \<and> has_released_signature s'"
proof -
  have i: "device_inv E s" "swap_params s = Some request" using session_facts [OF assms(1-3)] by simp_all
  note t = apdu_turn_inv [OF assms(1) i(1) assms(5)]
  have e: "\<exists>evs. events s' = events s @ evs \<and> list_all (\<lambda>ev. \<not> is_review ev) evs"
    and u: "swap_closed s'"
    using t(2) i(2) assms(4) by (auto simp: device_turn_def grows_def list_all_iff)
  have "session_inv E s'" using t(1) by (simp add: device_inv_def)
  then have "wallet_of s' \<noteq> Parsing" using closed_wallet(1) u by blast
  then have "device_wallet s' \<noteq> Pczt Parsing" by (simp add: device_wallet_def split: option.split)
  with e u show ?thesis by simp
qed

lemma swap_signs_one_transaction_witness:
  "\<exists>sw b s'. apdu_turn ex_env ex_account ex_legacy (PcztCommand PcztHeader) (Some []) ex_swap_signed = (Some sw, b, s')
     \<and> device_wallet s' \<noteq> Pczt Parsing \<and> has_released_signature s'"
proof -
  obtain sw s' where "main_turn ex_env PcztHeader (Some []) ex_swap_signed = (Some sw, s')"
    using main_turn_inv [OF ex_env_laws session_facts(1) [OF ex_env_laws ex_request_ok ex_swap_session]] by metis
  note t = ex_turn [OF this, of ex_account ex_legacy]
  show ?thesis
    using swap_signs_one_transaction [OF ex_env_laws ex_request_ok ex_swap_session ex_swap_released(1) t] t by blast
qed

section \<open>Refused commands\<close>

text \<open>A computation that leaves the response alone when it fails.\<close>

definition mute :: "(world, 'e, 'a) sm \<Rightarrow> bool" where
  "mute m \<longleftrightarrow> (\<forall>s. wp m (\<lambda>_ _. True) (\<lambda>_ s'. comm_out s' = comm_out s) s)"

lemma mute_keeps: "keeps comm_out m \<Longrightarrow> mute m"
  unfolding mute_def by (auto intro!: wpI dest: keepsD)

lemma mute_bnd:
  assumes "keeps comm_out m" "\<And>a. mute (k a)"
  shows "mute (bnd m k)"
  unfolding mute_def wp_bnd
proof
  fix s
  show "wp m (\<lambda>a. wp (k a) (\<lambda>_ _. True) (\<lambda>_ s'. comm_out s' = comm_out s)) (\<lambda>_ s'. comm_out s' = comm_out s) s"
  proof (rule wpI)
    fix a s1 assume "m s = (Inr a, s1)"
    then have "comm_out s1 = comm_out s" by (rule keepsD [OF assms(1)])
    then show "wp (k a) (\<lambda>_ _. True) (\<lambda>_ s'. comm_out s' = comm_out s) s1"
      using assms(2) [of a] unfolding mute_def by metis
  qed (rule keepsD [OF assms(1)])
qed

lemma mute_sure: "(\<And>s. wp m (\<lambda>_ _. True) (\<lambda>_ _. False) s) \<Longrightarrow> mute m"
  unfolding mute_def by (rule allI, rule wp_mono, assumption) simp_all

lemma mute_if: "mute m \<Longrightarrow> mute k \<Longrightarrow> mute (if b then m else k)"
  by simp

lemma mute_cases: "(\<And>x y. mute (f x y)) \<Longrightarrow> mute (case p of (x, y) \<Rightarrow> f x y)"
  by (simp split: prod.split)

lemma mute_let: "(\<And>a. mute (f a)) \<Longrightarrow> mute (Let z f)"
  by simp

lemma out_basic:
  "keeps comm_out comm_get_data" "keeps comm_out (show_address A scr)" "keeps comm_out (derive_orchard_fvk E p)"
  "keeps comm_out (modify (\<lambda>s. s\<lparr> vk_response := r \<rparr>))"
  unfolding comm_get_data_def show_address_def derive_orchard_fvk_def derive_orchard_sk_bytes_def
    consume_orchard_derivation_budget_def
  by (intro keeps_rules keeps_modify; simp)+

lemmas out_keeps = keeps_rules out_basic

lemma out_screens:
  "keeps comm_out (ui_display_pk A t)" "keeps comm_out (ui_display_shielded_address A x y)"
  "keeps comm_out (ui_display_orchard_fvk A t a)" "keeps comm_out (ui_display_ufvk A t a)"
  "keeps comm_out m \<Longrightarrow> keeps comm_out (confirm_export m)"
  unfolding ui_display_pk_def ui_display_shielded_address_def ui_display_orchard_fvk_def ui_display_ufvk_def
    ui_display_fvk_def confirm_export_def
  by (intro out_keeps keeps_modify; simp)+

lemma out_exports:
  "keeps comm_out (vk_export E A mode p t a fvk)" "keeps comm_out (address_response E A amode display p t fvk)"
  by (cases mode; cases amode; simp; intro out_keeps out_screens)+

lemma mute_chunk: "mute append_pending_vk_chunk"
proof -
  have c: "mute (bnd (comm_append bs) (\<lambda>_. if b then modify f else modify g))" for bs b f g
    by (rule mute_sure) (simp add: comm_append_def wp_simps)
  show ?thesis
    unfolding append_pending_vk_chunk_def by (intro mute_bnd mute_let c out_keeps)
qed

lemma mute_reads:
  "mute (handler_get_version A)" "mute (handler_get_public_key E A display)"
  "mute (handler_get_shielded_addr E A amode display)" "mute (handler_get_vk E A mode c)"
proof -
  have a: "mute (comm_append bs)" for bs by (rule mute_sure) (simp add: comm_append_def wp_simps)
  have as: "mute (seqs [comm_append b1, comm_append b2, comm_append b3, comm_append b4, comm_append b5])"
    for b1 b2 b3 b4 b5 by (rule mute_sure) (simp add: comm_append_def wp_simps seqs.simps)
  show "mute (handler_get_version A)"
    by (auto simp: handler_get_version_def a intro!: mute_keeps out_keeps split: option.split)
  show "mute (handler_get_public_key E A display)"
    unfolding handler_get_public_key_def by (intro mute_bnd as out_keeps out_screens)
  show "mute (handler_get_shielded_addr E A amode display)"
    unfolding handler_get_shielded_addr_def by (intro mute_bnd mute_cases a out_keeps out_exports)
  show "mute (handler_get_vk E A mode c)"
    unfolding handler_get_vk_def
    by (intro mute_bnd mute_if mute_cases mute_chunk out_keeps out_exports)
qed

lemma mute_start: "mute (handler_hash_input_start E L first cont)"
proof -
  have p: "keeps comm_out (legacy_parse E L data)" for data
    unfolding keeps_def using lfoot_parse [of E L data] by (auto simp: keeps_def lfoot_def)
  show ?thesis
    unfolding handler_hash_input_start_def require_legacy_round_def resume_signing_round_def get_p_def get_ti_def
      reset_for_new_transaction_def mod_l_def
    by (intro mute_keeps out_keeps keeps_modify p; simp add: reset_ctx_def)
qed

lemma mute_finalize: "mute (handler_hash_input_finalize_full E change)"
proof -
  have c: "mute (install_change_path E data)" for data
    unfolding install_change_path_def mod_ti_def by (intro mute_keeps out_keeps keeps_modify; simp)
  have o1: "wp (catch_err (lo_parse E data) on_output_error) (\<lambda>_ _. True) (\<lambda>_ s'. comm_out s' = comm_out s) s"
    if "\<not> outputs_done s" for data s
    unfolding wp_catch_err
    by (rule wp_mono [OF lo_parse_frame [OF that]])
      (auto simp: lo_fail_def lofoot_def on_output_error_def set_finished_def wp_simps split: fault.split)
  show ?thesis
    unfolding handler_hash_input_finalize_full_def mute_def
    by (auto simp: wp_comm_get_data wp_bnd wp_gets wp_ensure o1 c [unfolded mute_def] split: option.split)
qed

lemma mute_hash_sign: "mute (handler_hash_sign E)"
proof -
  have h: "mute (hash_sign_header E data)" for data
    unfolding hash_sign_header_def legacy_review_def ui_display_tx_def set_extra_header_data_def set_finished_def
      log_event_def mod_ti_def mod_ss_def
    by (intro mute_keeps out_keeps keeps_modify; simp)
  have t: "wp (count_legacy_signature) (\<lambda>_ _. True) R s" for s and R :: "app_sw fault \<Rightarrow> world \<Rightarrow> bool"
    unfolding count_legacy_signature_def set_finished_def by (simp add: wp_simps)
  have k: "mute (bnd (append_signature E d p n) (\<lambda>_. bnd (gets f) (\<lambda>i. bnd (log_event (ev i)) (\<lambda>_.
      bnd note_signature_released (\<lambda>_. count_legacy_signature)))))" for d p n f ev
    unfolding append_signature_def comm_append_def log_event_def note_signature_released_def mute_def
    by (auto simp: wp_simps t split: option.split)
  have s: "mute (hash_sign_signature E data)" for data
    unfolding hash_sign_signature_def
    by (intro mute_bnd mute_let k out_keeps)
  show ?thesis
    unfolding handler_hash_sign_def get_p_def by (intro mute_bnd mute_if h s out_keeps)
qed

text \<open>Only a command for a trusted input can fail with a part of its answer in the buffer, which lacks the
  authentication code.\<close>

lemma refused_quiet:
  assumes E: "env_laws E" and inv: "device_inv E s" and m: "handle_apdu E A L ins (receive data s) = (Inl e, s1)"
    and ins: "\<forall>f n. ins \<noteq> GetTrustedInput f n"
  shows "comm_out s1 = []"
proof -
  have q: "comm_out s1 = []" if "mute (handle_apdu E A L ins)"
    using that [unfolded mute_def, THEN spec, of "receive data s"] m by (simp add: wp_def)
  show ?thesis
  proof (cases ins)
    case (PcztCommand i)
    have "session_inv E (receive data s)" using inv by (simp add: device_inv_def)
    then have "refused_turn (receive data s) e s1"
      using handled_turn [OF E, of "receive data s" i] m PcztCommand by (simp add: wp_def)
    then show ?thesis by (simp add: refused_turn_def)
  qed (use q ins mute_reads mute_start mute_finalize mute_hash_sign in simp_all)
qed

text \<open>C12: A command that is not answered with \<open>Ok\<close> releases no signature, and all it can add to the log is
  one review.  A command that works on a transaction leaves the context as after a reset; a read-only
  command leaves the transaction, the log and the parsers as they were.  No data is returned, except
  that a command for a trusted input may have started its answer.\<close>

theorem refused_command_is_silent:
  assumes "env_laws E" "params_ok params" "session E A L params s"
    and "apdu_turn E A L ins data s = (Some sw, b, s')" "sw \<noteq> app_sw.Ok"
  shows "has_released_signature s' = has_released_signature s
    \<and> (events s' = events s \<or> (\<exists>ev. is_review ev \<and> events s' = events s @ [ev]))
    \<and> (if resets_on_error ins then s' = reset_ctx TrustedInput s' else tx_part s' = tx_part s)
    \<and> ((\<forall>f n. ins \<noteq> GetTrustedInput f n) \<longrightarrow> comm_out s' = [])"
proof -
  have inv: "device_inv E s" using session_facts(4) [OF assms(1-3)] .
  obtain s1 where m: "handle_apdu E A L ins (receive data s) = (Inl (Fail sw), s1)" "device_refused s s1"
      "comm_out s' = comm_out s1"
      "if resets_on_error ins then s' = reset_ctx TrustedInput s1 else tx_part s' = tx_part s"
    using apdu_turn_inv(3) [OF assms(1) inv assms(4,5)] by blast
  have r: "has_released_signature s1 = has_released_signature s"
      "events s1 = events s \<or> (\<exists>ev. is_review ev \<and> events s1 = events s @ [ev])"
    using m(2) by (auto simp: device_refused_def grows_def)
  have l: "logs s' = logs s1 \<or> logs s' = logs s"
    and u: "if resets_on_error ins then s' = reset_ctx TrustedInput s' else tx_part s' = tx_part s"
  proof -
    show "logs s' = logs s1 \<or> logs s' = logs s"
    proof (cases "resets_on_error ins")
      case True
      then have "s' = reset_ctx TrustedInput s1" using m(4) by simp
      then show ?thesis using logs_simps(3) by simp
    next
      case False
      then have "tx_part s' = tx_part s" using m(4) by simp
      then show ?thesis by (intro disjI2 logs_simps(2))
    qed
    show "if resets_on_error ins then s' = reset_ctx TrustedInput s' else tx_part s' = tx_part s"
    proof (cases "resets_on_error ins")
      case True
      then have "s' = reset_ctx TrustedInput s1" using m(4) by simp
      then show ?thesis using True by (simp add: reset_ctx_def)
    qed (use m(4) in \<open>simp only: if_False\<close>)
  qed
  have "has_released_signature s' = has_released_signature s"
    "events s' = events s \<or> (\<exists>ev. is_review ev \<and> events s' = events s @ [ev])"
    using l r by (auto simp: logs_def)
  moreover have "(\<forall>f n. ins \<noteq> GetTrustedInput f n) \<longrightarrow> comm_out s' = []"
    using refused_quiet [OF assms(1) inv m(1)] m(3) by simp
  ultimately show ?thesis using u by blast
qed

lemma refused_command_is_silent_witness:
  "\<exists>b s'. apdu_turn ex_env ex_account ex_legacy HashSign (Some []) ex_approved = (Some BadState, b, s')
     \<and> s' = reset_ctx TrustedInput s' \<and> comm_out s' = []"
proof -
  have "is_session_active (pczt_parser ex_approved)"
    using ex_reviewed by (auto simp: is_session_active_def wallet_of_defs active_def split: if_splits)
  then have "wp (handler_hash_sign ex_env) (\<lambda>_ _. False) (\<lambda>e _. e = Fail BadState) (receive (Some []) ex_approved)"
    by (simp add: handler_hash_sign_def get_p_def wp_simps)
  then obtain b s' where t: "apdu_turn ex_env ex_account ex_legacy HashSign (Some []) ex_approved = (Some BadState, b, s')"
    by (auto simp: apdu_turn_def wp_def Let_def split: prod.splits sum.splits)
  show ?thesis
    using refused_command_is_silent [OF ex_env_laws ex_params ex_session(2) t] t by auto
qed

end
