(* ===== verification/Legacy_Loop.thy ===== *)
theory Legacy_Loop
  imports Legacy_Steps
begin

text \<open>
  The end and the header of a transaction, and the loop of the legacy parser over a packet of a
  previous transaction: it returns within its fuel, without a panic.
\<close>

section \<open>The transaction id\<close>

lemma rbind_fails:
  "(\<And>e. m = Inl e \<Longrightarrow> just_fails e) \<Longrightarrow> (\<And>a e. m = Inr a \<Longrightarrow> k a = Inl e \<Longrightarrow> just_fails e) \<Longrightarrow>
     rbind m k = Inl e \<Longrightarrow> just_fails e"
  by (auto simp: rbind_eq_Inl)

lemma init_fails: "init_with_perso E p = Inl e \<Longrightarrow> length p = 16 \<Longrightarrow> just_fails e"
  by (auto simp: init_with_perso_def err_def split: if_splits)

lemma finalize_fails: "blake_finalize E h = Inl e \<Longrightarrow> just_fails e"
  by (auto simp: blake_finalize_def err_def split: if_splits)

lemma update_fails: "blake_update E h bs = Inl e \<Longrightarrow> just_fails e" "blake_write E h bs = Inl e \<Longrightarrow> just_fails e"
  by (auto simp: blake_update_def blake_write_def err_def split: if_splits)

lemma header_hash_fails:
  assumes "tx_version ti \<noteq> None" "tx_header_hash E ti branch v6 = Inl e"
  shows "just_fails e"
  using assms unfolding tx_header_hash_def write_header_version_def
  by (auto simp: rbind_eq_Inl split: if_splits option.splits
      dest!: init_fails finalize_fails update_fails blake_updates_fault)

lemma tx_perso_length [simp]: "length (ZCASH_TX_PERSONALIZATION_PREFIX @ u32_to_le_bytes b) = 16"
  by (simp add: ZCASH_TX_PERSONALIZATION_PREFIX_def str_bytes_def)

lemma wp_tx_id_v5_v6:
  assumes v: "tx_version (tx_info s) \<noteq> None"
    and Q: "\<And>h t. Q () (s\<lparr> hashers := h, trusted_input_info := t \<rparr>)" and R: "\<And>e s'. just_fails e \<Longrightarrow> R e s'"
  shows "wp (tx_id_v5_v6 E branch v6) Q R s"
proof -
  have f: "just_fails (Fail x)" for x :: parser_error by simp
  show ?thesis
    unfolding tx_id_v5_v6_def
    apply (simp add: wp_simps vc_simps R f cong: wp_cong split del: if_split)
    using v by (auto simp: rbind_eq_Inl simp del: append_assoc intro!: R Q
        dest!: header_hash_fails [rotated] blake_hash_fault init_fails blake_updates_fault finalize_fails update_fails)
qed

lemma wp_case_version [wp_simps]:
  "wp (case v of SupV4 \<Rightarrow> a | SupV5 \<Rightarrow> b | SupV6 \<Rightarrow> c) Q R s =
     (case v of SupV4 \<Rightarrow> wp a Q R s | SupV5 \<Rightarrow> wp b Q R s | SupV6 \<Rightarrow> wp c Q R s)"
  by (cases v) simp_all

lemma wp_tx_id:
  assumes v: "versioned (tx_info s)"
    and Q: "\<And>h t. Q () (s\<lparr> hashers := h, trusted_input_info := t \<rparr>)" and R: "\<And>e s'. just_fails e \<Longrightarrow> R e s'"
  shows "wp (tx_id E) Q R s"
proof -
  obtain b w where b: "branch_id (tx_info s) = Some b" "supported_tx_version (tx_info s) = Inr w" "tx_version (tx_info s) \<noteq> None"
    using v by (auto simp: versioned_def has_version_def)
  have "wp (tx_id_v5_v6 E b v6) Q R s" for v6 using b(3) by (rule wp_tx_id_v5_v6) (rule Q, rule R)
  moreover have "Q () (s\<lparr> trusted_input_info := t \<rparr>)" for t using Q [where h = "hashers s" and t = t] by simp
  ultimately show ?thesis
    unfolding tx_id_def by (cases w) (simp_all add: wp_simps vc_simps b R cong: wp_cong)
qed

lemma process_extra_wp:
  assumes E: "codec_laws E" and pre: "trusted_pre LgProcessExtra s"
  shows "wp (parse_process_extra E L) (trusted_post s) fails s"
proof -
  obtain v where v: "supported_tx_version (tx_info s) = Inr v" "versioned (tx_info s)" "lg_mode (legacy_parser s) = TrustedInput"
    "lg_state (legacy_parser s) = LgProcessExtra" "0 < remaining_len s"
    using pre by (rule trusted_preE) simp
  have u: "supported_tx_version ((tx_info s)\<lparr> locktime := l, expiry_height := x \<rparr>) = Inr v"
    "versioned ((tx_info s)\<lparr> locktime := l, expiry_height := x \<rparr>)" for l x
    using v(1,2) by (auto simp: supported_tx_version_def versioned_def has_version_def)
  have f: "fails e s'" if "just_fails e" for e :: "parser_error fault" and s' using that by (simp add: fails_def)
  show ?thesis
    using v(5) unfolding parse_process_extra_def
    by (auto simp: trusted_simps v u cong: wp_cong intro!: wp_tx_id f split del: if_split dest!: compact_size_rem [OF E])
qed

section \<open>The header of a previous transaction\<close>

lemma wp_init_v5:
  assumes "\<And>h. Q () (s\<lparr> hashers := h \<rparr>)" "\<And>x. R (Fail x) s" "\<And>h x. R (Fail x) (s\<lparr> hashers := h \<rparr>)"
  shows "wp (init_v5_tx_hashers E) Q R s"
  unfolding init_v5_tx_hashers_def
  by (auto simp: wp_simps vc_simps assms cong: wp_cong split del: if_split)

lemma wp_case_mode [wp_simps]:
  "wp (case mode of TrustedInput \<Rightarrow> a | Signature \<Rightarrow> b) Q R s =
     (case mode of TrustedInput \<Rightarrow> wp a Q R s | Signature \<Rightarrow> wp b Q R s)"
  "wp (case x of True \<Rightarrow> a | False \<Rightarrow> b) Q R s = (case x of True \<Rightarrow> wp a Q R s | False \<Rightarrow> wp b Q R s)"
  by (cases mode, simp_all) (cases x, simp_all)

lemma supported_versions:
  "v6 \<or> version \<in> {TxV4, TxV5} \<Longrightarrow> versioned (t\<lparr> tx_version := Some version, branch_id := Some b, is_v6 := v6, total_amount := a \<rparr>)"
  by (auto simp: versioned_def has_version_def supported_tx_version_def)

lemma wp_init_hashers_trusted:
  assumes L: "legacy_laws E L"
    and Q: "\<And>h v6. v6 \<or> stored_version version \<in> {TxV4, TxV5} \<Longrightarrow>
      Q () (s\<lparr> hashers := h, tx_info := (tx_info s)\<lparr> is_v6 := v6 \<rparr> \<rparr>)"
    and R: "\<And>x s'. R (Fail x) s'"
  shows "wp (legacy_init_hashers E L TrustedInput version parsed n) Q R s"
proof -
  have L': "sha256_update_ok L [] (tx_version_write E TxV4)"
     "\<And>n. sha256_update_ok L (tx_version_write E TxV4) (compact_size_write E n)"
    using L by (simp_all add: legacy_laws_def)
  have Q': "Q () (s\<lparr> hashers := h \<rparr>)" if "stored_version version \<in> {TxV4, TxV5}" for h
    using Q [of "is_v6 (tx_info s)" h] that by simp
  show ?thesis
    unfolding legacy_init_hashers_def
    by (cases version) (auto intro!: wp_init_v5 Q Q' R simp: wp_simps vc_simps L' R)
qed

lemma header_trusted_wp:
  assumes E: "codec_laws E" "legacy_laws E L" and pre: "trusted_pre LgNone s"
  shows "wp (parse_legacy_header E L) (trusted_post s) fails s"
proof -
  have m: "lg_mode (legacy_parser s) = TrustedInput" "lg_state (legacy_parser s) = LgNone" "0 < remaining_len s"
    using pre by (simp_all add: trusted_pre_def)
  show ?thesis
    unfolding parse_legacy_header_def
    apply (simp add: wp_simps vc_simps m cong: wp_cong split del: if_split)
    apply (intro allI impI)
    apply (rule wp_init_hashers_trusted [OF E(2)])
    by (auto simp: wp_case_mode trusted_simps m supported_versions cong: wp_cong split del: if_split dest: tx_version_readD [OF E(2)])
qed

section \<open>The loop\<close>

definition lg_more :: "world \<Rightarrow> bool" where
  "lg_more s \<longleftrightarrow> remaining_len s > 0 \<and> \<not> lg_final (legacy_parser s)"

definition lg_left :: "world \<Rightarrow> nat" where
  "lg_left s = (if lg_more s then lg_measure s else 0)"

definition trusted_inv :: "world \<Rightarrow> bool" where
  "trusted_inv s \<longleftrightarrow> lg_ok s \<and> lg_mode (legacy_parser s) = TrustedInput
     \<and> lg_state (legacy_parser s) \<notin> {LgTransactionPresignReady, LgTransactionReadyToSign}"

lemma trusted_step_wp:
  assumes E: "codec_laws E" "legacy_laws E L" and inv: "trusted_inv s" and more: "lg_more s"
  shows "wp (legacy_step E L) (trusted_post s) fails s"
proof -
  have pre: "trusted_pre (lg_state (legacy_parser s)) s" and m: "lg_mode (legacy_parser s) = TrustedInput"
    and n: "lg_state (legacy_parser s) \<notin> {LgTransactionPresignReady, LgTransactionReadyToSign, LgTransactionParsed}"
    using inv more by (auto simp: trusted_inv_def trusted_pre_def lg_more_def lg_final_def lg_is_finished_def)
  note steps = header_trusted_wp [OF E] input_wp [OF E(1)] input_script_wp [OF E(1)] outputs_count_wp [OF E(1)]
    output_wp [OF E(1)] output_script_wp [OF E(1)] output_hashing_done_wp [OF E(1)] sapling_wp sapling_spends_wp
    sapling_spends_hashing_wp sapling_outputs_compact_wp sapling_outputs_memo_wp sapling_outputs_noncompact_wp
    sapling_output_hashing_wp actions_compact_wp actions_memo_wp actions_noncompact_wp actions_hashing_wp
    process_extra_wp [OF E(1)]
  show ?thesis
    using pre n m unfolding legacy_step_def wp_bnd wp_gets
    by (cases "lg_state (legacy_parser s)") (simp_all add: steps)
qed

interpretation trusted_loop: packet_loop lg_more lg_left "legacy_step E L"
  "\<lambda>s. codec_laws E \<and> legacy_laws E L \<and> trusted_inv s" "\<lambda>e s. True"
proof
  show "lg_more s \<longleftrightarrow> 0 < lg_left s" for s
    by (auto simp: lg_left_def lg_measure_def lg_more_def)
  show "wp (legacy_step E L)
      (\<lambda>_ s'. (codec_laws E \<and> legacy_laws E L \<and> trusted_inv s') \<and> lg_left s' < lg_left s)
      (\<lambda>e s'. case e of Fail x \<Rightarrow> True | Panic \<Rightarrow> False | Diverge \<Rightarrow> False) s"
    if "codec_laws E \<and> legacy_laws E L \<and> trusted_inv s" "lg_more s" for s
    using trusted_step_wp [of E L s] that
    by (auto elim!: wp_mono simp: trusted_post_def trusted_inv_def lg_left_def fails_def just_fails_def split: fault.split)
qed

end
