(* ===== verification/Spec2Isabelle.thy ===== *)
theory Spec2Isabelle
  imports Montgomery Account_Theorems Pczt_Turn_Theorems Device_Theorems Legacy_Loop
begin

text \<open>
  A model of the Zcash application of a hardware wallet (the Rust sources under \<open>src/src\<close> and the
  pure parts of \<open>src/ledger_zcash_crypto/src\<close>), with the theorems that make it correct.

  \<^bold>\<open>The program.\<close>  A host sends commands (APDUs) to the device.  \<open>main.rs\<close> decodes each one, dispatches
  it to a handler under \<open>handlers/\<close>, shows a status screen and, after an error of a command that works
  on a transaction, resets the context (\<open>TxContext\<close> of \<open>tx.rs\<close>).  There are two protocols for
  signing.  The PCZT protocol (\<open>handlers/pczt.rs\<close>, \<open>parser/pczt\<close>) sends a partially created
  transaction section by section: header, transparent inputs and outputs, Orchard and Ironwood
  actions; after the last section the outputs, the fee and the validity window are reviewed by the
  user, or compared with the request of the Exchange application (\<open>app_ui/sign.rs\<close>, \<open>swap.rs\<close>), and then
  every input and spend can be signed once.  The legacy protocol (\<open>handlers/get_trusted_input.rs\<close>,
  \<open>handlers/sign_tx.rs\<close>, \<open>parser/legacy\<close>) first digests every previous transaction and vouches for the
  amount of one output with an HMAC (a trusted input), then reads inputs and outputs of the transaction
  to sign, has it reviewed, and reads each input again to sign it.  The remaining commands
  (\<open>get_version.rs\<close>, \<open>get_public_key.rs\<close>, \<open>get_shielded_addr.rs\<close>, \<open>get_vk.rs\<close>) read addresses and viewing
  keys.

  \<^bold>\<open>Shape of the model.\<close>  A stateful function is a computation of the state-and-error monad of
  \<open>Prelude\<close> over one record \<open>world\<close> (theory \<open>Tx\<close>): the reader of the packet, the fields of \<open>TxContext\<close>, the
  parsers, the command and response buffers, and a log of reviews, swap checks and signatures that the
  program never reads.  An error keeps the state reached so far, as a Rust method on \<open>&mut self\<close> does;
  a panic and an exhausted loop are outcomes of their own, \<open>Panic\<close> and \<open>Diverge\<close>, so that a proof that a
  command is answered excludes both.  Machine integers are words; the saturating and checked operations
  of the source are written out.  What the sources call but do not contain is a parameter: the record
  \<open>env\<close> (theory \<open>Device\<close>: the Zcash crates, the SDK, the curve arithmetic), \<open>account_env\<close> (unified
  encodings, address screens) and \<open>legacy_env\<close> (HMAC, SHA-256 contexts, the trusted-input key).  The laws
  the proofs use are \<open>codec_laws\<close> (readers consume what they return), \<open>hash_laws\<close>, \<open>key_laws\<close>,
  \<open>note_laws\<close> (lengths, and errors instead of panics), collected in \<open>env_laws\<close>, and \<open>legacy_laws\<close>;
  \<open>Example_Device\<close> has a device that satisfies all of them; the theorems with hypotheses are instantiated
  on it, most of them on the sessions of \<open>Pczt_Example\<close> and \<open>Pczt_Swap_Example\<close>.

  \<^bold>\<open>Theories and sources.\<close>
  \<^item> \<open>Prelude\<close>: words, byte codecs, the monad, its weakest preconditions, and the locale \<open>packet_loop\<close>
    shared by the packet loops of all parsers.
  \<^item> \<open>Status\<close>: status words, errors and constants (\<open>main.rs\<close>, \<open>parser/error.rs\<close>, \<open>consts.rs\<close>).
  \<^item> \<open>Device\<close>: the services.  \<open>Bip32\<close>: \<open>utils/bip32_path.rs\<close> and the path policy of \<open>utils.rs\<close>.
    \<open>Scripts\<close>: \<open>transparent_script.rs\<close>, \<open>transparent_address.rs\<close> and \<open>utils/base58_address.rs\<close>.
    \<open>Montgomery\<close>: \<open>montgomery.rs\<close>.
  \<^item> \<open>Tx\<close>: \<open>tx.rs\<close>, the data of the parsers, \<open>parser/reader.rs\<close> and \<open>utils/blake2b_256_pers.rs\<close>.
    \<open>Review\<close>: \<open>app_ui/sign.rs\<close> and \<open>check_swap_params\<close>.  \<open>Compute\<close>: \<open>parser/compute.rs\<close> and
    \<open>personalization.rs\<close>.  \<open>Keys\<close>: \<open>zip32.rs\<close>, \<open>extended_public_key.rs\<close>, \<open>hashers.rs\<close>, \<open>rng.rs\<close>,
    \<open>orchard_decipher.rs\<close> and the signing primitives of \<open>sign_tx.rs\<close>.
  \<^item> \<open>Pczt\<close>, \<open>Pczt_Transparent\<close>, \<open>Pczt_Shielded\<close>, \<open>Pczt_Dispatch\<close>, \<open>Pczt_Handlers\<close>: the files of
    \<open>parser/pczt\<close>, \<open>parser/pczt.rs\<close>, \<open>handlers/pczt.rs\<close> and the main loop restricted to the PCZT
    instructions (\<open>main_turn\<close>).
    The two files of the shielded pools are one parser with the pool as an argument.
  \<^item> \<open>Account\<close>: the read-only commands with \<open>app_ui/address.rs\<close> and \<open>check_address\<close>.
  \<^item> \<open>Legacy\<close>, \<open>Legacy_Parser\<close>, \<open>Legacy_Output\<close>, \<open>Legacy_Handlers\<close>: the files of \<open>parser/legacy\<close>, the
    legacy handlers, decoding of every instruction and the whole main loop (\<open>apdu_turn\<close>).

  \<^bold>\<open>What is shown.\<close>
  \<^item> \<open>Pczt_Invariant\<close> states the invariant of a PCZT session: what the parser retained for signing, what
    the running hashers commit to and what the review will show agree at every byte.  \<open>Pczt_Input_Proofs\<close>,
    \<open>Pczt_Output_Proofs\<close>, \<open>Pczt_Action_Proofs\<close>, \<open>Pczt_Record_Proofs\<close> and \<open>Pczt_Shielded_Proofs\<close> show that
    every parsing step keeps it, \<open>Pczt_Session\<close> and \<open>Pczt_Signing\<close> lift it to commands, \<open>Pczt_Footprint\<close>
    and \<open>Pczt_History\<close> follow the log.  \<open>Pczt_Wallet\<close> shows that every PCZT command is a step of an
    abstract wallet that signs only under its latest granted review, and never twice with one key.
  \<^item> \<open>Legacy_Frame\<close> and \<open>Device_Frame\<close> show what the legacy parsers and the PCZT commands leave of each
    other's state.  \<open>Device_Wallet\<close> extends the wallet by the legacy protocol, \<open>Device_Turns\<close> shows that
    the handler of every instruction is a step of it, and \<open>Device_Session\<close> lifts this to the turns of the
    whole main loop and defines the sessions all theorems about reachable states are about: any commands
    of any kind in any order.  No law of the legacy services is used for this.
  \<^item> \<open>Device_Theorems\<close>, \<open>Pczt_Theorems\<close> and \<open>Pczt_Turn_Theorems\<close> draw the consequences.  For the whole
    device: its signatures follow granted reviews, refused commands release nothing, the Exchange
    application gets one transaction.  For PCZT transactions: what a signature is, which digest it signs,
    conservation of value, hidden change, bounds, totality, the end of a session.
  \<^item> \<open>Bip32\<close>, \<open>Scripts\<close>, \<open>Montgomery\<close>, \<open>Review\<close> and \<open>Account_Theorems\<close> hold the theorems of their
    components, \<open>Compute\<close> the equality of the code's digest with the digest tree of ZIP-244.
  \<^item> \<open>Legacy_Steps\<close> and \<open>Legacy_Loop\<close> show that no step of the legacy parser on a previous transaction
    panics, and that its loop ends.

  \<^bold>\<open>Fuel.\<close>  A packet loop of the PCZT parser runs with the length of the packet as fuel: every step
  consumes a byte.  The legacy loops run with twice that length plus two: three states consume
  nothing, and each is followed by one that does.  That this is enough is part of the theorems that
  commands are answered.

  \<^bold>\<open>Not modelled.\<close>  Curve and hash arithmetic of the crypto crate (it runs on coprocessor system calls:
  parameters), drawing on the screen, settings and menus, the measurement builds, log lines, the
  printing of an amount for the Exchange application, and the storage of the trusted-input key at
  start-up.
\<close>

end
